theory Spec2Isabelle
  imports Main "HOL-Library.Word" "HOL-Library.AList"
begin

section \<open>Structured logger (package logger)\<close>

subsection \<open>Levels and formats\<close>

text \<open>
  \<^verbatim>\<open>type LogLevel int\<close> with the constants \<^verbatim>\<open>DEBUG .. FATAL\<close> numbered by \<^verbatim>\<open>iota\<close>.
  Levels are only compared and printed, never computed with, so the mathematical
  integers carry every value of the Go type.
\<close>

type_synonym LogLevel = int

definition DEBUG :: LogLevel where "DEBUG = 0"
definition INFO :: LogLevel where "INFO = 1"
definition WARN :: LogLevel where "WARN = 2"
definition ERROR :: LogLevel where "ERROR = 3"
definition FATAL :: LogLevel where "FATAL = 4"

definition LogLevel_String :: "LogLevel \<Rightarrow> string" where
  "LogLevel_String l =
     (if l = DEBUG then ''DEBUG''
      else if l = INFO then ''INFO''
      else if l = WARN then ''WARN''
      else if l = ERROR then ''ERROR''
      else if l = FATAL then ''FATAL''
      else ''UNKNOWN'')"

type_synonym LogFormat = int

definition JSON :: LogFormat where "JSON = 0"
definition TEXT :: LogFormat where "TEXT = 1"

definition parseLogLevel :: "string \<Rightarrow> LogLevel" where
  "parseLogLevel s =
     (if s = ''DEBUG'' then DEBUG
      else if s = ''INFO'' then INFO
      else if s = ''WARN'' \<or> s = ''WARNING'' then WARN
      else if s = ''ERROR'' then ERROR
      else if s = ''FATAL'' then FATAL
      else INFO)"

definition parseLogFormat :: "string \<Rightarrow> LogFormat" where
  "parseLogFormat s =
     (if s = ''JSON'' then JSON
      else if s = ''TEXT'' then TEXT
      else JSON)"

subsection \<open>Values, maps, entries and loggers\<close>

text \<open>
  \<^verbatim>\<open>interface{}\<close> values that the code stores in field maps and contexts: strings and
  integers.
\<close>

datatype any = Str string | Num int

text \<open>
  A Go map is kept as an association list with one pair per key; \<^verbatim>\<open>m[k] = v\<close> is
  \<^const>\<open>AList.update\<close>, \<^verbatim>\<open>len(m)\<close> is the number of pairs and a \<^verbatim>\<open>range\<close> loop visits the
  pairs in the order of the list. The order Go picks is unspecified; a map is the same
  map under every order (\<^const>\<open>map_of\<close>).
\<close>

type_synonym gomap = "(string \<times> any) list"

definition is_gomap :: "gomap \<Rightarrow> bool" where
  "is_gomap m = distinct (map fst m)"

text \<open>\<^verbatim>\<open>for k, v := range src { dst[k] = v }\<close>\<close>

fun range_assign :: "gomap \<Rightarrow> gomap \<Rightarrow> gomap" where
  "range_assign [] dst = dst"
| "range_assign ((k, v) # src) dst = range_assign src (AList.update k v dst)"

record LogEntry =
  Timestamp :: int
  Level :: string
  Message :: string
  Service :: string
  Component :: string
  TraceID :: string
  UserID :: string
  RequestID :: string
  File :: string
  Line :: int
  Function :: string
  Duration :: "int option"
  Error :: string
  Fields :: "gomap option"
  Tags :: "string list"

text \<open>
  The struct \<^verbatim>\<open>Logger\<close>. \<open>output'\<close> (the field \<^verbatim>\<open>output\<close>) names an \<^verbatim>\<open>io.Writer\<close>;
  \<open>fields'\<close> (the field \<^verbatim>\<open>fields\<close>) is a reference to a map object in the store
  (\<open>None\<close> is the nil map).
\<close>

record Logger =
  level :: LogLevel
  service :: string
  component :: string
  output' :: nat
  format :: LogFormat
  fields' :: "nat option"

subsection \<open>The store and the environment\<close>

text \<open>
  Objects live in a store: \<^verbatim>\<open>*Logger\<close> is an index into \<open>loggers\<close> (\<open>None\<close> is nil), a
  field map an index into \<open>gomaps\<close>; allocation appends. \<open>writes\<close> lists the calls of
  \<^verbatim>\<open>Write\<close> on the writers, oldest first, each with the writer and the bytes;
  \<open>emitted\<close> lists, beside the bytes, the entries that \<^verbatim>\<open>writeEntry\<close> was given.
  \<open>tick\<close> counts the questions asked of the environment so far (clock, call stack,
  random source). \<open>defaultLogger\<close> is the package variable of that name.
  \<open>formatted\<close> lists the calls of \<^verbatim>\<open>fmt.Sprintf\<close> on a caller's format and arguments,
  oldest first: such a call walks the format and runs the \<^verbatim>\<open>String\<close> and \<^verbatim>\<open>Error\<close>
  methods of its arguments whether or not its result is used afterwards.
\<close>

record world =
  loggers :: "Logger list"
  gomaps :: "gomap list"
  writes :: "(nat \<times> string) list"
  emitted :: "LogEntry list"
  tick :: nat
  defaultLogger :: "nat option"
  formatted :: "(string \<times> any list) list"

text \<open>
  What the logger takes from the Go runtime and the standard library: the answers of
  \<^verbatim>\<open>time.Now\<close> and \<^verbatim>\<open>runtime.Caller(3)\<close> (program counter, file, line, ok) to the n-th
  question, \<^verbatim>\<open>runtime.FuncForPC(pc).Name()\<close> (\<open>None\<close> when \<^verbatim>\<open>FuncForPC\<close> is nil),
  \<^verbatim>\<open>filepath.Base\<close>, \<^verbatim>\<open>json.Marshal\<close> on an entry and on a field map (\<open>Inl\<close> carries
  \<^verbatim>\<open>err.Error()\<close>), \<^verbatim>\<open>Time.Format\<close> with a layout, the verb \<^verbatim>\<open>%d\<close>, \<^verbatim>\<open>fmt.Sprintf\<close> on a
  caller's format and arguments, the sixteen bytes of \<^verbatim>\<open>uuid.New()\<close> as the answer to the
  n-th question, \<^verbatim>\<open>textproto.CanonicalMIMEHeaderKey\<close>, and what the \<^verbatim>\<open>Write\<close> of the server's
  \<^verbatim>\<open>http.ResponseWriter\<close> reports (bytes written and error) for the data it is given,
  after the \<^verbatim>\<open>WriteHeader\<close> and \<^verbatim>\<open>Write\<close> calls it has seen.
\<close>

text \<open>A \<^verbatim>\<open>uuid.UUID\<close> is a \<^verbatim>\<open>[16]byte\<close>: the bytes at the indices 0 to 15.\<close>

type_synonym UUID = "nat \<Rightarrow> 8 word"

record env =
  time_Now :: "nat \<Rightarrow> int"
  runtime_Caller :: "nat \<Rightarrow> nat \<times> string \<times> int \<times> bool"
  runtime_FuncForPC :: "nat \<Rightarrow> string option"
  filepath_Base :: "string \<Rightarrow> string"
  json_Marshal :: "LogEntry \<Rightarrow> string + string"
  json_Marshal_map :: "gomap \<Rightarrow> string + string"
  time_Format :: "string \<Rightarrow> int \<Rightarrow> string"
  fmt_d :: "int \<Rightarrow> string"
  fmt_Sprintf :: "string \<Rightarrow> any list \<Rightarrow> string"
  uuid_New :: "nat \<Rightarrow> UUID"
  CanonicalMIMEHeaderKey :: "string \<Rightarrow> string"
  sink_Write :: "int list \<Rightarrow> string list \<Rightarrow> string \<Rightarrow> int \<times> string option"

text \<open>How a call ends: it returns, it panics, or the process exits with a status.\<close>

datatype 'a outcome = Return 'a world | Panic world | Exit int world

fun final :: "'a outcome \<Rightarrow> world" where
  "final (Return x w) = w"
| "final (Panic w) = w"
| "final (Exit c w) = w"

fun returned :: "'a outcome \<Rightarrow> bool" where
  "returned (Return x w) = True"
| "returned (Panic w) = False"
| "returned (Exit c w) = False"

fun result :: "'a outcome \<Rightarrow> 'a option" where
  "result (Return x w) = Some x"
| "result (Panic w) = None"
| "result (Exit c w) = None"

definition deref :: "world \<Rightarrow> nat option \<Rightarrow> Logger option" where
  "deref w p =
     (case p of
        None \<Rightarrow> None
      | Some a \<Rightarrow> if a < length (loggers w) then Some (loggers w ! a) else None)"

definition map_contents :: "world \<Rightarrow> nat option \<Rightarrow> gomap" where
  "map_contents w p =
     (case p of
        None \<Rightarrow> []
      | Some a \<Rightarrow> if a < length (gomaps w) then gomaps w ! a else [])"

definition now :: "env \<Rightarrow> world \<Rightarrow> int \<times> world" where
  "now E w = (time_Now E (tick w), w\<lparr>tick := Suc (tick w)\<rparr>)"

subsection \<open>Correlation identifiers in a context\<close>

text \<open>
  A \<^verbatim>\<open>context.Context\<close> as the chain of its \<^verbatim>\<open>WithValue\<close> pairs, newest first, for the
  keys of type \<^verbatim>\<open>contextKey\<close>.
\<close>

type_synonym Context = "(string \<times> any) list"

definition traceIDKey :: string where "traceIDKey = ''trace_id''"
definition userIDKey :: string where "userIDKey = ''user_id''"
definition requestIDKey :: string where "requestIDKey = ''request_id''"

definition getFromContext :: "Context \<Rightarrow> string \<Rightarrow> string" where
  "getFromContext ctx key =
     (case map_of ctx key of
        Some (Str s) \<Rightarrow> s
      | _ \<Rightarrow> '''')"

definition WithTraceID :: "Context \<Rightarrow> string \<Rightarrow> Context" where
  "WithTraceID ctx traceID = (traceIDKey, Str traceID) # ctx"

definition WithUserID :: "Context \<Rightarrow> string \<Rightarrow> Context" where
  "WithUserID ctx userID = (userIDKey, Str userID) # ctx"

definition WithRequestID :: "Context \<Rightarrow> string \<Rightarrow> Context" where
  "WithRequestID ctx requestID = (requestIDKey, Str requestID) # ctx"

definition GetRequestID :: "Context \<Rightarrow> string" where
  "GetRequestID ctx = getFromContext ctx requestIDKey"

subsection \<open>Building and writing an entry\<close>

definition getCaller :: "env \<Rightarrow> world \<Rightarrow> (string \<times> int \<times> string) \<times> world" where
  "getCaller E w =
     (let (pc, fullFile, line, ok) = runtime_Caller E (tick w);
          w' = w\<lparr>tick := Suc (tick w)\<rparr>
      in if \<not> ok then ((''unknown'', 0, ''unknown''), w')
         else (let file = filepath_Base E fullFile;
                   function = (case runtime_FuncForPC E pc of
                                 Some name \<Rightarrow> filepath_Base E name
                               | None \<Rightarrow> ''unknown'')
               in ((file, line, function), w')))"

text \<open>\<^verbatim>\<open>fmt.Fprintln(out, s)\<close>: one \<^verbatim>\<open>Write\<close> of the text and a newline.\<close>

definition Fprintln :: "world \<Rightarrow> nat \<Rightarrow> string \<Rightarrow> world" where
  "Fprintln w out s = w\<lparr>writes := writes w @ [(out, s @ [CHR 0x0A])]\<rparr>"

definition formatTextEntry :: "env \<Rightarrow> LogEntry \<Rightarrow> string" where
  "formatTextEntry E entry =
     (let timestamp = time_Format E ''2006-01-02 15:04:05'' (Timestamp entry);
          baseMsg = ''['' @ timestamp @ ''] '' @ Level entry @ '' ['' @ Service entry @ ''/''
                    @ Component entry @ ''] '' @ File entry @ '':'' @ fmt_d E (Line entry)
                    @ '' '' @ Function entry @ '' - '' @ Message entry;
          baseMsg = (if TraceID entry \<noteq> '''' then baseMsg @ '' [trace='' @ TraceID entry @ '']''
                     else baseMsg);
          baseMsg = (if RequestID entry \<noteq> '''' then baseMsg @ '' [request='' @ RequestID entry @ '']''
                     else baseMsg);
          baseMsg = (if UserID entry \<noteq> '''' then baseMsg @ '' [user='' @ UserID entry @ '']''
                     else baseMsg)
      in case Fields entry of
           None \<Rightarrow> baseMsg
         | Some m \<Rightarrow>
             if length m > 0 then
               (case json_Marshal_map E m of
                  Inr fieldsJSON \<Rightarrow> baseMsg @ '' fields='' @ fieldsJSON
                | Inl err \<Rightarrow> baseMsg)
             else baseMsg)"

definition encodeEntry :: "env \<Rightarrow> world \<Rightarrow> Logger \<Rightarrow> LogEntry \<Rightarrow> string \<times> world" where
  \<open>encodeEntry E w lg entry =
     (if format lg = JSON then
        (case json_Marshal E entry of
           Inr jsonBytes \<Rightarrow> (jsonBytes, w)
         | Inl err \<Rightarrow>
             (let (t, w1) = now E w
              in (''{"level":"ERROR","message":"Failed to marshal log entry: '' @ err
                  @ ''","timestamp":"'' @ time_Format E ''2006-01-02T15:04:05Z07:00'' t
                  @ ''"}'', w1)))
      else if format lg = TEXT then (formatTextEntry E entry, w)
      else ('''', w))\<close>

text \<open>
  \<^verbatim>\<open>writeEntry\<close>: the \<^verbatim>\<open>switch\<close> on the format (\<^const>\<open>encodeEntry\<close>), then one
  \<^verbatim>\<open>Fprintln\<close> to the logger's writer.
\<close>

definition writeEntry :: "env \<Rightarrow> world \<Rightarrow> Logger \<Rightarrow> LogEntry \<Rightarrow> world" where
  "writeEntry E w lg entry =
     (let (out, w1) = encodeEntry E w lg entry;
          w2 = Fprintln w1 (output' lg) out
      in w2\<lparr>emitted := emitted w2 @ [entry]\<rparr>)"

text \<open>
  The field map of an entry: the logger's fields, then the extra ones, and nil when
  nothing was stored.
\<close>

definition entry_fields :: "world \<Rightarrow> Logger \<Rightarrow> gomap option \<Rightarrow> gomap option" where
  "entry_fields w lg extraFields =
     (let m = range_assign (map_contents w (fields' lg)) [];
          m = (case extraFields of None \<Rightarrow> m | Some ex \<Rightarrow> range_assign ex m)
      in if length m = 0 then None else Some m)"

definition log :: "env \<Rightarrow> world \<Rightarrow> nat option \<Rightarrow> LogLevel \<Rightarrow> string \<Rightarrow> gomap option \<Rightarrow> unit outcome" where
  "log E w l lv message extraFields =
     (case deref w l of
        None \<Rightarrow> Panic w
      | Some lg \<Rightarrow>
          if lv < level lg then Return () w
          else
            (let ((file, line, function), w1) = getCaller E w;
                 (t, w2) = now E w1;
                 entry = \<lparr>Timestamp = t, Level = LogLevel_String lv, Message = message,
                          Service = service lg, Component = component lg,
                          TraceID = '''', UserID = '''', RequestID = '''',
                          File = file, Line = line, Function = function,
                          Duration = None, Error = '''',
                          Fields = entry_fields w2 lg extraFields, Tags = []\<rparr>
             in Return () (writeEntry E w2 lg entry)))"

definition logWithContext ::
  "env \<Rightarrow> world \<Rightarrow> nat option \<Rightarrow> Context \<Rightarrow> LogLevel \<Rightarrow> string \<Rightarrow> gomap option \<Rightarrow> unit outcome" where
  "logWithContext E w l ctx lv message extraFields =
     (case deref w l of
        None \<Rightarrow> Panic w
      | Some lg \<Rightarrow>
          if lv < level lg then Return () w
          else
            (let ((file, line, function), w1) = getCaller E w;
                 (t, w2) = now E w1;
                 entry = \<lparr>Timestamp = t, Level = LogLevel_String lv, Message = message,
                          Service = service lg, Component = component lg,
                          TraceID = getFromContext ctx traceIDKey,
                          UserID = getFromContext ctx userIDKey,
                          RequestID = getFromContext ctx requestIDKey,
                          File = file, Line = line, Function = function,
                          Duration = None, Error = '''',
                          Fields = entry_fields w2 lg extraFields, Tags = []\<rparr>
             in Return () (writeEntry E w2 lg entry)))"

subsection \<open>Deriving a logger\<close>

text \<open>
  \<^verbatim>\<open>WithFields\<close> allocates a map and a \<^verbatim>\<open>Logger\<close>, copies the receiver's fields into the new
  map and then the supplied ones. The supplied map is only read.
\<close>

definition WithFields :: "world \<Rightarrow> nat option \<Rightarrow> gomap \<Rightarrow> (nat option) outcome" where
  "WithFields w l flds =
     (case deref w l of
        None \<Rightarrow> Panic w
      | Some lg \<Rightarrow>
          (let m = length (gomaps w);
               newLogger = length (loggers w);
               w1 = w\<lparr>gomaps := gomaps w @ [[]],
                      loggers := loggers w @
                        [\<lparr>level = level lg, service = service lg, component = component lg,
                          output' = output' lg, format = format lg, fields' = Some m\<rparr>]\<rparr>;
               w2 = w1\<lparr>gomaps := (gomaps w1)
                        [m := range_assign (map_contents w1 (fields' lg)) (gomaps w1 ! m)]\<rparr>;
               w3 = w2\<lparr>gomaps := (gomaps w2)[m := range_assign flds (gomaps w2 ! m)]\<rparr>
           in Return (Some newLogger) w3))"

subsection \<open>The leveled methods\<close>

text \<open>
  The call \<^verbatim>\<open>fmt.Sprintf(format, args...)\<close>. In \<^verbatim>\<open>l.log(DEBUG, fmt.Sprintf(format,
  args...), nil)\<close> it is an argument of the call of \<^verbatim>\<open>log\<close>, so it is evaluated before
  \<^verbatim>\<open>log\<close> is entered.
\<close>

definition Sprintf :: "env \<Rightarrow> world \<Rightarrow> string \<Rightarrow> any list \<Rightarrow> string \<times> world" where
  "Sprintf E w fmt args = (fmt_Sprintf E fmt args, w\<lparr>formatted := formatted w @ [(fmt, args)]\<rparr>)"

definition Logger_Debug :: "env \<Rightarrow> world \<Rightarrow> nat option \<Rightarrow> string \<Rightarrow> unit outcome" where
  "Logger_Debug E w l message = log E w l DEBUG message None"

definition Logger_Debugf :: "env \<Rightarrow> world \<Rightarrow> nat option \<Rightarrow> string \<Rightarrow> any list \<Rightarrow> unit outcome" where
  "Logger_Debugf E w l fmt args =
     (let (message, w) = Sprintf E w fmt args in log E w l DEBUG message None)"

definition Logger_DebugContext :: "env \<Rightarrow> world \<Rightarrow> nat option \<Rightarrow> Context \<Rightarrow> string \<Rightarrow> unit outcome" where
  "Logger_DebugContext E w l ctx message = logWithContext E w l ctx DEBUG message None"

definition Logger_Info :: "env \<Rightarrow> world \<Rightarrow> nat option \<Rightarrow> string \<Rightarrow> unit outcome" where
  "Logger_Info E w l message = log E w l INFO message None"

definition Logger_Infof :: "env \<Rightarrow> world \<Rightarrow> nat option \<Rightarrow> string \<Rightarrow> any list \<Rightarrow> unit outcome" where
  "Logger_Infof E w l fmt args =
     (let (message, w) = Sprintf E w fmt args in log E w l INFO message None)"

definition Logger_InfoContext :: "env \<Rightarrow> world \<Rightarrow> nat option \<Rightarrow> Context \<Rightarrow> string \<Rightarrow> unit outcome" where
  "Logger_InfoContext E w l ctx message = logWithContext E w l ctx INFO message None"

definition Logger_Warn :: "env \<Rightarrow> world \<Rightarrow> nat option \<Rightarrow> string \<Rightarrow> unit outcome" where
  "Logger_Warn E w l message = log E w l WARN message None"

definition Logger_Warnf :: "env \<Rightarrow> world \<Rightarrow> nat option \<Rightarrow> string \<Rightarrow> any list \<Rightarrow> unit outcome" where
  "Logger_Warnf E w l fmt args =
     (let (message, w) = Sprintf E w fmt args in log E w l WARN message None)"

definition Logger_WarnContext :: "env \<Rightarrow> world \<Rightarrow> nat option \<Rightarrow> Context \<Rightarrow> string \<Rightarrow> unit outcome" where
  "Logger_WarnContext E w l ctx message = logWithContext E w l ctx WARN message None"

definition Logger_Error :: "env \<Rightarrow> world \<Rightarrow> nat option \<Rightarrow> string \<Rightarrow> unit outcome" where
  "Logger_Error E w l message = log E w l ERROR message None"

definition Logger_Errorf :: "env \<Rightarrow> world \<Rightarrow> nat option \<Rightarrow> string \<Rightarrow> any list \<Rightarrow> unit outcome" where
  "Logger_Errorf E w l fmt args =
     (let (message, w) = Sprintf E w fmt args in log E w l ERROR message None)"

definition Logger_ErrorContext :: "env \<Rightarrow> world \<Rightarrow> nat option \<Rightarrow> Context \<Rightarrow> string \<Rightarrow> unit outcome" where
  "Logger_ErrorContext E w l ctx message = logWithContext E w l ctx ERROR message None"

text \<open>\<^verbatim>\<open>os.Exit(1)\<close> once the call before it has returned.\<close>

definition then_Exit :: "unit outcome \<Rightarrow> unit outcome" where
  "then_Exit r = (case r of Return u w \<Rightarrow> Exit 1 w | Panic w \<Rightarrow> Panic w | Exit c w \<Rightarrow> Exit c w)"

definition Logger_Fatal :: "env \<Rightarrow> world \<Rightarrow> nat option \<Rightarrow> string \<Rightarrow> unit outcome" where
  "Logger_Fatal E w l message = then_Exit (log E w l FATAL message None)"

definition Logger_Fatalf :: "env \<Rightarrow> world \<Rightarrow> nat option \<Rightarrow> string \<Rightarrow> any list \<Rightarrow> unit outcome" where
  "Logger_Fatalf E w l fmt args =
     (let (message, w) = Sprintf E w fmt args in then_Exit (log E w l FATAL message None))"

text \<open>A call of one of the fourteen leveled methods, and the level it logs at.\<close>

datatype emit_call =
    Debug string | Debugf string "any list" | DebugContext Context string
  | Info string | Infof string "any list" | InfoContext Context string
  | Warn string | Warnf string "any list" | WarnContext Context string
  | Error' string | Errorf string "any list" | ErrorContext Context string
  | Fatal string | Fatalf string "any list"

fun emit_level :: "emit_call \<Rightarrow> LogLevel" where
  "emit_level (Debug m) = DEBUG"
| "emit_level (Debugf f a) = DEBUG"
| "emit_level (DebugContext c m) = DEBUG"
| "emit_level (Info m) = INFO"
| "emit_level (Infof f a) = INFO"
| "emit_level (InfoContext c m) = INFO"
| "emit_level (Warn m) = WARN"
| "emit_level (Warnf f a) = WARN"
| "emit_level (WarnContext c m) = WARN"
| "emit_level (Error' m) = ERROR"
| "emit_level (Errorf f a) = ERROR"
| "emit_level (ErrorContext c m) = ERROR"
| "emit_level (Fatal m) = FATAL"
| "emit_level (Fatalf f a) = FATAL"

fun emit :: "env \<Rightarrow> world \<Rightarrow> nat option \<Rightarrow> emit_call \<Rightarrow> unit outcome" where
  "emit E w l (Debug m) = Logger_Debug E w l m"
| "emit E w l (Debugf f a) = Logger_Debugf E w l f a"
| "emit E w l (DebugContext c m) = Logger_DebugContext E w l c m"
| "emit E w l (Info m) = Logger_Info E w l m"
| "emit E w l (Infof f a) = Logger_Infof E w l f a"
| "emit E w l (InfoContext c m) = Logger_InfoContext E w l c m"
| "emit E w l (Warn m) = Logger_Warn E w l m"
| "emit E w l (Warnf f a) = Logger_Warnf E w l f a"
| "emit E w l (WarnContext c m) = Logger_WarnContext E w l c m"
| "emit E w l (Error' m) = Logger_Error E w l m"
| "emit E w l (Errorf f a) = Logger_Errorf E w l f a"
| "emit E w l (ErrorContext c m) = Logger_ErrorContext E w l c m"
| "emit E w l (Fatal m) = Logger_Fatal E w l m"
| "emit E w l (Fatalf f a) = Logger_Fatalf E w l f a"

text \<open>
  The calls of \<^verbatim>\<open>fmt.Sprintf\<close> that a leveled method makes on its own arguments: one for
  the five methods that take a format, none for the others.
\<close>

fun emit_formats :: "emit_call \<Rightarrow> (string \<times> any list) list" where
  "emit_formats (Debugf f a) = [(f, a)]"
| "emit_formats (Infof f a) = [(f, a)]"
| "emit_formats (Warnf f a) = [(f, a)]"
| "emit_formats (Errorf f a) = [(f, a)]"
| "emit_formats (Fatalf f a) = [(f, a)]"
| "emit_formats c = []"

subsection \<open>The package-level functions on the default logger\<close>

definition pkg_Debug :: "env \<Rightarrow> world \<Rightarrow> string \<Rightarrow> unit outcome" where
  "pkg_Debug E w message =
     (if defaultLogger w \<noteq> None then Logger_Debug E w (defaultLogger w) message else Return () w)"

definition pkg_Debugf :: "env \<Rightarrow> world \<Rightarrow> string \<Rightarrow> any list \<Rightarrow> unit outcome" where
  "pkg_Debugf E w fmt args =
     (if defaultLogger w \<noteq> None then Logger_Debugf E w (defaultLogger w) fmt args else Return () w)"

definition pkg_Info :: "env \<Rightarrow> world \<Rightarrow> string \<Rightarrow> unit outcome" where
  "pkg_Info E w message =
     (if defaultLogger w \<noteq> None then Logger_Info E w (defaultLogger w) message else Return () w)"

definition pkg_Infof :: "env \<Rightarrow> world \<Rightarrow> string \<Rightarrow> any list \<Rightarrow> unit outcome" where
  "pkg_Infof E w fmt args =
     (if defaultLogger w \<noteq> None then Logger_Infof E w (defaultLogger w) fmt args else Return () w)"

definition pkg_Warn :: "env \<Rightarrow> world \<Rightarrow> string \<Rightarrow> unit outcome" where
  "pkg_Warn E w message =
     (if defaultLogger w \<noteq> None then Logger_Warn E w (defaultLogger w) message else Return () w)"

definition pkg_Warnf :: "env \<Rightarrow> world \<Rightarrow> string \<Rightarrow> any list \<Rightarrow> unit outcome" where
  "pkg_Warnf E w fmt args =
     (if defaultLogger w \<noteq> None then Logger_Warnf E w (defaultLogger w) fmt args else Return () w)"

definition pkg_Error :: "env \<Rightarrow> world \<Rightarrow> string \<Rightarrow> unit outcome" where
  "pkg_Error E w message =
     (if defaultLogger w \<noteq> None then Logger_Error E w (defaultLogger w) message else Return () w)"

definition pkg_Errorf :: "env \<Rightarrow> world \<Rightarrow> string \<Rightarrow> any list \<Rightarrow> unit outcome" where
  "pkg_Errorf E w fmt args =
     (if defaultLogger w \<noteq> None then Logger_Errorf E w (defaultLogger w) fmt args else Return () w)"

definition pkg_Fatal :: "env \<Rightarrow> world \<Rightarrow> string \<Rightarrow> unit outcome" where
  "pkg_Fatal E w message =
     (if defaultLogger w \<noteq> None then Logger_Fatal E w (defaultLogger w) message else Return () w)"

definition pkg_Fatalf :: "env \<Rightarrow> world \<Rightarrow> string \<Rightarrow> any list \<Rightarrow> unit outcome" where
  "pkg_Fatalf E w fmt args =
     (if defaultLogger w \<noteq> None then Logger_Fatalf E w (defaultLogger w) fmt args else Return () w)"

text \<open>
  A map reference is valid in a store when it is nil or names an allocated map. Go has
  no dangling references, so every reference a program holds is valid.
\<close>

definition valid_ref :: "world \<Rightarrow> nat option \<Rightarrow> bool" where
  "valid_ref w p = (case p of None \<Rightarrow> True | Some a \<Rightarrow> a < length (gomaps w))"

section \<open>HTTP middleware (package middleware)\<close>

unbundle bit_operations_syntax

subsection \<open>Sequencing, durations, headers, requests\<close>

text \<open>The next statement runs only when the call before it has returned.\<close>

fun and_then :: "'a outcome \<Rightarrow> ('a \<Rightarrow> world \<Rightarrow> 'b outcome) \<Rightarrow> 'b outcome" where
  "and_then (Return x s) f = f x s"
| "and_then (Panic s) f = Panic s"
| "and_then (Exit c s) f = Exit c s"

text \<open>
  A \<^verbatim>\<open>time.Duration\<close> is a 64-bit count of nanoseconds; \<^verbatim>\<open>Time.Sub\<close>, and so
  \<^verbatim>\<open>time.Since\<close>, answers the largest or smallest duration when the difference does not
  fit. \<^verbatim>\<open>Milliseconds\<close> divides by a million, rounding towards zero.
\<close>

definition sat64 :: "int \<Rightarrow> int" where
  "sat64 d = max (- (2 ^ 63)) (min (2 ^ 63 - 1) d)"

definition Second :: int where "Second = 1000000000"
definition Minute :: int where "Minute = 60 * Second"

definition time_Since :: "env \<Rightarrow> world \<Rightarrow> int \<Rightarrow> int \<times> world" where
  "time_Since E s t0 = (let (t, s') = now E s in (sat64 (t - t0), s'))"

definition Milliseconds :: "int \<Rightarrow> int" where
  "Milliseconds d = sgn d * (\<bar>d\<bar> div 1000000)"

text \<open>
  \<^verbatim>\<open>hex.Encode\<close> writes two lower-case digits for each byte, the high half first.
  \<^verbatim>\<open>UUID.String\<close> fills a \<^verbatim>\<open>[36]byte\<close> with the digits of the bytes 0 to 3, 4 and 5,
  6 and 7, 8 and 9, and 10 to 15, with a hyphen between the groups.
\<close>

definition hextable :: string where
  "hextable = ''0123456789abcdef''"

definition hex_Encode :: "8 word list \<Rightarrow> string" where
  "hex_Encode src =
     concat (map (\<lambda>v. [hextable ! unat (drop_bit 4 v), hextable ! unat (v AND 0x0f)]) src)"

definition UUID_String :: "UUID \<Rightarrow> string" where
  "UUID_String uuid =
     hex_Encode [uuid 0, uuid 1, uuid 2, uuid 3] @ ''-''
     @ hex_Encode [uuid 4, uuid 5] @ ''-''
     @ hex_Encode [uuid 6, uuid 7] @ ''-''
     @ hex_Encode [uuid 8, uuid 9] @ ''-''
     @ hex_Encode [uuid 10, uuid 11, uuid 12, uuid 13, uuid 14, uuid 15]"

text \<open>\<^verbatim>\<open>uuid.New().String()\<close>: the next identifier of the random source, as a string.\<close>

definition uuid_String :: "env \<Rightarrow> world \<Rightarrow> string \<times> world" where
  "uuid_String E s = (UUID_String (uuid_New E (tick s)), s\<lparr>tick := Suc (tick s)\<rparr>)"

text \<open>\<^verbatim>\<open>http.Header\<close>, a map from canonical header names to lists of values.\<close>

type_synonym Header = "string \<rightharpoonup> string list"

definition Header_Get :: "env \<Rightarrow> Header \<Rightarrow> string \<Rightarrow> string" where
  "Header_Get E h key =
     (case h (CanonicalMIMEHeaderKey E key) of
        None \<Rightarrow> ''''
      | Some [] \<Rightarrow> ''''
      | Some (v # vs) \<Rightarrow> v)"

definition Header_Set :: "env \<Rightarrow> Header \<Rightarrow> string \<Rightarrow> string \<Rightarrow> Header" where
  "Header_Set E h key v = h(CanonicalMIMEHeaderKey E key \<mapsto> [v])"

definition Header_Del :: "env \<Rightarrow> Header \<Rightarrow> string \<Rightarrow> Header" where
  "Header_Del E h key = h(CanonicalMIMEHeaderKey E key := None)"

text \<open>The parts of \<^verbatim>\<open>*http.Request\<close> that the middleware reads.\<close>

record Request =
  Method :: string
  URL_Path :: string
  URL_RawQuery :: string
  Header :: Header
  RemoteAddr :: string
  Host :: string
  ContentLength :: int
  Context :: Context

definition UserAgent :: "env \<Rightarrow> Request \<Rightarrow> string" where
  "UserAgent E r = Header_Get E (Header r) ''User-Agent''"

subsection \<open>The response writer and its wrapper\<close>

text \<open>
  The server's \<^verbatim>\<open>http.ResponseWriter\<close>, seen through its interface: the header map it
  hands out, and the \<^verbatim>\<open>WriteHeader\<close> and \<^verbatim>\<open>Write\<close> calls it has received. What its
  \<^verbatim>\<open>Write\<close> reports is the environment's answer for that history.
\<close>

record http_ResponseWriter =
  hdr :: Header
  codes :: "int list"
  chunks :: "string list"

definition http_WriteHeader :: "http_ResponseWriter \<Rightarrow> int \<Rightarrow> http_ResponseWriter" where
  "http_WriteHeader u code = u\<lparr>codes := codes u @ [code]\<rparr>"

definition http_Write ::
  "env \<Rightarrow> http_ResponseWriter \<Rightarrow> string \<Rightarrow> (int \<times> string option) \<times> http_ResponseWriter" where
  "http_Write E u data = (sink_Write E (codes u) (chunks u) data, u\<lparr>chunks := chunks u @ [data]\<rparr>)"

text \<open>
  The struct \<^verbatim>\<open>responseWriter\<close>; \<^verbatim>\<open>written\<close> is an \<^verbatim>\<open>int64\<close>, and \<^verbatim>\<open>int64(n)\<close> of the
  reported count is added to it with wrap-around.
\<close>

record responseWriter =
  ResponseWriter :: http_ResponseWriter
  statusCode :: int
  written :: "64 word"

definition newResponseWriter :: "http_ResponseWriter \<Rightarrow> responseWriter" where
  "newResponseWriter w = \<lparr>ResponseWriter = w, statusCode = 200, written = 0\<rparr>"

definition WriteHeader :: "responseWriter \<Rightarrow> int \<Rightarrow> responseWriter" where
  "WriteHeader rw code =
     (let rw = rw\<lparr>statusCode := code\<rparr>
      in rw\<lparr>ResponseWriter := http_WriteHeader (ResponseWriter rw) code\<rparr>)"

definition Write :: "env \<Rightarrow> responseWriter \<Rightarrow> string \<Rightarrow> (int \<times> string option) \<times> responseWriter" where
  "Write E rw data =
     (let ((n, err), u) = http_Write E (ResponseWriter rw) data;
          rw = rw\<lparr>ResponseWriter := u\<rparr>;
          rw = rw\<lparr>written := written rw + word_of_int n\<rparr>
      in ((n, err), rw))"

text \<open>
  A handler's calls on a response wrapper, in order, and the byte counts that the
  server's writer reported for the \<^verbatim>\<open>Write\<close> calls among them.
\<close>

datatype rw_call = CallWriteHeader int | CallWrite string

fun rw_calls :: "env \<Rightarrow> rw_call list \<Rightarrow> responseWriter \<Rightarrow> int list \<times> responseWriter" where
  "rw_calls E [] rw = ([], rw)"
| "rw_calls E (CallWriteHeader code # cs) rw = rw_calls E cs (WriteHeader rw code)"
| "rw_calls E (CallWrite data # cs) rw =
     (let ((n, err), rw1) = Write E rw data;
          (ns, rw2) = rw_calls E cs rw1
      in (n # ns, rw2))"

fun is_CallWriteHeader :: "rw_call \<Rightarrow> bool" where
  "is_CallWriteHeader (CallWriteHeader code) = True"
| "is_CallWriteHeader (CallWrite data) = False"

subsection \<open>The logging stage\<close>

text \<open>
  \<^verbatim>\<open>LoggingMiddleware.Handler\<close>. \<open>lg\<close> is the field \<^verbatim>\<open>lm.logger\<close>; \<open>next\<close> is the wrapped
  handler, which is given the response wrapper and the request and leaves the wrapper
  and the world in some state, or panics, or exits. The body is kept in two parts, the
  statements before the call of \<^verbatim>\<open>next.ServeHTTP\<close> and those after it.
\<close>

definition Handler_begin ::
  "env \<Rightarrow> nat option \<Rightarrow> http_ResponseWriter \<Rightarrow> Request \<Rightarrow> world
     \<Rightarrow> (Request \<times> responseWriter \<times> string \<times> Context \<times> int) outcome" where
  "Handler_begin E lg w r s =
     (let (start, s) = now E s;
          requestID = Header_Get E (Header r) ''X-Request-ID'';
          (requestID, s) = (if requestID = '''' then uuid_String E s else (requestID, s));
          ctx = WithRequestID (Context r) requestID;
          r = r\<lparr>Context := ctx\<rparr>;
          w = w\<lparr>hdr := Header_Set E (hdr w) ''X-Request-ID'' requestID\<rparr>;
          wrapped = newResponseWriter w
      in and_then (WithFields s lg
           [(''http_method'', Str (Method r)),
            (''http_path'', Str (URL_Path r)),
            (''http_query'', Str (URL_RawQuery r)),
            (''http_user_agent'', Str (UserAgent E r)),
            (''http_remote_addr'', Str (RemoteAddr r)),
            (''http_host'', Str (Host r)),
            (''request_id'', Str requestID),
            (''content_length'', Num (ContentLength r))])
         (\<lambda>l s. and_then (Logger_InfoContext E s l ctx ''HTTP request started'')
         (\<lambda>u s. Return (r, wrapped, requestID, ctx, start) s)))"

definition Handler_finish ::
  "env \<Rightarrow> nat option \<Rightarrow> Request \<Rightarrow> string \<Rightarrow> Context \<Rightarrow> int \<Rightarrow> responseWriter \<Rightarrow> world
     \<Rightarrow> http_ResponseWriter outcome" where
  "Handler_finish E lg r requestID ctx start wrapped s =
     (let (duration, s) = time_Since E s start
      in and_then (WithFields s lg
           [(''http_method'', Str (Method r)),
            (''http_path'', Str (URL_Path r)),
            (''http_status_code'', Num (statusCode wrapped)),
            (''http_remote_addr'', Str (RemoteAddr r)),
            (''request_id'', Str requestID),
            (''duration_ms'', Num (Milliseconds duration)),
            (''response_size'', Num (sint (written wrapped)))])
         (\<lambda>l s. and_then (Logger_InfoContext E s l ctx ''HTTP request completed'')
         (\<lambda>u s. and_then
            (if duration > 5 * Second then
               and_then (WithFields s lg
                 [(''http_method'', Str (Method r)),
                  (''http_path'', Str (URL_Path r)),
                  (''duration_ms'', Num (Milliseconds duration)),
                  (''request_id'', Str requestID)])
               (\<lambda>l s. Logger_WarnContext E s l ctx ''Slow HTTP request detected'')
             else Return () s)
         (\<lambda>u s. and_then
            (if statusCode wrapped \<ge> 400 then
               (let lvl = (if statusCode wrapped \<ge> 500 then ''error'' else ''warn'')
                in and_then (WithFields s lg
                     [(''http_method'', Str (Method r)),
                      (''http_path'', Str (URL_Path r)),
                      (''http_status_code'', Num (statusCode wrapped)),
                      (''request_id'', Str requestID)])
                   (\<lambda>logEntry s.
                      if lvl = ''error''
                      then Logger_ErrorContext E s logEntry ctx
                             ''HTTP request failed with server error''
                      else Logger_WarnContext E s logEntry ctx
                             ''HTTP request failed with client error''))
             else Return () s)
         (\<lambda>u s. Return (ResponseWriter wrapped) s)))))"

definition Handler ::
  "env \<Rightarrow> nat option \<Rightarrow> (responseWriter \<Rightarrow> Request \<Rightarrow> world \<Rightarrow> responseWriter outcome)
     \<Rightarrow> http_ResponseWriter \<Rightarrow> Request \<Rightarrow> world \<Rightarrow> http_ResponseWriter outcome" where
  "Handler E lg next w r s =
     and_then (Handler_begin E lg w r s)
       (\<lambda>(r, wrapped, requestID, ctx, start) s.
          and_then (next wrapped r s)
            (\<lambda>wrapped s. Handler_finish E lg r requestID ctx start wrapped s))"

subsection \<open>The rate limiter\<close>

text \<open>
  \<^verbatim>\<open>http.Error\<close>: content headers, the status, then the message and a newline as the
  body.
\<close>

definition http_Error :: "env \<Rightarrow> http_ResponseWriter \<Rightarrow> string \<Rightarrow> int \<Rightarrow> http_ResponseWriter" where
  "http_Error E w msg code =
     (let h = Header_Del E (hdr w) ''Content-Length'';
          h = Header_Set E h ''Content-Type'' ''text/plain; charset=utf-8'';
          h = Header_Set E h ''X-Content-Type-Options'' ''nosniff'';
          w = http_WriteHeader (w\<lparr>hdr := h\<rparr>) code;
          (res, w) = http_Write E w (msg @ [CHR 0x0A])
      in w)"

text \<open>
  The two variables that the closure of \<^verbatim>\<open>RateLimitMiddleware\<close> captures. The counters
  are Go \<^verbatim>\<open>int\<close>s, 64 bits wide here; a key that is absent counts as zero.
\<close>

record rl_state =
  requestCounts :: "string \<rightharpoonup> 64 word"
  lastReset :: int

definition count_of :: "rl_state \<Rightarrow> string \<Rightarrow> 64 word" where
  "count_of st k = (case requestCounts st k of None \<Rightarrow> 0 | Some c \<Rightarrow> c)"

text \<open>The state when \<^verbatim>\<open>RateLimitMiddleware\<close> is called: no counters, and the time.\<close>

definition new_rl_state :: "env \<Rightarrow> world \<Rightarrow> rl_state \<times> world" where
  "new_rl_state E s = (let (t, s) = now E s in (\<lparr>requestCounts = Map.empty, lastReset = t\<rparr>, s))"

text \<open>
  The first two statements of the handler: the reset of the window when it is due, and
  the count of the request.
\<close>

definition rl_count :: "env \<Rightarrow> rl_state \<Rightarrow> Request \<Rightarrow> world \<Rightarrow> rl_state \<times> world" where
  "rl_count E st r s =
     (let (d, s) = time_Since E s (lastReset st);
          (st, s) = (if d > Minute
                     then (let (t, s) = now E s
                           in (\<lparr>requestCounts = Map.empty, lastReset = t\<rparr>, s))
                     else (st, s));
          clientIP = RemoteAddr r;
          st = st\<lparr>requestCounts := (requestCounts st)(clientIP \<mapsto> count_of st clientIP + 1)\<rparr>
      in (st, s))"

text \<open>
  The handler that \<^verbatim>\<open>RateLimitMiddleware\<close> returns, with the state of its closure passed
  in and out.
\<close>

definition RateLimitMiddleware ::
  "env \<Rightarrow> nat option \<Rightarrow> (http_ResponseWriter \<Rightarrow> Request \<Rightarrow> world \<Rightarrow> http_ResponseWriter outcome)
     \<Rightarrow> rl_state \<Rightarrow> http_ResponseWriter \<Rightarrow> Request \<Rightarrow> world
     \<Rightarrow> rl_state \<times> http_ResponseWriter outcome" where
  "RateLimitMiddleware E lg next st w r s =
     (let (st, s) = rl_count E st r s;
          clientIP = RemoteAddr r
      in (st,
          if sint (count_of st clientIP) > 100 then
            and_then (WithFields s lg
              [(''http_method'', Str (Method r)),
               (''http_path'', Str (URL_Path r)),
               (''http_remote_addr'', Str (RemoteAddr r)),
               (''request_count'', Num (sint (count_of st clientIP))),
               (''request_id'', Str (GetRequestID (Context r)))])
            (\<lambda>l s. and_then (Logger_WarnContext E s l (Context r) ''Rate limit exceeded'')
            (\<lambda>u s. Return (http_Error E w ''Rate limit exceeded'' 429) s))
          else
            and_then
              (if sint (count_of st clientIP) > 50 then
                 and_then (WithFields s lg
                   [(''http_remote_addr'', Str (RemoteAddr r)),
                    (''request_count'', Num (sint (count_of st clientIP))),
                    (''request_id'', Str (GetRequestID (Context r)))])
                 (\<lambda>l s. Logger_InfoContext E s l (Context r) ''High request rate detected'')
               else Return () s)
            (\<lambda>u s. next w r s)))"

text \<open>
  Serving a list of requests, each with its response writer, one after the other
  through the rate limiter (a handler that panics ends its request, not the server).
  For each request: whether the window was due for a reset when it arrived, its client
  key, and the state it left. \<open>reset_due\<close> is the condition
  \<^verbatim>\<open>now - lastReset > 60s\<close> on the clock reading that the request will take.
\<close>

definition reset_due :: "env \<Rightarrow> rl_state \<Rightarrow> world \<Rightarrow> bool" where
  "reset_due E st s = (time_Now E (tick s) - lastReset st > Minute)"

fun serve ::
  "env \<Rightarrow> nat option \<Rightarrow> (http_ResponseWriter \<Rightarrow> Request \<Rightarrow> world \<Rightarrow> http_ResponseWriter outcome)
     \<Rightarrow> rl_state \<Rightarrow> world \<Rightarrow> (http_ResponseWriter \<times> Request) list
     \<Rightarrow> (bool \<times> string \<times> rl_state) list" where
  "serve E lg next st s [] = []"
| "serve E lg next st s ((w, r) # reqs) =
     (let (st', out) = RateLimitMiddleware E lg next st w r s
      in (reset_due E st s, RemoteAddr r, st') # serve E lg next st' (final out) reqs)"

text \<open>
  The client keys of the requests seen since the most recent reset of the window, the
  resetting request included; \<open>acc\<close> holds those seen before the list starts.
\<close>

fun observed :: "(bool \<times> string \<times> rl_state) list \<Rightarrow> string list \<Rightarrow> string list" where
  "observed [] acc = acc"
| "observed ((due, k, st) # evs) acc = observed evs (if due then [k] else acc @ [k])"

definition last_state :: "rl_state \<Rightarrow> (bool \<times> string \<times> rl_state) list \<Rightarrow> rl_state" where
  "last_state st evs = (if evs = [] then st else snd (snd (last evs)))"

text \<open>
  An entry carries a request identifier when it has it as its \<^verbatim>\<open>RequestID\<close> and, under
  the key \<^verbatim>\<open>request_id\<close>, among its fields.
\<close>

definition carries_request_id :: "string \<Rightarrow> LogEntry \<Rightarrow> bool" where
  "carries_request_id rid e =
     (RequestID e = rid \<and>
      (case Fields e of None \<Rightarrow> False | Some m \<Rightarrow> map_of m ''request_id'' = Some (Str rid)))"

section \<open>Example inputs\<close>

text \<open>
  An environment whose call stack resolves on the first question only, one whose call
  stack never resolves, and a store with one logger at threshold \<^verbatim>\<open>WARN\<close> carrying one
  field.
\<close>

definition env0 :: env where
  "env0 = \<lparr>time_Now = (\<lambda>n. int n), runtime_Caller = (\<lambda>n. (0, ''/app/main.go'', 42, n = 0)),
           runtime_FuncForPC = (\<lambda>pc. Some ''main.main''), filepath_Base = (\<lambda>p. p),
           json_Marshal = (\<lambda>e. Inr (Message e)), json_Marshal_map = (\<lambda>m. Inl ''unsupported''),
           time_Format = (\<lambda>layout t. ''T''), fmt_d = (\<lambda>i. ''N''),
           fmt_Sprintf = (\<lambda>f args. f), uuid_New = (\<lambda>n i. 0),
           CanonicalMIMEHeaderKey = (\<lambda>k. k),
           sink_Write = (\<lambda>codes chunks data. (int (length data), None))\<rparr>"

definition env1 :: env where
  "env1 = env0\<lparr>runtime_Caller := (\<lambda>n. (0, [], 0, False))\<rparr>"

definition logger0 :: Logger where
  "logger0 = \<lparr>level = WARN, service = ''svc'', component = ''http'', output' = 0,
              format = JSON, fields' = Some 0\<rparr>"

definition world0 :: world where
  "world0 = \<lparr>loggers = [logger0], gomaps = [[(''env'', Str ''test'')]], writes = [], emitted = [],
             tick = 0,
             defaultLogger = None, formatted = []\<rparr>"

definition fields0 :: gomap where
  "fields0 = [(''env'', Str ''prod''), (''request_id'', Str ''r-1'')]"

text \<open>
  A response writer that has seen nothing, a request that carries an identifier, one
  that does not, handlers that return at once, and a rate-limiter state in which one
  client has made fifty requests.
\<close>

definition sink0 :: http_ResponseWriter where
  "sink0 = \<lparr>hdr = Map.empty, codes = [], chunks = []\<rparr>"

definition req0 :: Request where
  "req0 = \<lparr>Method = ''GET'', URL_Path = ''/logs'', URL_RawQuery = '''',
            Header = [''X-Request-ID'' \<mapsto> [''existing-id'']], RemoteAddr = ''10.0.0.1:4711'',
            Host = ''localhost'', ContentLength = 0, Context = []\<rparr>"

definition req1 :: Request where
  "req1 = req0\<lparr>Header := Map.empty\<rparr>"

definition next_ok :: "responseWriter \<Rightarrow> Request \<Rightarrow> world \<Rightarrow> responseWriter outcome" where
  "next_ok rw r s = Return rw s"

definition next_404 :: "responseWriter \<Rightarrow> Request \<Rightarrow> world \<Rightarrow> responseWriter outcome" where
  "next_404 rw r s = Return (WriteHeader rw 404) s"

definition inner_ok :: "http_ResponseWriter \<Rightarrow> Request \<Rightarrow> world \<Rightarrow> http_ResponseWriter outcome" where
  "inner_ok w r s = Return w s"

definition st50 :: rl_state where
  "st50 = \<lparr>requestCounts = [''10.0.0.1:4711'' \<mapsto> 50], lastReset = 0\<rparr>"

definition st100 :: rl_state where
  "st100 = \<lparr>requestCounts = [''10.0.0.1:4711'' \<mapsto> 100], lastReset = 0\<rparr>"

definition logger_info :: Logger where
  "logger_info = logger0\<lparr>level := INFO\<rparr>"

definition world_info :: world where
  "world_info = world0\<lparr>loggers := [logger_info]\<rparr>"

text \<open>
  A clock that stands still, a clock that starts after the first minute, and a
  rate-limiter state with no counters.
\<close>

definition env_frozen :: env where
  "env_frozen = env0\<lparr>time_Now := (\<lambda>n. 0)\<rparr>"

definition env_late :: env where
  "env_late = env0\<lparr>time_Now := (\<lambda>n. 61 * Second + int n)\<rparr>"

definition st_new :: rl_state where
  "st_new = \<lparr>requestCounts = Map.empty, lastReset = 0\<rparr>"

section \<open>Properties of the logger\<close>

subsection \<open>Auxiliary facts\<close>

lemma levels_ordered: "DEBUG < INFO \<and> INFO < WARN \<and> WARN < ERROR \<and> ERROR < FATAL"
  by (simp add: DEBUG_def INFO_def WARN_def ERROR_def FATAL_def)

lemma level_neqs:
  "DEBUG \<noteq> FATAL" "INFO \<noteq> FATAL" "WARN \<noteq> FATAL" "ERROR \<noteq> FATAL"
  by (simp_all add: DEBUG_def INFO_def WARN_def ERROR_def FATAL_def)

lemma getCaller_tick: "snd (getCaller E w) = w\<lparr>tick := Suc (tick w)\<rparr>"
  by (simp add: getCaller_def Let_def split: prod.splits)

lemma getCaller_not_ok:
  "runtime_Caller E (tick w) = (pc, fullFile, n, False) \<Longrightarrow>
   fst (getCaller E w) = (''unknown'', 0, ''unknown'')"
  by (simp add: getCaller_def)

lemma log_below: "deref w l = Some lg \<Longrightarrow> lv < level lg \<Longrightarrow> log E w l lv m ex = Return () w"
  by (simp add: log_def)

lemma logWithContext_below:
  "deref w l = Some lg \<Longrightarrow> lv < level lg \<Longrightarrow> logWithContext E w l ctx lv m ex = Return () w"
  by (simp add: logWithContext_def)

lemma map_contents_tick: "map_contents (w\<lparr>tick := t\<rparr>) p = map_contents w p"
  by (simp add: map_contents_def split: option.splits)

lemma entry_fields_tick: "entry_fields (w\<lparr>tick := t\<rparr>) lg ex = entry_fields w lg ex"
  by (simp add: entry_fields_def map_contents_tick)

lemma log_above:
  assumes "deref w l = Some lg" and "\<not> lv < level lg"
    and "fst (getCaller E w) = (f, n, fn)"
  shows "log E w l lv m ex =
     Return () (writeEntry E (w\<lparr>tick := Suc (Suc (tick w))\<rparr>) lg
        \<lparr>Timestamp = time_Now E (Suc (tick w)), Level = LogLevel_String lv, Message = m,
         Service = service lg, Component = component lg,
         TraceID = '''', UserID = '''', RequestID = '''',
         File = f, Line = n, Function = fn, Duration = None, Error = '''',
         Fields = entry_fields w lg ex, Tags = []\<rparr>)"
proof -
  have g: "getCaller E w = ((f, n, fn), w\<lparr>tick := Suc (tick w)\<rparr>)"
    using assms(3) getCaller_tick [of E w] by (cases "getCaller E w") simp
  show ?thesis
    using assms(1,2) by (simp add: log_def g now_def entry_fields_tick)
qed

lemma logWithContext_above:
  assumes "deref w l = Some lg" and "\<not> lv < level lg"
    and "fst (getCaller E w) = (f, n, fn)"
  shows "logWithContext E w l ctx lv m ex =
     Return () (writeEntry E (w\<lparr>tick := Suc (Suc (tick w))\<rparr>) lg
        \<lparr>Timestamp = time_Now E (Suc (tick w)), Level = LogLevel_String lv, Message = m,
         Service = service lg, Component = component lg,
         TraceID = getFromContext ctx traceIDKey, UserID = getFromContext ctx userIDKey,
         RequestID = getFromContext ctx requestIDKey,
         File = f, Line = n, Function = fn, Duration = None, Error = '''',
         Fields = entry_fields w lg ex, Tags = []\<rparr>)"
proof -
  have g: "getCaller E w = ((f, n, fn), w\<lparr>tick := Suc (tick w)\<rparr>)"
    using assms(3) getCaller_tick [of E w] by (cases "getCaller E w") simp
  show ?thesis
    using assms(1,2) by (simp add: logWithContext_def g now_def entry_fields_tick)
qed

lemma Fprintln_writes: "writes (Fprintln w out s) = writes w @ [(out, s @ [CHR 0x0A])]"
  by (simp add: Fprintln_def)

lemma encodeEntry_frame:
  "writes (snd (encodeEntry E w lg e)) = writes w
   \<and> emitted (snd (encodeEntry E w lg e)) = emitted w
   \<and> loggers (snd (encodeEntry E w lg e)) = loggers w
   \<and> gomaps (snd (encodeEntry E w lg e)) = gomaps w
   \<and> defaultLogger (snd (encodeEntry E w lg e)) = defaultLogger w
   \<and> formatted (snd (encodeEntry E w lg e)) = formatted w"
  unfolding encodeEntry_def now_def
  by (simp split: sum.splits)

lemma writeEntry_writes:
  "\<exists>s. writes (writeEntry E w lg e) = writes w @ [(output' lg, s @ [CHR 0x0A])]"
  unfolding writeEntry_def
  by (cases "encodeEntry E w lg e") (use encodeEntry_frame [of E w lg e] in \<open>simp add: Fprintln_def\<close>)

lemma writeEntry_emitted: "emitted (writeEntry E w lg e) = emitted w @ [e]"
  unfolding writeEntry_def
  by (cases "encodeEntry E w lg e") (use encodeEntry_frame [of E w lg e] in \<open>simp add: Fprintln_def\<close>)

lemma writeEntry_store:
  "loggers (writeEntry E w lg e) = loggers w \<and> gomaps (writeEntry E w lg e) = gomaps w
   \<and> defaultLogger (writeEntry E w lg e) = defaultLogger w"
  unfolding writeEntry_def
  by (cases "encodeEntry E w lg e") (use encodeEntry_frame [of E w lg e] in \<open>simp add: Fprintln_def\<close>)

lemma log_above_ex:
  assumes "deref w l = Some lg" and "\<not> lv < level lg"
    and "fst (getCaller E w) = (f, n, fn)"
  shows "\<exists>entry. log E w l lv m ex =
            Return () (writeEntry E (w\<lparr>tick := Suc (Suc (tick w))\<rparr>) lg entry)
          \<and> File entry = f \<and> Line entry = n \<and> Function entry = fn
          \<and> Level entry = LogLevel_String lv \<and> Message entry = m"
  by (rule exI, rule conjI, rule log_above [OF assms]) simp

lemma logWithContext_above_ex:
  assumes "deref w l = Some lg" and "\<not> lv < level lg"
    and "fst (getCaller E w) = (f, n, fn)"
  shows "\<exists>entry. logWithContext E w l ctx lv m ex =
            Return () (writeEntry E (w\<lparr>tick := Suc (Suc (tick w))\<rparr>) lg entry)
          \<and> File entry = f \<and> Line entry = n \<and> Function entry = fn
          \<and> Level entry = LogLevel_String lv \<and> Message entry = m"
  by (rule exI, rule conjI, rule logWithContext_above [OF assms]) simp

lemma deref_formatted: "deref (w\<lparr>formatted := x\<rparr>) l = deref w l"
  by (simp add: deref_def split: option.splits)

lemma getCaller_formatted: "fst (getCaller E (w\<lparr>formatted := x\<rparr>)) = fst (getCaller E w)"
  by (simp add: getCaller_def Let_def split: prod.splits)

lemma writeEntry_formatted: "formatted (writeEntry E w lg e) = formatted w"
  unfolding writeEntry_def
  by (cases "encodeEntry E w lg e") (use encodeEntry_frame [of E w lg e] in \<open>simp add: Fprintln_def\<close>)

lemma emit_below:
  assumes "deref w l = Some lg" and "emit_level c < level lg"
  shows "emit E w l c =
     (if emit_level c = FATAL then Exit 1 (w\<lparr>formatted := formatted w @ emit_formats c\<rparr>)
      else Return () (w\<lparr>formatted := formatted w @ emit_formats c\<rparr>))"
proof -
  have d: "\<And>x. deref (w\<lparr>formatted := x\<rparr>) l = Some lg"
    using assms(1) by (simp add: deref_formatted)
  have a: "\<And>x m. log E (w\<lparr>formatted := x\<rparr>) l (emit_level c) m None
             = Return () (w\<lparr>formatted := x\<rparr>)"
    by (rule log_below [OF d assms(2)])
  have a0: "\<And>m. log E w l (emit_level c) m None = Return () w"
    by (rule log_below [OF assms])
  have b0: "\<And>ctx m. logWithContext E w l ctx (emit_level c) m None = Return () w"
    by (rule logWithContext_below [OF assms])
  show ?thesis
  proof (cases c)
    case (Debug m) with a0 [of m] show ?thesis by (simp add: Logger_Debug_def level_neqs)
  next
    case (Debugf fm args) with a [of "formatted w @ [(fm, args)]" "fmt_Sprintf E fm args"]
    show ?thesis by (simp add: Logger_Debugf_def Sprintf_def level_neqs)
  next
    case (DebugContext ctx m) with b0 [of ctx m] show ?thesis
      by (simp add: Logger_DebugContext_def level_neqs)
  next
    case (Info m) with a0 [of m] show ?thesis by (simp add: Logger_Info_def level_neqs)
  next
    case (Infof fm args) with a [of "formatted w @ [(fm, args)]" "fmt_Sprintf E fm args"]
    show ?thesis by (simp add: Logger_Infof_def Sprintf_def level_neqs)
  next
    case (InfoContext ctx m) with b0 [of ctx m] show ?thesis
      by (simp add: Logger_InfoContext_def level_neqs)
  next
    case (Warn m) with a0 [of m] show ?thesis by (simp add: Logger_Warn_def level_neqs)
  next
    case (Warnf fm args) with a [of "formatted w @ [(fm, args)]" "fmt_Sprintf E fm args"]
    show ?thesis by (simp add: Logger_Warnf_def Sprintf_def level_neqs)
  next
    case (WarnContext ctx m) with b0 [of ctx m] show ?thesis
      by (simp add: Logger_WarnContext_def level_neqs)
  next
    case (Error' m) with a0 [of m] show ?thesis by (simp add: Logger_Error_def level_neqs)
  next
    case (Errorf fm args) with a [of "formatted w @ [(fm, args)]" "fmt_Sprintf E fm args"]
    show ?thesis by (simp add: Logger_Errorf_def Sprintf_def level_neqs)
  next
    case (ErrorContext ctx m) with b0 [of ctx m] show ?thesis
      by (simp add: Logger_ErrorContext_def level_neqs)
  next
    case (Fatal m) with a0 [of m] show ?thesis
      by (simp add: Logger_Fatal_def then_Exit_def)
  next
    case (Fatalf fm args) with a [of "formatted w @ [(fm, args)]" "fmt_Sprintf E fm args"]
    show ?thesis by (simp add: Logger_Fatalf_def Sprintf_def then_Exit_def)
  qed
qed

lemma emit_above:
  assumes "deref w l = Some lg" and "level lg \<le> emit_level c"
    and "fst (getCaller E w) = (f, n, fn)"
  shows "\<exists>entry. emit E w l c =
            (if emit_level c = FATAL
             then Exit 1 (writeEntry E
                    (w\<lparr>formatted := formatted w @ emit_formats c, tick := Suc (Suc (tick w))\<rparr>)
                    lg entry)
             else Return () (writeEntry E
                    (w\<lparr>formatted := formatted w @ emit_formats c, tick := Suc (Suc (tick w))\<rparr>)
                    lg entry))
          \<and> File entry = f \<and> Line entry = n \<and> Function entry = fn
          \<and> Level entry = LogLevel_String (emit_level c)"
proof -
  have nl: "\<not> emit_level c < level lg" using assms(2) by simp
  have d: "\<And>x. deref (w\<lparr>formatted := x\<rparr>) l = Some lg"
    using assms(1) by (simp add: deref_formatted)
  have g: "\<And>x. fst (getCaller E (w\<lparr>formatted := x\<rparr>)) = (f, n, fn)"
    using assms(3) by (simp add: getCaller_formatted)
  have a: "\<And>x m. \<exists>entry. log E (w\<lparr>formatted := x\<rparr>) l (emit_level c) m None =
            Return () (writeEntry E (w\<lparr>formatted := x, tick := Suc (Suc (tick w))\<rparr>) lg entry)
          \<and> File entry = f \<and> Line entry = n \<and> Function entry = fn
          \<and> Level entry = LogLevel_String (emit_level c)"
  proof -
    fix x m
    from log_above_ex [OF d [of x] nl g [of x], where m = m and ex = None]
    obtain entry where "log E (w\<lparr>formatted := x\<rparr>) l (emit_level c) m None =
            Return () (writeEntry E (w\<lparr>formatted := x, tick := Suc (Suc (tick w))\<rparr>) lg entry)"
      and "File entry = f" "Line entry = n" "Function entry = fn"
      and "Level entry = LogLevel_String (emit_level c)"
      by auto
    then show "\<exists>entry. log E (w\<lparr>formatted := x\<rparr>) l (emit_level c) m None =
            Return () (writeEntry E (w\<lparr>formatted := x, tick := Suc (Suc (tick w))\<rparr>) lg entry)
          \<and> File entry = f \<and> Line entry = n \<and> Function entry = fn
          \<and> Level entry = LogLevel_String (emit_level c)"
      by (intro exI [where x = entry] conjI)
  qed
  have a0: "\<And>m. \<exists>entry. log E w l (emit_level c) m None =
            Return () (writeEntry E (w\<lparr>tick := Suc (Suc (tick w))\<rparr>) lg entry)
          \<and> File entry = f \<and> Line entry = n \<and> Function entry = fn
          \<and> Level entry = LogLevel_String (emit_level c)"
    using log_above_ex [OF assms(1) nl assms(3)] by blast
  have b0: "\<And>ctx m. \<exists>entry. logWithContext E w l ctx (emit_level c) m None =
            Return () (writeEntry E (w\<lparr>tick := Suc (Suc (tick w))\<rparr>) lg entry)
          \<and> File entry = f \<and> Line entry = n \<and> Function entry = fn
          \<and> Level entry = LogLevel_String (emit_level c)"
    using logWithContext_above_ex [OF assms(1) nl assms(3)] by blast
  show ?thesis
  proof (cases c)
    case (Debug m) with a0 [of m] show ?thesis by (simp add: Logger_Debug_def level_neqs)
  next
    case (Debugf fm args) with a [of "formatted w @ [(fm, args)]" "fmt_Sprintf E fm args"]
    show ?thesis by (simp add: Logger_Debugf_def Sprintf_def level_neqs)
  next
    case (DebugContext ctx m) with b0 [of ctx m] show ?thesis
      by (simp add: Logger_DebugContext_def level_neqs)
  next
    case (Info m) with a0 [of m] show ?thesis by (simp add: Logger_Info_def level_neqs)
  next
    case (Infof fm args) with a [of "formatted w @ [(fm, args)]" "fmt_Sprintf E fm args"]
    show ?thesis by (simp add: Logger_Infof_def Sprintf_def level_neqs)
  next
    case (InfoContext ctx m) with b0 [of ctx m] show ?thesis
      by (simp add: Logger_InfoContext_def level_neqs)
  next
    case (Warn m) with a0 [of m] show ?thesis by (simp add: Logger_Warn_def level_neqs)
  next
    case (Warnf fm args) with a [of "formatted w @ [(fm, args)]" "fmt_Sprintf E fm args"]
    show ?thesis by (simp add: Logger_Warnf_def Sprintf_def level_neqs)
  next
    case (WarnContext ctx m) with b0 [of ctx m] show ?thesis
      by (simp add: Logger_WarnContext_def level_neqs)
  next
    case (Error' m) with a0 [of m] show ?thesis by (simp add: Logger_Error_def level_neqs)
  next
    case (Errorf fm args) with a [of "formatted w @ [(fm, args)]" "fmt_Sprintf E fm args"]
    show ?thesis by (simp add: Logger_Errorf_def Sprintf_def level_neqs)
  next
    case (ErrorContext ctx m) with b0 [of ctx m] show ?thesis
      by (simp add: Logger_ErrorContext_def level_neqs)
  next
    case (Fatal m) with a0 [of m] show ?thesis
      by (auto simp add: Logger_Fatal_def then_Exit_def)
  next
    case (Fatalf fm args) with a [of "formatted w @ [(fm, args)]" "fmt_Sprintf E fm args"]
    show ?thesis by (auto simp add: Logger_Fatalf_def Sprintf_def then_Exit_def)
  qed
qed

lemma deref_world0: "deref world0 (Some 0) = Some logger0"
  by (simp add: deref_def world0_def)

lemma range_assign_map_of:
  "distinct (map fst src) \<Longrightarrow> map_of (range_assign src dst) = map_of dst ++ map_of src"
proof (induction src arbitrary: dst)
  case Nil
  then show ?case by simp
next
  case (Cons p src)
  obtain k v where p: "p = (k, v)" by (cases p)
  from Cons.prems p have k: "k \<notin> dom (map_of src)" and d: "distinct (map fst src)"
    by (auto simp: dom_map_of_conv_image_fst)
  have "map_of (range_assign (p # src) dst) = map_of (AList.update k v dst) ++ map_of src"
    using Cons.IH [OF d] p by simp
  also have "\<dots> = (map_of dst)(k \<mapsto> v) ++ map_of src"
    by (simp add: update_conv')
  also have "\<dots> = (map_of dst ++ map_of src)(k \<mapsto> v)"
    using k by (rule map_add_upd_left)
  also have "\<dots> = map_of dst ++ map_of (p # src)"
    using p by simp
  finally show ?case .
qed

lemma range_assign_distinct:
  "distinct (map fst dst) \<Longrightarrow> distinct (map fst (range_assign src dst))"
  by (induction src arbitrary: dst) (auto simp: distinct_update)

lemma map_contents_alloc:
  "map_contents (w\<lparr>gomaps := gomaps w @ [[]], loggers := ls\<rparr>) p = map_contents w p"
  by (cases p) (auto simp: map_contents_def nth_append less_Suc_eq)

lemma WithFields_result:
  assumes "deref w l = Some lg"
  shows "WithFields w l m =
     Return (Some (length (loggers w)))
       (w\<lparr>gomaps := gomaps w @ [range_assign m (range_assign (map_contents w (fields' lg)) [])],
          loggers := loggers w @
             [\<lparr>level = level lg, service = service lg, component = component lg,
               output' = output' lg, format = format lg, fields' = Some (length (gomaps w))\<rparr>]\<rparr>)"
  using assms by (simp add: WithFields_def Let_def map_contents_alloc)

lemma parseLogLevel_names:
  "parseLogLevel ''DEBUG'' = DEBUG" "parseLogLevel ''INFO'' = INFO"
  "parseLogLevel ''WARN'' = WARN" "parseLogLevel ''ERROR'' = ERROR"
  "parseLogLevel ''FATAL'' = FATAL" "parseLogLevel ''WARNING'' = WARN"
  by (simp_all add: parseLogLevel_def)

lemma parseLogLevel_other:
  "s \<notin> {''DEBUG'', ''INFO'', ''WARN'', ''WARNING'', ''ERROR'', ''FATAL''} \<Longrightarrow> parseLogLevel s = INFO"
  unfolding parseLogLevel_def by auto

lemma parseLogLevel_range: "parseLogLevel s \<in> {DEBUG, INFO, WARN, ERROR, FATAL}"
  unfolding parseLogLevel_def by auto

subsection \<open>Level filtering\<close>

text \<open>
  Claim C1, as the code has it. A call of a leveled method below the logger's threshold
  writes nothing, builds no entry and puts no question to the clock or the call stack
  (the two fatal methods still exit). The plain and the context methods leave the store
  as it was. The five methods that take a format (\<^verbatim>\<open>Debugf\<close>, \<^verbatim>\<open>Infof\<close>, \<^verbatim>\<open>Warnf\<close>,
  \<^verbatim>\<open>Errorf\<close>, \<^verbatim>\<open>Fatalf\<close>) have formatted their message by then: the one call of
  \<^verbatim>\<open>fmt.Sprintf\<close> on their format and arguments is the only change, and it is made
  whether the call passes the threshold or not. A call at or above the threshold
  returns (or exits, for the fatal methods) with exactly one more \<^verbatim>\<open>Write\<close> on the
  logger's writer, ending in a newline.
\<close>

theorem emit_level_filter:
  assumes "deref w l = Some lg"
  shows "(emit_level c < level lg \<longrightarrow>
            emit E w l c =
              (if emit_level c = FATAL
               then Exit 1 (w\<lparr>formatted := formatted w @ emit_formats c\<rparr>)
               else Return () (w\<lparr>formatted := formatted w @ emit_formats c\<rparr>)))
       \<and> (emit_level c < level lg \<and> emit_formats c = [] \<longrightarrow>
            emit E w l c = (if emit_level c = FATAL then Exit 1 w else Return () w))
       \<and> (level lg \<le> emit_level c \<longrightarrow>
            (\<exists>w' s e. emit E w l c = (if emit_level c = FATAL then Exit 1 w' else Return () w')
                \<and> writes w' = writes w @ [(output' lg, s @ [CHR 0x0A])]
                \<and> emitted w' = emitted w @ [e]
                \<and> Level e = LogLevel_String (emit_level c)
                \<and> formatted w' = formatted w @ emit_formats c))"
proof (intro conjI impI)
  assume "emit_level c < level lg"
  then show "emit E w l c =
              (if emit_level c = FATAL
               then Exit 1 (w\<lparr>formatted := formatted w @ emit_formats c\<rparr>)
               else Return () (w\<lparr>formatted := formatted w @ emit_formats c\<rparr>))"
    by (rule emit_below [OF assms])
next
  assume a: "emit_level c < level lg \<and> emit_formats c = []"
  then have "emit_level c < level lg" and n: "emit_formats c = []"
    by simp_all
  from emit_below [OF assms this(1), of E]
  show "emit E w l c = (if emit_level c = FATAL then Exit 1 w else Return () w)"
    by (simp add: n)
next
  assume a: "level lg \<le> emit_level c"
  obtain f n fn where g: "fst (getCaller E w) = (f, n, fn)"
    by (cases "fst (getCaller E w)") auto
  let ?w1 = "w\<lparr>formatted := formatted w @ emit_formats c, tick := Suc (Suc (tick w))\<rparr>"
  from emit_above [OF assms a g] obtain entry where
    e: "emit E w l c =
            (if emit_level c = FATAL then Exit 1 (writeEntry E ?w1 lg entry)
             else Return () (writeEntry E ?w1 lg entry))"
    and lv: "Level entry = LogLevel_String (emit_level c)"
    by blast
  from writeEntry_writes [of E ?w1 lg entry]
  obtain s where
    s: "writes (writeEntry E ?w1 lg entry) = writes w @ [(output' lg, s @ [CHR 0x0A])]"
    by auto
  have m: "emitted (writeEntry E ?w1 lg entry) = emitted w @ [entry]"
    by (simp add: writeEntry_emitted)
  have fm: "formatted (writeEntry E ?w1 lg entry) = formatted w @ emit_formats c"
    by (simp add: writeEntry_formatted)
  show "\<exists>w' s e. emit E w l c = (if emit_level c = FATAL then Exit 1 w' else Return () w')
                \<and> writes w' = writes w @ [(output' lg, s @ [CHR 0x0A])]
                \<and> emitted w' = emitted w @ [e]
                \<and> Level e = LogLevel_String (emit_level c)
                \<and> formatted w' = formatted w @ emit_formats c"
    using e s m lv fm by blast
qed

theorem emit_level_filter_witness:
  "deref world0 (Some 0) = Some logger0
   \<and> emit_level (Info ''started'') < level logger0
   \<and> emit env0 world0 (Some 0) (Info ''started'') = Return () world0
   \<and> emit_level (Infof ''user %d'' [Num 7]) < level logger0
   \<and> emit env0 world0 (Some 0) (Infof ''user %d'' [Num 7])
       = Return () (world0\<lparr>formatted := [(''user %d'', [Num 7])]\<rparr>)
   \<and> level logger0 \<le> emit_level (Error' ''failed'')
   \<and> (\<exists>w' s e. emit env0 world0 (Some 0) (Error' ''failed'') = Return () w'
         \<and> writes w' = [(0, s @ [CHR 0x0A])] \<and> emitted w' = [e] \<and> Level e = ''ERROR''
         \<and> formatted w' = [])"
proof -
  have lt: "emit_level (Info ''started'') < level logger0"
    by (simp add: logger0_def INFO_def WARN_def)
  have lt': "emit_level (Infof ''user %d'' [Num 7]) < level logger0"
    by (simp add: logger0_def INFO_def WARN_def)
  have le: "level logger0 \<le> emit_level (Error' ''failed'')"
    by (simp add: logger0_def ERROR_def WARN_def)
  have w: "writes world0 = []" "output' logger0 = 0" "emitted world0 = []"
    "formatted world0 = []"
    by (simp_all add: world0_def logger0_def)
  have ls: "LogLevel_String ERROR = ''ERROR''"
    by (simp add: LogLevel_String_def DEBUG_def INFO_def WARN_def ERROR_def)
  have n: "emit_formats (Info ''started'') = []"
    by simp
  from emit_level_filter [OF deref_world0, THEN conjunct2, THEN conjunct1, THEN mp,
      OF conjI [OF lt n], of env0]
  have a: "emit env0 world0 (Some 0) (Info ''started'') = Return () world0"
    by (simp add: INFO_def FATAL_def)
  from emit_level_filter [OF deref_world0, THEN conjunct1, THEN mp, OF lt', of env0]
  have a': "emit env0 world0 (Some 0) (Infof ''user %d'' [Num 7])
       = Return () (world0\<lparr>formatted := [(''user %d'', [Num 7])]\<rparr>)"
    by (simp add: INFO_def FATAL_def w)
  from emit_level_filter [OF deref_world0, THEN conjunct2, THEN conjunct2, THEN mp, OF le,
      of env0]
  have b: "\<exists>w' s e. emit env0 world0 (Some 0) (Error' ''failed'') = Return () w'
         \<and> writes w' = [(0, s @ [CHR 0x0A])] \<and> emitted w' = [e] \<and> Level e = ''ERROR''
         \<and> formatted w' = []"
    by (simp add: level_neqs w ls)
  show ?thesis
    by (intro conjI, rule deref_world0, rule lt, rule a, rule lt', rule a', rule le, rule b)
qed

text \<open>
  The claim's last clause fails for the methods that take a format: on a logger with
  threshold \<^verbatim>\<open>WARN\<close>, \<^verbatim>\<open>Infof("user %d", 7)\<close> is filtered out and writes nothing, yet its
  message has been formatted.
\<close>

theorem emit_level_filter_counterexample:
  "deref world0 (Some 0) = Some logger0
   \<and> emit_level (Infof ''user %d'' [Num 7]) < level logger0
   \<and> returned (emit env0 world0 (Some 0) (Infof ''user %d'' [Num 7]))
   \<and> writes (final (emit env0 world0 (Some 0) (Infof ''user %d'' [Num 7]))) = []
   \<and> emitted (final (emit env0 world0 (Some 0) (Infof ''user %d'' [Num 7]))) = []
   \<and> formatted world0 = []
   \<and> formatted (final (emit env0 world0 (Some 0) (Infof ''user %d'' [Num 7])))
       = [(''user %d'', [Num 7])]"
proof -
  have lt: "emit_level (Infof ''user %d'' [Num 7]) < level logger0"
    by (simp add: logger0_def INFO_def WARN_def)
  have w: "writes world0 = []" "emitted world0 = []" "formatted world0 = []"
    by (simp_all add: world0_def)
  have e: "emit env0 world0 (Some 0) (Infof ''user %d'' [Num 7])
       = Return () (world0\<lparr>formatted := [(''user %d'', [Num 7])]\<rparr>)"
    using emit_below [OF deref_world0 lt, of env0] by (simp add: INFO_def FATAL_def w)
  show ?thesis
    unfolding e using deref_world0 lt w by simp
qed

subsection \<open>Deriving a logger leaves the receiver alone\<close>

text \<open>
  Claim C2. \<^verbatim>\<open>base.WithFields(m)\<close> returns a new logger and leaves every logger and every
  map that existed before as it was, the receiver and its field map among them. The new
  logger has the receiver's level, service, component, writer and format, and a field
  map of its own, allocated by the call, that holds the receiver's fields overridden by
  those of \<^verbatim>\<open>m\<close>.
\<close>

theorem WithFields_frame:
  assumes "deref w l = Some lg" and "valid_ref w (fields' lg)"
    and "is_gomap (map_contents w (fields' lg))" and "is_gomap m"
  shows "\<exists>d w' dl. WithFields w l m = Return d w'
     \<and> take (length (loggers w)) (loggers w') = loggers w
     \<and> take (length (gomaps w)) (gomaps w') = gomaps w
     \<and> deref w' l = Some lg
     \<and> map_contents w' (fields' lg) = map_contents w (fields' lg)
     \<and> writes w' = writes w \<and> tick w' = tick w \<and> defaultLogger w' = defaultLogger w
     \<and> d \<noteq> l \<and> deref w' d = Some dl
     \<and> level dl = level lg \<and> service dl = service lg \<and> component dl = component lg
     \<and> output' dl = output' lg \<and> format dl = format lg
     \<and> fields' dl \<noteq> fields' lg \<and> valid_ref w' (fields' dl) \<and> \<not> valid_ref w (fields' dl)
     \<and> is_gomap (map_contents w' (fields' dl))
     \<and> map_of (map_contents w' (fields' dl)) = map_of (map_contents w (fields' lg)) ++ map_of m"
proof -
  let ?nm = "range_assign m (range_assign (map_contents w (fields' lg)) [])"
  let ?dl = "\<lparr>level = level lg, service = service lg, component = component lg,
               output' = output' lg, format = format lg, fields' = Some (length (gomaps w))\<rparr>"
  let ?w' = "w\<lparr>gomaps := gomaps w @ [?nm], loggers := loggers w @ [?dl]\<rparr>"
  let ?d = "Some (length (loggers w))"
  have r: "WithFields w l m = Return ?d ?w'"
    by (rule WithFields_result [OF assms(1)])
  obtain a where l: "l = Some a" and a: "a < length (loggers w)" and lg: "loggers w ! a = lg"
    using assms(1) by (auto simp: deref_def split: option.splits if_splits)
  have f1: "take (length (loggers w)) (loggers ?w') = loggers w"
    and f2: "take (length (gomaps w)) (gomaps ?w') = gomaps w"
    by simp_all
  have f3: "deref ?w' l = Some lg"
    using l a lg by (simp add: deref_def nth_append)
  have f4: "map_contents ?w' (fields' lg) = map_contents w (fields' lg)"
    using assms(2) by (auto simp: map_contents_def valid_ref_def nth_append split: option.splits)
  have f5: "writes ?w' = writes w" "tick ?w' = tick w" "defaultLogger ?w' = defaultLogger w"
    by simp_all
  have g1: "?d \<noteq> l" using l a by simp
  have g2: "deref ?w' ?d = Some ?dl" by (simp add: deref_def)
  have g3: "fields' ?dl \<noteq> fields' lg"
    using assms(2) by (auto simp: valid_ref_def split: option.splits)
  have g4: "valid_ref ?w' (fields' ?dl)" "\<not> valid_ref w (fields' ?dl)"
    by (simp_all add: valid_ref_def)
  have mc: "map_contents ?w' (fields' ?dl) = ?nm"
    by (simp add: map_contents_def)
  have g5: "is_gomap (map_contents ?w' (fields' ?dl))"
    unfolding mc is_gomap_def by (intro range_assign_distinct) simp
  have "map_of ?nm = map_of (range_assign (map_contents w (fields' lg)) []) ++ map_of m"
    using assms(4) by (simp add: range_assign_map_of is_gomap_def)
  also have "map_of (range_assign (map_contents w (fields' lg)) [])
               = map_of (map_contents w (fields' lg))"
    using assms(3) by (simp add: range_assign_map_of is_gomap_def)
  finally have g6: "map_of (map_contents ?w' (fields' ?dl))
                      = map_of (map_contents w (fields' lg)) ++ map_of m"
    unfolding mc .
  have sel: "level ?dl = level lg" "service ?dl = service lg" "component ?dl = component lg"
    "output' ?dl = output' lg" "format ?dl = format lg"
    by simp_all
  show ?thesis
    apply (rule exI [where x = ?d], rule exI [where x = ?w'], rule exI [where x = ?dl])
    using r f1 f2 f3 f4 f5 g1 g2 g3 g4 g5 g6 sel by blast
qed

theorem WithFields_frame_witness:
  "deref world0 (Some 0) = Some logger0 \<and> valid_ref world0 (fields' logger0)
   \<and> is_gomap (map_contents world0 (fields' logger0)) \<and> is_gomap fields0
   \<and> (\<exists>d w' dl. WithFields world0 (Some 0) fields0 = Return d w'
        \<and> deref w' (Some 0) = Some logger0
        \<and> map_contents w' (fields' logger0) = [(''env'', Str ''test'')]
        \<and> deref w' d = Some dl
        \<and> map_of (map_contents w' (fields' dl)) ''env'' = Some (Str ''prod'')
        \<and> map_of (map_contents w' (fields' dl)) ''request_id'' = Some (Str ''r-1''))"
proof -
  have mc: "map_contents world0 (fields' logger0) = [(''env'', Str ''test'')]"
    by (simp add: map_contents_def world0_def logger0_def)
  have v: "valid_ref world0 (fields' logger0)"
    by (simp add: valid_ref_def world0_def logger0_def)
  have g1: "is_gomap (map_contents world0 (fields' logger0))"
    by (simp add: mc is_gomap_def)
  have g2: "is_gomap fields0"
    by (simp add: is_gomap_def fields0_def)
  from WithFields_frame [OF deref_world0 v g1 g2] obtain d w' dl where
    r: "WithFields world0 (Some 0) fields0 = Return d w'"
      "deref w' (Some 0) = Some logger0"
      "map_contents w' (fields' logger0) = map_contents world0 (fields' logger0)"
      "deref w' d = Some dl"
      "map_of (map_contents w' (fields' dl))
         = map_of (map_contents world0 (fields' logger0)) ++ map_of fields0"
    by blast
  have "map_of (map_contents w' (fields' dl)) ''env'' = Some (Str ''prod'')"
    "map_of (map_contents w' (fields' dl)) ''request_id'' = Some (Str ''r-1'')"
    by (simp_all add: r(5) mc fields0_def map_add_def)
  with r mc v g1 g2 deref_world0 show ?thesis by auto
qed

subsection \<open>Caller resolution\<close>

text \<open>
  Claim C8. When \<^verbatim>\<open>runtime.Caller\<close> reports failure, \<^verbatim>\<open>getCaller\<close> answers
  \<^verbatim>\<open>("unknown", 0, "unknown")\<close>, and a call of a leveled method that passes the threshold
  still completes (it returns, or exits for the fatal methods, and never panics): it
  writes one record, built from an entry whose file, line and function are exactly that
  triple.
\<close>

theorem caller_resolution_failure:
  assumes "deref w l = Some lg" and "level lg \<le> emit_level c"
    and "runtime_Caller E (tick w) = (pc, fullFile, n, False)"
  shows "fst (getCaller E w) = (''unknown'', 0, ''unknown'')
       \<and> (\<exists>w' entry s. emit E w l c =
              (if emit_level c = FATAL then Exit 1 w' else Return () w')
            \<and> emitted w' = emitted w @ [entry]
            \<and> File entry = ''unknown'' \<and> Line entry = 0 \<and> Function entry = ''unknown''
            \<and> writes w' = writes w @ [(output' lg, s @ [CHR 0x0A])])"
proof -
  have g: "fst (getCaller E w) = (''unknown'', 0, ''unknown'')"
    by (rule getCaller_not_ok [OF assms(3)])
  let ?w1 = "w\<lparr>formatted := formatted w @ emit_formats c, tick := Suc (Suc (tick w))\<rparr>"
  from emit_above [OF assms(1,2) g] obtain entry where
    e: "emit E w l c =
            (if emit_level c = FATAL then Exit 1 (writeEntry E ?w1 lg entry)
             else Return () (writeEntry E ?w1 lg entry))"
    and f: "File entry = ''unknown''" "Line entry = 0" "Function entry = ''unknown''"
    by blast
  from writeEntry_writes [of E ?w1 lg entry]
  obtain s where
    s: "writes (writeEntry E ?w1 lg entry) = writes w @ [(output' lg, s @ [CHR 0x0A])]"
    by auto
  have m: "emitted (writeEntry E ?w1 lg entry) = emitted w @ [entry]"
    by (simp add: writeEntry_emitted)
  have "\<exists>w' entry s. emit E w l c =
              (if emit_level c = FATAL then Exit 1 w' else Return () w')
            \<and> emitted w' = emitted w @ [entry]
            \<and> File entry = ''unknown'' \<and> Line entry = 0 \<and> Function entry = ''unknown''
            \<and> writes w' = writes w @ [(output' lg, s @ [CHR 0x0A])]"
    using e f s m by blast
  with g show ?thesis by (rule conjI)
qed

theorem caller_resolution_failure_witness:
  "deref world0 (Some 0) = Some logger0 \<and> level logger0 \<le> emit_level (Warn ''slow'')
   \<and> runtime_Caller env1 (tick world0) = (0, [], 0, False)
   \<and> fst (getCaller env1 world0) = (''unknown'', 0, ''unknown'')
   \<and> (\<exists>w' entry. emit env1 world0 (Some 0) (Warn ''slow'') = Return () w'
         \<and> emitted w' = [entry]
         \<and> File entry = ''unknown'' \<and> Line entry = 0 \<and> Function entry = ''unknown'')"
proof -
  have le: "level logger0 \<le> emit_level (Warn ''slow'')"
    by (simp add: logger0_def)
  have rc: "runtime_Caller env1 (tick world0) = (0, [], 0, False)"
    by (simp add: env1_def)
  have nf: "emit_level (Warn ''slow'') \<noteq> FATAL"
    by (simp add: WARN_def FATAL_def)
  have em: "emitted world0 = []"
    by (simp add: world0_def)
  from caller_resolution_failure [OF deref_world0 le rc] nf em
  have h: "fst (getCaller env1 world0) = (''unknown'', 0, ''unknown'')
     \<and> (\<exists>w' entry. emit env1 world0 (Some 0) (Warn ''slow'') = Return () w'
         \<and> emitted w' = [entry]
         \<and> File entry = ''unknown'' \<and> Line entry = 0 \<and> Function entry = ''unknown'')"
    by (simp only: if_False append_Nil) blast
  show ?thesis
    by (intro conjI, rule deref_world0, rule le, rule rc, rule h [THEN conjunct1],
        rule h [THEN conjunct2])
qed

subsection \<open>Parsing a level name\<close>

text \<open>
  Claim C9. \<^verbatim>\<open>parseLogLevel\<close> maps the five level names to their levels and
  \<^verbatim>\<open>"WARNING"\<close> to \<^verbatim>\<open>WARN\<close>; every other string, the lower-case spellings among them, goes
  to \<^verbatim>\<open>INFO\<close>. It is a total function into the five levels, which are pairwise
  different.
\<close>

theorem parseLogLevel_cases:
  "parseLogLevel ''DEBUG'' = DEBUG \<and> parseLogLevel ''INFO'' = INFO \<and>
   parseLogLevel ''WARN'' = WARN \<and> parseLogLevel ''ERROR'' = ERROR \<and>
   parseLogLevel ''FATAL'' = FATAL \<and> parseLogLevel ''WARNING'' = WARN \<and>
   (\<forall>s. s \<notin> {''DEBUG'', ''INFO'', ''WARN'', ''WARNING'', ''ERROR'', ''FATAL''}
        \<longrightarrow> parseLogLevel s = INFO) \<and>
   (\<forall>s. parseLogLevel s \<in> {DEBUG, INFO, WARN, ERROR, FATAL}) \<and>
   DEBUG < INFO \<and> INFO < WARN \<and> WARN < ERROR \<and> ERROR < FATAL"
  using parseLogLevel_names parseLogLevel_other parseLogLevel_range levels_ordered
  by blast

theorem parseLogLevel_cases_witness:
  "''debug'' \<notin> {''DEBUG'', ''INFO'', ''WARN'', ''WARNING'', ''ERROR'', ''FATAL''}
   \<and> parseLogLevel ''debug'' = INFO"
proof -
  have n: "''debug'' \<notin> {''DEBUG'', ''INFO'', ''WARN'', ''WARNING'', ''ERROR'', ''FATAL''}"
    by simp
  note a = parseLogLevel_cases [THEN conjunct2, THEN conjunct2, THEN conjunct2, THEN conjunct2,
      THEN conjunct2, THEN conjunct2, THEN conjunct1, THEN spec, THEN mp, OF n]
  show ?thesis
    by (rule conjI [OF n a])
qed

subsection \<open>The default logger before initialisation\<close>

text \<open>
  Claim C10. While the package variable \<^verbatim>\<open>defaultLogger\<close> is nil, each of the ten
  package-level functions returns at once and leaves the world as it was: nothing is
  written, nothing panics, and \<^verbatim>\<open>Fatal\<close> and \<^verbatim>\<open>Fatalf\<close> do not exit.
\<close>

theorem default_logger_nil_noop:
  assumes "defaultLogger w = None"
  shows "pkg_Debug E w m = Return () w \<and> pkg_Debugf E w f a = Return () w
       \<and> pkg_Info E w m = Return () w \<and> pkg_Infof E w f a = Return () w
       \<and> pkg_Warn E w m = Return () w \<and> pkg_Warnf E w f a = Return () w
       \<and> pkg_Error E w m = Return () w \<and> pkg_Errorf E w f a = Return () w
       \<and> pkg_Fatal E w m = Return () w \<and> pkg_Fatalf E w f a = Return () w"
  using assms
  by (simp add: pkg_Debug_def pkg_Debugf_def pkg_Info_def pkg_Infof_def pkg_Warn_def
      pkg_Warnf_def pkg_Error_def pkg_Errorf_def pkg_Fatal_def pkg_Fatalf_def)

theorem default_logger_nil_noop_witness:
  "defaultLogger world0 = None
   \<and> pkg_Fatal env0 world0 ''down'' = Return () world0
   \<and> pkg_Fatalf env0 world0 ''down %d'' [Num 1] = Return () world0
   \<and> pkg_Info env0 world0 ''up'' = Return () world0"
proof -
  have n: "defaultLogger world0 = None" by (simp add: world0_def)
  note a = default_logger_nil_noop [OF n, of env0 "''down''" "''down %d''" "[Num 1]"]
  note b = default_logger_nil_noop [OF n, of env0 "''up''"]
  show ?thesis
    using n a b by simp
qed

section \<open>Properties of the middleware\<close>

subsection \<open>Auxiliary facts about the response wrapper\<close>

lemma WriteHeader_simps:
  "statusCode (WriteHeader rw code) = code" "written (WriteHeader rw code) = written rw"
  by (simp_all add: WriteHeader_def Let_def)

lemma Write_simps:
  "statusCode (snd (Write E rw data)) = statusCode rw"
  "written (snd (Write E rw data)) = written rw + word_of_int (fst (fst (Write E rw data)))"
  "fst (fst (Write E rw data)) = fst (sink_Write E (codes (ResponseWriter rw)) (chunks (ResponseWriter rw)) data)"
  by (simp_all add: Write_def http_Write_def Let_def split: prod.splits)

lemma rw_calls_written:
  "written (snd (rw_calls E cs rw)) = written rw + word_of_int (sum_list (fst (rw_calls E cs rw)))"
proof (induction cs arbitrary: rw)
  case Nil
  then show ?case by simp
next
  case (Cons c cs)
  show ?case
  proof (cases c)
    case (CallWriteHeader code)
    then show ?thesis using Cons.IH [of "WriteHeader rw code"] by (simp add: WriteHeader_simps)
  next
    case (CallWrite data)
    obtain n err rw1 where w: "Write E rw data = ((n, err), rw1)"
      by (metis prod.exhaust)
    obtain ns rw2 where r: "rw_calls E cs rw1 = (ns, rw2)"
      by (metis prod.exhaust)
    have "written rw1 = written rw + word_of_int n"
      using Write_simps(2) [of E rw data] w by simp
    then show ?thesis
      using Cons.IH [of rw1] CallWrite w r by (simp add: algebra_simps)
  qed
qed

lemma rw_calls_status_none:
  "\<forall>c \<in> set cs. \<not> is_CallWriteHeader c \<Longrightarrow> statusCode (snd (rw_calls E cs rw)) = statusCode rw"
proof (induction cs arbitrary: rw)
  case Nil
  then show ?case by simp
next
  case (Cons c cs)
  show ?case
  proof (cases c)
    case (CallWriteHeader code)
    with Cons.prems show ?thesis by simp
  next
    case (CallWrite data)
    obtain n err rw1 where w: "Write E rw data = ((n, err), rw1)"
      by (metis prod.exhaust)
    obtain ns rw2 where r: "rw_calls E cs rw1 = (ns, rw2)"
      by (metis prod.exhaust)
    have "statusCode rw1 = statusCode rw"
      using Write_simps(1) [of E rw data] w by simp
    then show ?thesis
      using Cons.IH [of rw1] Cons.prems CallWrite w r by simp
  qed
qed

lemma rw_calls_append:
  "rw_calls E (cs @ ds) rw =
     (fst (rw_calls E cs rw) @ fst (rw_calls E ds (snd (rw_calls E cs rw))),
      snd (rw_calls E ds (snd (rw_calls E cs rw))))"
proof (induction cs arbitrary: rw)
  case Nil
  then show ?case by simp
next
  case (Cons c cs)
  show ?case
  proof (cases c)
    case (CallWriteHeader code)
    then show ?thesis using Cons.IH by simp
  next
    case (CallWrite data)
    then show ?thesis using Cons.IH by (simp add: Let_def split: prod.splits)
  qed
qed

lemma rw_calls_status_last:
  assumes "\<forall>c \<in> set ds. \<not> is_CallWriteHeader c"
  shows "statusCode (snd (rw_calls E (cs @ CallWriteHeader code # ds) rw)) = code"
proof -
  have "snd (rw_calls E (cs @ CallWriteHeader code # ds) rw)
          = snd (rw_calls E ds (WriteHeader (snd (rw_calls E cs rw)) code))"
    by (simp add: rw_calls_append)
  then show ?thesis
    using rw_calls_status_none [OF assms] by (simp add: WriteHeader_simps)
qed

lemma sint_word_of_int_64:
  "- (2 ^ 63) \<le> i \<Longrightarrow> i < 2 ^ 63 \<Longrightarrow> sint (word_of_int i :: 64 word) = i"
  by (simp add: sint_sbintrunc' signed_take_bit_int_eq_self)

lemma rw_calls_length:
  "length (fst (rw_calls E cs rw)) = length (filter (\<lambda>c. \<not> is_CallWriteHeader c) cs)"
proof (induction cs arbitrary: rw)
  case Nil
  then show ?case by simp
next
  case (Cons c cs)
  show ?case
  proof (cases c)
    case (CallWriteHeader code)
    then show ?thesis using Cons.IH by simp
  next
    case (CallWrite data)
    obtain n err rw1 where w: "Write E rw data = ((n, err), rw1)"
      by (metis prod.exhaust)
    obtain ns rw2 where r: "rw_calls E cs rw1 = (ns, rw2)"
      by (metis prod.exhaust)
    show ?thesis
      using Cons.IH [of rw1] CallWrite w r by simp
  qed
qed

lemma Write_delegates:
  "fst (Write E rw data) = fst (http_Write E (ResponseWriter rw) data)
   \<and> ResponseWriter (snd (Write E rw data)) = snd (http_Write E (ResponseWriter rw) data)"
  by (simp add: Write_def Let_def split: prod.splits)

subsection \<open>What the response wrapper records\<close>

text \<open>
  Claim C5. A fresh wrapper records status 200 and keeps it as long as \<^verbatim>\<open>WriteHeader\<close> is
  not called. After a run of \<^verbatim>\<open>WriteHeader\<close> calls the recorded status is the argument of
  the last one, and so it is after any calls whatever, as long as no \<^verbatim>\<open>WriteHeader\<close>
  follows that one. \<^verbatim>\<open>Write\<close> hands the data to the server's writer and returns what
  that writer reports; after any calls the byte counter is the sum, in 64-bit
  arithmetic, of the counts reported, one for each \<^verbatim>\<open>Write\<close>, and it is that sum as an
  integer whenever the sum fits in an \<^verbatim>\<open>int64\<close>.
\<close>

theorem responseWriter_records:
  "statusCode (newResponseWriter w) = 200
   \<and> ((\<forall>c \<in> set cs. \<not> is_CallWriteHeader c) \<longrightarrow>
        statusCode (snd (rw_calls E cs (newResponseWriter w))) = 200)
   \<and> (hs \<noteq> [] \<longrightarrow>
        statusCode (snd (rw_calls E (map CallWriteHeader hs) (newResponseWriter w))) = last hs)
   \<and> ((\<forall>c \<in> set ds. \<not> is_CallWriteHeader c) \<longrightarrow>
        statusCode (snd (rw_calls E (cs @ CallWriteHeader code # ds) (newResponseWriter w))) = code)
   \<and> fst (Write E rw data) = fst (http_Write E (ResponseWriter rw) data)
   \<and> ResponseWriter (snd (Write E rw data)) = snd (http_Write E (ResponseWriter rw) data)
   \<and> length (fst (rw_calls E cs (newResponseWriter w)))
        = length (filter (\<lambda>c. \<not> is_CallWriteHeader c) cs)
   \<and> written (snd (rw_calls E cs (newResponseWriter w)))
        = word_of_int (sum_list (fst (rw_calls E cs (newResponseWriter w))))
   \<and> (- (2 ^ 63) \<le> sum_list (fst (rw_calls E cs (newResponseWriter w)))
        \<and> sum_list (fst (rw_calls E cs (newResponseWriter w))) < 2 ^ 63 \<longrightarrow>
        sint (written (snd (rw_calls E cs (newResponseWriter w))))
          = sum_list (fst (rw_calls E cs (newResponseWriter w))))"
proof -
  let ?rw = "newResponseWriter w"
  have a0: "statusCode ?rw = 200" and w0: "written ?rw = 0"
    by (simp_all add: newResponseWriter_def)
  have a1: "(\<forall>c \<in> set cs. \<not> is_CallWriteHeader c) \<longrightarrow>
        statusCode (snd (rw_calls E cs ?rw)) = 200"
    using rw_calls_status_none [where cs = cs and E = E and rw = ?rw] a0 by simp
  have a2: "hs \<noteq> [] \<longrightarrow> statusCode (snd (rw_calls E (map CallWriteHeader hs) ?rw)) = last hs"
  proof
    assume ne: "hs \<noteq> []"
    then have "map CallWriteHeader hs = map CallWriteHeader (butlast hs) @ CallWriteHeader (last hs) # []"
      by (metis append_butlast_last_id list.simps(8,9) map_append)
    then show "statusCode (snd (rw_calls E (map CallWriteHeader hs) ?rw)) = last hs"
      using rw_calls_status_last [where ds = "[]" and cs = "map CallWriteHeader (butlast hs)"
          and code = "last hs" and E = E and rw = ?rw]
      by simp
  qed
  have a3: "(\<forall>c \<in> set ds. \<not> is_CallWriteHeader c) \<longrightarrow>
        statusCode (snd (rw_calls E (cs @ CallWriteHeader code # ds) ?rw)) = code"
    using rw_calls_status_last [where ds = ds and cs = cs and code = code and E = E and rw = ?rw]
    by simp
  have a4: "written (snd (rw_calls E cs ?rw)) = word_of_int (sum_list (fst (rw_calls E cs ?rw)))"
    using rw_calls_written [of E cs ?rw] w0 by simp
  have a5: "- (2 ^ 63) \<le> sum_list (fst (rw_calls E cs ?rw))
        \<and> sum_list (fst (rw_calls E cs ?rw)) < 2 ^ 63 \<longrightarrow>
        sint (written (snd (rw_calls E cs ?rw))) = sum_list (fst (rw_calls E cs ?rw))"
    unfolding a4 using sint_word_of_int_64 by blast
  show ?thesis
    using a0 a1 a2 a3 a4 a5 Write_delegates [of E rw data] rw_calls_length [of E cs ?rw]
    by (intro conjI) blast+
qed

theorem responseWriter_records_witness:
  "\<not> is_CallWriteHeader (CallWrite ''ab'')
   \<and> statusCode (snd (rw_calls env0 [CallWrite ''ab''] (newResponseWriter sink0))) = 200
   \<and> [404, 201] \<noteq> ([] :: int list)
   \<and> statusCode (snd (rw_calls env0 (map CallWriteHeader [404, 201]) (newResponseWriter sink0))) = 201
   \<and> \<not> is_CallWriteHeader (CallWrite ''test response'')
   \<and> statusCode (snd (rw_calls env0 ([CallWrite ''x''] @ CallWriteHeader 201 # [CallWrite ''test response''])
        (newResponseWriter sink0))) = 201
   \<and> fst (rw_calls env0 [CallWrite ''ab''] (newResponseWriter sink0)) = [2]
   \<and> - (2 ^ 63) \<le> sum_list (fst (rw_calls env0 [CallWrite ''ab''] (newResponseWriter sink0)))
   \<and> sum_list (fst (rw_calls env0 [CallWrite ''ab''] (newResponseWriter sink0))) < 2 ^ 63
   \<and> sint (written (snd (rw_calls env0 [CallWrite ''ab''] (newResponseWriter sink0)))) = 2"
proof -
  have g1: "\<not> is_CallWriteHeader (CallWrite ''ab'')"
    and g3: "\<not> is_CallWriteHeader (CallWrite ''test response'')"
    by simp_all
  have h1: "\<forall>c \<in> set [CallWrite ''ab'']. \<not> is_CallWriteHeader c" by simp
  have h2: "[404, 201] \<noteq> ([] :: int list)" by simp
  have h3: "\<forall>c \<in> set [CallWrite ''test response'']. \<not> is_CallWriteHeader c" by simp
  have r: "fst (rw_calls env0 [CallWrite ''ab''] (newResponseWriter sink0)) = [2]"
    by (simp add: Write_def http_Write_def env0_def newResponseWriter_def sink0_def)
  have b1: "- (2 ^ 63) \<le> sum_list (fst (rw_calls env0 [CallWrite ''ab''] (newResponseWriter sink0)))"
    and b2: "sum_list (fst (rw_calls env0 [CallWrite ''ab''] (newResponseWriter sink0))) < 2 ^ 63"
    unfolding r by simp_all
  note t1 = responseWriter_records [where w = sink0 and cs = "[CallWrite ''ab'']" and E = env0
      and hs = "[404, 201]" and ds = "[CallWrite ''test response'']" and code = 201]
  note t2 = responseWriter_records [where w = sink0 and cs = "[CallWrite ''x'']" and E = env0
      and hs = "[404, 201]" and ds = "[CallWrite ''test response'']" and code = 201]
  have c1: "statusCode (snd (rw_calls env0 [CallWrite ''ab''] (newResponseWriter sink0))) = 200"
    using t1 h1 by blast
  have c2: "statusCode (snd (rw_calls env0 (map CallWriteHeader [404, 201]) (newResponseWriter sink0))) = 201"
    using t1 h2 by simp
  have c3: "statusCode (snd (rw_calls env0 ([CallWrite ''x''] @ CallWriteHeader 201 # [CallWrite ''test response''])
        (newResponseWriter sink0))) = 201"
    using t2 h3 by blast
  have c4: "sint (written (snd (rw_calls env0 [CallWrite ''ab''] (newResponseWriter sink0)))) = 2"
    using t1 b1 b2 r by simp
  show ?thesis
    by (intro conjI, rule g1, rule c1, rule h2, rule c2, rule g3, rule c3, rule r, rule b1,
        rule b2, rule c4)
qed


subsection \<open>Logging through a derived logger\<close>

lemma entry_fields_derived:
  "entry_fields
     (s\<lparr>gomaps := gomaps s @ [m], loggers := ls\<rparr>)
     \<lparr>level = a, service = b, component = c, output' = d, format = e,
       fields' = Some (length (gomaps s))\<rparr> None
   = (let m' = range_assign m [] in if length m' = 0 then None else Some m')"
  by (simp add: entry_fields_def map_contents_def)

lemma derived_fields_lookup:
  assumes "distinct (map fst flds)" and "map_of flds k = Some v"
  shows "\<exists>m. (let m' = range_assign (range_assign flds (range_assign base [])) []
              in if length m' = 0 then None else Some m') = Some m
           \<and> map_of m k = Some v"
proof -
  let ?n = "range_assign flds (range_assign base [])"
  have d0: "distinct (map fst (range_assign base []))"
    by (rule range_assign_distinct) simp
  have d: "distinct (map fst ?n)"
    by (rule range_assign_distinct [OF d0])
  have "map_of ?n = map_of (range_assign base []) ++ map_of flds"
    by (rule range_assign_map_of [OF assms(1)])
  then have n: "map_of ?n k = Some v"
    using assms(2) by (simp add: map_add_def)
  have "map_of (range_assign ?n []) = map_of [] ++ map_of ?n"
    by (rule range_assign_map_of [OF d])
  then have m: "map_of (range_assign ?n []) k = Some v"
    using n by simp
  then have "range_assign ?n [] \<noteq> []"
    by auto
  then show ?thesis
    using m by (simp add: Let_def)
qed

lemma derived_log:
  assumes "deref s lg = Some L"
  shows "\<exists>s'. and_then (WithFields s lg flds) (\<lambda>l s. logWithContext E s l ctx lv msg None)
                 = Return () s'
     \<and> deref s' lg = Some L \<and> defaultLogger s' = defaultLogger s
     \<and> (lv < level L \<longrightarrow> emitted s' = emitted s \<and> writes s' = writes s \<and> tick s' = tick s)
     \<and> (\<not> lv < level L \<longrightarrow>
          (\<exists>e out. emitted s' = emitted s @ [e]
             \<and> writes s' = writes s @ [(output' L, out @ [CHR 0x0A])]
             \<and> Level e = LogLevel_String lv \<and> Message e = msg
             \<and> TraceID e = getFromContext ctx traceIDKey
             \<and> UserID e = getFromContext ctx userIDKey
             \<and> RequestID e = getFromContext ctx requestIDKey
             \<and> Service e = service L \<and> Component e = component L
             \<and> Fields e =
                 (let m' = range_assign
                             (range_assign flds (range_assign (map_contents s (fields' L)) [])) []
                  in if length m' = 0 then None else Some m')))"
proof -
  let ?m = "range_assign flds (range_assign (map_contents s (fields' L)) [])"
  let ?dl = "\<lparr>level = level L, service = service L, component = component L,
               output' = output' L, format = format L, fields' = Some (length (gomaps s))\<rparr>"
  let ?s1 = "s\<lparr>gomaps := gomaps s @ [?m], loggers := loggers s @ [?dl]\<rparr>"
  let ?d = "Some (length (loggers s))"
  have wf: "WithFields s lg flds = Return ?d ?s1"
    by (rule WithFields_result [OF assms])
  have d1: "deref ?s1 ?d = Some ?dl"
    by (simp add: deref_def)
  obtain a where lg: "lg = Some a" and a: "a < length (loggers s)" and la: "loggers s ! a = L"
    using assms by (auto simp: deref_def split: option.splits if_splits)
  have d2: "deref ?s1 lg = Some L"
    using lg a la by (simp add: deref_def nth_append)
  show ?thesis
  proof (cases "lv < level L")
    case True
    then have "lv < level ?dl" by simp
    from logWithContext_below [OF d1 this]
    have "and_then (WithFields s lg flds) (\<lambda>l s. logWithContext E s l ctx lv msg None)
            = Return () ?s1"
      by (simp add: wf)
    moreover have "emitted ?s1 = emitted s" "writes ?s1 = writes s" "tick ?s1 = tick s"
      "defaultLogger ?s1 = defaultLogger s"
      by simp_all
    ultimately show ?thesis
      using d2 True by (intro exI [where x = ?s1]) simp
  next
    case False
    then have nl: "\<not> lv < level ?dl" by simp
    obtain f n fn where g: "fst (getCaller E ?s1) = (f, n, fn)"
      by (cases "fst (getCaller E ?s1)") auto
    let ?e = "\<lparr>Timestamp = time_Now E (Suc (tick ?s1)), Level = LogLevel_String lv, Message = msg,
         Service = service ?dl, Component = component ?dl,
         TraceID = getFromContext ctx traceIDKey, UserID = getFromContext ctx userIDKey,
         RequestID = getFromContext ctx requestIDKey,
         File = f, Line = n, Function = fn, Duration = None, Error = '''',
         Fields = entry_fields ?s1 ?dl None, Tags = []\<rparr>"
    let ?s2 = "writeEntry E (?s1\<lparr>tick := Suc (Suc (tick ?s1))\<rparr>) ?dl ?e"
    from logWithContext_above [OF d1 nl g]
    have r: "and_then (WithFields s lg flds) (\<lambda>l s. logWithContext E s l ctx lv msg None)
            = Return () ?s2"
      by (simp add: wf)
    obtain out where
      w: "writes ?s2 = writes s @ [(output' L, out @ [CHR 0x0A])]"
      using writeEntry_writes [of E "?s1\<lparr>tick := Suc (Suc (tick ?s1))\<rparr>" ?dl ?e] by auto
    have em: "emitted ?s2 = emitted s @ [?e]"
      by (simp add: writeEntry_emitted)
    have st: "loggers ?s2 = loggers ?s1" "defaultLogger ?s2 = defaultLogger s"
      using writeEntry_store [of E "?s1\<lparr>tick := Suc (Suc (tick ?s1))\<rparr>" ?dl ?e] by simp_all
    have d3: "deref ?s2 lg = Some L"
      using lg a la st(1) by (simp add: deref_def nth_append)
    have fe: "Fields ?e = (let m' = range_assign ?m [] in if length m' = 0 then None else Some m')"
      using entry_fields_derived [where s = s and m = ?m and ls = "loggers s @ [?dl]"] by simp
    have props: "Level ?e = LogLevel_String lv \<and> Message ?e = msg
             \<and> TraceID ?e = getFromContext ctx traceIDKey
             \<and> UserID ?e = getFromContext ctx userIDKey
             \<and> RequestID ?e = getFromContext ctx requestIDKey
             \<and> Service ?e = service L \<and> Component ?e = component L"
      by simp
    have "\<exists>e out. emitted ?s2 = emitted s @ [e]
             \<and> writes ?s2 = writes s @ [(output' L, out @ [CHR 0x0A])]
             \<and> Level e = LogLevel_String lv \<and> Message e = msg
             \<and> TraceID e = getFromContext ctx traceIDKey
             \<and> UserID e = getFromContext ctx userIDKey
             \<and> RequestID e = getFromContext ctx requestIDKey
             \<and> Service e = service L \<and> Component e = component L
             \<and> Fields e = (let m' = range_assign ?m [] in if length m' = 0 then None else Some m')"
      apply (rule exI [where x = ?e], rule exI [where x = out])
      using em w fe props by (intro conjI) (simp_all only:)
    then show ?thesis
      using r d3 st(2) False by (intro exI [where x = ?s2]) simp
  qed
qed

subsection \<open>Auxiliary facts about the rate limiter\<close>

lemma sat64_gt_Minute: "(sat64 d > Minute) = (d > Minute)"
  by (simp add: sat64_def Minute_def Second_def) arith

lemma count_of_empty: "count_of \<lparr>requestCounts = Map.empty, lastReset = t\<rparr> k = 0"
  by (simp add: count_of_def)

lemma rl_count_reset:
  assumes "reset_due E st s"
  shows "rl_count E st r s =
     (\<lparr>requestCounts = [RemoteAddr r \<mapsto> 1], lastReset = time_Now E (Suc (tick s))\<rparr>,
      s\<lparr>tick := Suc (Suc (tick s))\<rparr>)"
  using assms
  by (simp add: rl_count_def time_Since_def now_def reset_due_def sat64_gt_Minute count_of_empty)

lemma rl_count_keep:
  assumes "\<not> reset_due E st s"
  shows "rl_count E st r s =
     (st\<lparr>requestCounts := (requestCounts st)(RemoteAddr r \<mapsto> count_of st (RemoteAddr r) + 1)\<rparr>,
      s\<lparr>tick := Suc (tick s)\<rparr>)"
  using assms
  by (simp add: rl_count_def time_Since_def now_def reset_due_def sat64_gt_Minute Let_def)

lemma rl_count_world:
  "deref (snd (rl_count E st r s)) lg = deref s lg
   \<and> emitted (snd (rl_count E st r s)) = emitted s
   \<and> writes (snd (rl_count E st r s)) = writes s"
  by (cases "reset_due E st s")
     (simp_all add: rl_count_reset rl_count_keep deref_def split: option.splits)

lemma rl_count_count:
  "count_of (fst (rl_count E st r s)) k =
     (if reset_due E st s then (if k = RemoteAddr r then 1 else 0)
      else (if k = RemoteAddr r then count_of st k + 1 else count_of st k))"
  by (cases "reset_due E st s") (simp_all add: rl_count_reset rl_count_keep count_of_def)

lemma RateLimit_state: "fst (RateLimitMiddleware E lg next st w r s) = fst (rl_count E st r s)"
  by (simp add: RateLimitMiddleware_def Let_def split: prod.splits)

lemma RateLimit_quiet:
  assumes "sint (count_of (fst (rl_count E st r s)) (RemoteAddr r)) \<le> 50"
  shows "snd (RateLimitMiddleware E lg next st w r s) = next w r (snd (rl_count E st r s))"
proof -
  obtain st1 s1 where rc: "rl_count E st r s = (st1, s1)"
    by (cases "rl_count E st r s")
  show ?thesis
    using assms rc by (simp add: RateLimitMiddleware_def)
qed

lemma RateLimit_high:
  assumes "deref s lg = Some L"
    and "50 < sint (count_of (fst (rl_count E st r s)) (RemoteAddr r))"
    and "sint (count_of (fst (rl_count E st r s)) (RemoteAddr r)) \<le> 100"
  shows "\<exists>s2. snd (RateLimitMiddleware E lg next st w r s) = next w r s2
      \<and> deref s2 lg = Some L
      \<and> (INFO < level L \<longrightarrow> emitted s2 = emitted s \<and> writes s2 = writes s)
      \<and> (level L \<le> INFO \<longrightarrow>
           (\<exists>e out. emitted s2 = emitted s @ [e]
              \<and> writes s2 = writes s @ [(output' L, out @ [CHR 0x0A])]
              \<and> Level e = ''INFO'' \<and> Message e = ''High request rate detected''))"
proof -
  obtain st1 s1 where rc: "rl_count E st r s = (st1, s1)"
    by (cases "rl_count E st r s")
  have d: "deref s1 lg = Some L" and em: "emitted s1 = emitted s" "writes s1 = writes s"
    using rl_count_world [of E st r s lg] rc assms(1) by simp_all
  let ?flds = "[(''http_remote_addr'', Str (RemoteAddr r)),
                (''request_count'', Num (sint (count_of st1 (RemoteAddr r)))),
                (''request_id'', Str (GetRequestID (Context r)))]"
  from derived_log [OF d, of ?flds E "Context r" INFO "''High request rate detected''"]
  obtain s2 where
    r: "and_then (WithFields s1 lg ?flds)
          (\<lambda>l s. logWithContext E s l (Context r) INFO ''High request rate detected'' None)
        = Return () s2"
    and d2: "deref s2 lg = Some L"
    and lo: "INFO < level L \<longrightarrow> emitted s2 = emitted s1 \<and> writes s2 = writes s1 \<and> tick s2 = tick s1"
    and hi: "\<not> INFO < level L \<longrightarrow>
          (\<exists>e out. emitted s2 = emitted s1 @ [e]
             \<and> writes s2 = writes s1 @ [(output' L, out @ [CHR 0x0A])]
             \<and> Level e = LogLevel_String INFO \<and> Message e = ''High request rate detected''
             \<and> TraceID e = getFromContext (Context r) traceIDKey
             \<and> UserID e = getFromContext (Context r) userIDKey
             \<and> RequestID e = getFromContext (Context r) requestIDKey
             \<and> Service e = service L \<and> Component e = component L
             \<and> Fields e =
                 (let m' = range_assign
                             (range_assign ?flds (range_assign (map_contents s1 (fields' L)) [])) []
                  in if length m' = 0 then None else Some m'))"
    by blast
  have run: "snd (RateLimitMiddleware E lg next st w r s) = next w r s2"
    using assms(2,3) rc r
    by (simp add: RateLimitMiddleware_def Logger_InfoContext_def)
  have ls: "LogLevel_String INFO = ''INFO''"
    by (simp add: LogLevel_String_def DEBUG_def INFO_def)
  have p1: "INFO < level L \<longrightarrow> emitted s2 = emitted s \<and> writes s2 = writes s"
    using lo em by simp
  have p2: "level L \<le> INFO \<longrightarrow>
           (\<exists>e out. emitted s2 = emitted s @ [e]
              \<and> writes s2 = writes s @ [(output' L, out @ [CHR 0x0A])]
              \<and> Level e = ''INFO'' \<and> Message e = ''High request rate detected'')"
  proof
    assume "level L \<le> INFO"
    then have "\<not> INFO < level L" by simp
    with hi obtain e out where "emitted s2 = emitted s1 @ [e]"
      "writes s2 = writes s1 @ [(output' L, out @ [CHR 0x0A])]"
      "Level e = LogLevel_String INFO" "Message e = ''High request rate detected''"
      by blast
    then show "\<exists>e out. emitted s2 = emitted s @ [e]
              \<and> writes s2 = writes s @ [(output' L, out @ [CHR 0x0A])]
              \<and> Level e = ''INFO'' \<and> Message e = ''High request rate detected''"
      using em ls by (intro exI [where x = e] exI [where x = out]) simp
  qed
  show ?thesis
    using run d2 p1 p2 by (intro exI [where x = s2] conjI)
qed

lemma http_Error_codes: "codes (http_Error E w msg code) = codes w @ [code]"
  by (simp add: http_Error_def http_WriteHeader_def http_Write_def Let_def)

lemma RateLimit_deny:
  assumes "deref s lg = Some L"
    and "100 < sint (count_of (fst (rl_count E st r s)) (RemoteAddr r))"
  shows "\<exists>s2. (\<forall>next. snd (RateLimitMiddleware E lg next st w r s)
                   = Return (http_Error E w ''Rate limit exceeded'' 429) s2)
      \<and> deref s2 lg = Some L
      \<and> (WARN < level L \<longrightarrow> emitted s2 = emitted s \<and> writes s2 = writes s)
      \<and> (level L \<le> WARN \<longrightarrow>
           (\<exists>e out. emitted s2 = emitted s @ [e]
              \<and> writes s2 = writes s @ [(output' L, out @ [CHR 0x0A])]
              \<and> Level e = ''WARN'' \<and> Message e = ''Rate limit exceeded''))"
proof -
  obtain st1 s1 where rc: "rl_count E st r s = (st1, s1)"
    by (cases "rl_count E st r s")
  have d: "deref s1 lg = Some L" and em: "emitted s1 = emitted s" "writes s1 = writes s"
    using rl_count_world [of E st r s lg] rc assms(1) by simp_all
  let ?flds = "[(''http_method'', Str (Method r)),
               (''http_path'', Str (URL_Path r)),
               (''http_remote_addr'', Str (RemoteAddr r)),
               (''request_count'', Num (sint (count_of st1 (RemoteAddr r)))),
               (''request_id'', Str (GetRequestID (Context r)))]"
  from derived_log [OF d, of ?flds E "Context r" WARN "''Rate limit exceeded''"]
  obtain s2 where
    r: "and_then (WithFields s1 lg ?flds)
          (\<lambda>l s. logWithContext E s l (Context r) WARN ''Rate limit exceeded'' None)
        = Return () s2"
    and d2: "deref s2 lg = Some L"
    and lo: "WARN < level L \<longrightarrow> emitted s2 = emitted s1 \<and> writes s2 = writes s1 \<and> tick s2 = tick s1"
    and hi: "\<not> WARN < level L \<longrightarrow>
          (\<exists>e out. emitted s2 = emitted s1 @ [e]
             \<and> writes s2 = writes s1 @ [(output' L, out @ [CHR 0x0A])]
             \<and> Level e = LogLevel_String WARN \<and> Message e = ''Rate limit exceeded''
             \<and> TraceID e = getFromContext (Context r) traceIDKey
             \<and> UserID e = getFromContext (Context r) userIDKey
             \<and> RequestID e = getFromContext (Context r) requestIDKey
             \<and> Service e = service L \<and> Component e = component L
             \<and> Fields e =
                 (let m' = range_assign
                             (range_assign ?flds (range_assign (map_contents s1 (fields' L)) [])) []
                  in if length m' = 0 then None else Some m'))"
    by blast
  have a: "and_then (WithFields s1 lg ?flds)
          (\<lambda>l s. and_then (logWithContext E s l (Context r) WARN ''Rate limit exceeded'' None)
             (\<lambda>u s. Return (http_Error E w ''Rate limit exceeded'' 429) s))
        = Return (http_Error E w ''Rate limit exceeded'' 429) s2"
    using r by (cases "WithFields s1 lg ?flds") simp_all
  have run: "\<forall>next. snd (RateLimitMiddleware E lg next st w r s)
                = Return (http_Error E w ''Rate limit exceeded'' 429) s2"
    using assms(2) rc a
    by (simp add: RateLimitMiddleware_def Logger_WarnContext_def)
  have ls: "LogLevel_String WARN = ''WARN''"
    by (simp add: LogLevel_String_def DEBUG_def INFO_def WARN_def)
  have p1: "WARN < level L \<longrightarrow> emitted s2 = emitted s \<and> writes s2 = writes s"
    using lo em by simp
  have p2: "level L \<le> WARN \<longrightarrow>
           (\<exists>e out. emitted s2 = emitted s @ [e]
              \<and> writes s2 = writes s @ [(output' L, out @ [CHR 0x0A])]
              \<and> Level e = ''WARN'' \<and> Message e = ''Rate limit exceeded'')"
  proof
    assume "level L \<le> WARN"
    then have "\<not> WARN < level L" by simp
    with hi obtain e out where "emitted s2 = emitted s1 @ [e]"
      "writes s2 = writes s1 @ [(output' L, out @ [CHR 0x0A])]"
      "Level e = LogLevel_String WARN" "Message e = ''Rate limit exceeded''"
      by blast
    then show "\<exists>e out. emitted s2 = emitted s @ [e]
              \<and> writes s2 = writes s @ [(output' L, out @ [CHR 0x0A])]
              \<and> Level e = ''WARN'' \<and> Message e = ''Rate limit exceeded''"
      using em ls by (intro exI [where x = e] exI [where x = out]) simp
  qed
  show ?thesis
    using run d2 p1 p2 by (intro exI [where x = s2] conjI)
qed

lemma count_after_49:
  "\<not> reset_due E st s \<Longrightarrow> count_of st (RemoteAddr r) = 49 \<Longrightarrow>
   sint (count_of (fst (rl_count E st r s)) (RemoteAddr r)) = 50"
  by (simp add: rl_count_count)

lemma count_after_100:
  "\<not> reset_due E st s \<Longrightarrow> count_of st (RemoteAddr r) = 100 \<Longrightarrow>
   sint (count_of (fst (rl_count E st r s)) (RemoteAddr r)) = 101"
  by (simp add: rl_count_count)

lemma last_state_Cons: "last_state st ((due, k, st') # evs) = last_state st' evs"
  by (simp add: last_state_def)

lemma step_invariant:
  assumes "\<forall>k. count_of st k = of_nat (count_list acc k)"
  shows "\<forall>k. count_of (fst (rl_count E st r s)) k
            = of_nat (count_list (if reset_due E st s then [RemoteAddr r] else acc @ [RemoteAddr r]) k)"
  using assms by (simp add: rl_count_count)

lemma serve_invariant:
  assumes "\<forall>k. count_of st k = of_nat (count_list acc k)"
  shows "\<forall>k. count_of (last_state st (serve E lg nxt st s reqs)) k
            = of_nat (count_list (observed (serve E lg nxt st s reqs) acc) k)"
  using assms
proof (induction reqs arbitrary: st s acc)
  case Nil
  then show ?case by (simp add: last_state_def)
next
  case (Cons q reqs)
  obtain w r where q: "q = (w, r)" by (cases q)
  obtain st' out where rl: "RateLimitMiddleware E lg nxt st w r s = (st', out)"
    by (cases "RateLimitMiddleware E lg nxt st w r s")
  have st': "st' = fst (rl_count E st r s)"
    using RateLimit_state [of E lg nxt st w r s] rl by simp
  let ?acc = "if reset_due E st s then [RemoteAddr r] else acc @ [RemoteAddr r]"
  have inv: "\<forall>k. count_of st' k = of_nat (count_list ?acc k)"
    unfolding st' by (rule step_invariant [OF Cons.prems])
  have sv: "serve E lg nxt st s (q # reqs)
              = (reset_due E st s, RemoteAddr r, st') # serve E lg nxt st' (final out) reqs"
    using q rl by simp
  show ?case
    unfolding sv last_state_Cons
    using Cons.IH [OF inv, of "final out"] by simp
qed

lemma sint_of_nat_64: "n < 2 ^ 63 \<Longrightarrow> sint (of_nat n :: 64 word) = int n"
proof -
  assume "n < 2 ^ 63"
  then have "int n < 2 ^ 63" by (metis of_nat_less_iff of_nat_numeral of_nat_power)
  then have "sint (word_of_int (int n) :: 64 word) = int n"
    by (intro sint_word_of_int_64) simp_all
  then show ?thesis by simp
qed

lemma RateLimit_after_reset:
  assumes "reset_due E st s"
  shows "fst (RateLimitMiddleware E lg nxt st w r s)
           = \<lparr>requestCounts = [RemoteAddr r \<mapsto> 1], lastReset = time_Now E (Suc (tick s))\<rparr>
       \<and> snd (RateLimitMiddleware E lg nxt st w r s) = nxt w r (s\<lparr>tick := Suc (Suc (tick s))\<rparr>)"
proof -
  have c: "sint (count_of (fst (rl_count E st r s)) (RemoteAddr r)) \<le> 50"
    using assms by (simp add: rl_count_count)
  show ?thesis
    using RateLimit_quiet [OF c, of lg nxt w] RateLimit_state [of E lg nxt st w r s]
    by (simp add: rl_count_reset [OF assms])
qed

lemma RateLimit_no_reset:
  assumes "\<not> reset_due E st s"
  shows "lastReset (fst (RateLimitMiddleware E lg nxt st w r s)) = lastReset st
     \<and> (\<forall>k. count_of (fst (RateLimitMiddleware E lg nxt st w r s)) k
              = (if k = RemoteAddr r then count_of st k + 1 else count_of st k))"
  using assms
  by (simp add: RateLimit_state rl_count_count) (simp add: rl_count_keep)

lemma deref_world_info: "deref world_info (Some 0) = Some logger_info"
  by (simp add: deref_def world_info_def world0_def)

lemma no_reset_env0: "\<not> reset_due env0 st50 world0" "\<not> reset_due env0 st100 world0"
  by (simp_all add: reset_due_def env0_def st50_def st100_def world0_def Minute_def Second_def)

lemma count_51: "sint (count_of (fst (rl_count env0 st50 req0 world0)) (RemoteAddr req0)) = 51"
  using no_reset_env0(1) by (simp add: rl_count_count) (simp add: count_of_def st50_def req0_def)

lemma count_101: "sint (count_of (fst (rl_count env0 st100 req0 world0)) (RemoteAddr req0)) = 101"
  using no_reset_env0(2) by (simp add: rl_count_count) (simp add: count_of_def st100_def req0_def)

subsection \<open>The thresholds of the rate limiter\<close>

text \<open>
  Claim C3, as the code has it. Let \<open>c\<close> be the client's counter once the request has
  been counted. If \<open>c\<close> is at most 50 the inner handler is called and nothing is logged;
  the request that follows 49 others in the window is such a request. If \<open>c\<close> is above
  50 and at most 100 the inner handler is still called, after one \<^verbatim>\<open>INFO\<close> record
  "High request rate detected" when the logger's threshold is at most \<^verbatim>\<open>INFO\<close>, and
  after no record when the threshold is higher. If \<open>c\<close> is above 100, as for the request
  that follows 100 others in the window, the inner handler is not called, whatever it
  is: the response gets status 429, after one \<^verbatim>\<open>WARN\<close> record "Rate limit exceeded" when
  the logger's threshold is at most \<^verbatim>\<open>WARN\<close>, and after no record when it is higher.
\<close>

theorem rate_limit_thresholds:
  assumes "deref s lg = Some L"
  shows "let c = sint (count_of (fst (rl_count E st r s)) (RemoteAddr r)) in
     fst (RateLimitMiddleware E lg next st w r s) = fst (rl_count E st r s)
   \<and> (c \<le> 50 \<longrightarrow>
        snd (RateLimitMiddleware E lg next st w r s) = next w r (snd (rl_count E st r s)))
   \<and> (50 < c \<and> c \<le> 100 \<longrightarrow>
        (\<exists>s2. snd (RateLimitMiddleware E lg next st w r s) = next w r s2
           \<and> (INFO < level L \<longrightarrow> emitted s2 = emitted s)
           \<and> (level L \<le> INFO \<longrightarrow>
                (\<exists>e. emitted s2 = emitted s @ [e]
                   \<and> Level e = ''INFO'' \<and> Message e = ''High request rate detected''))))
   \<and> (100 < c \<longrightarrow>
        (\<exists>s2. (\<forall>next'. snd (RateLimitMiddleware E lg next' st w r s)
                    = Return (http_Error E w ''Rate limit exceeded'' 429) s2)
           \<and> codes (http_Error E w ''Rate limit exceeded'' 429) = codes w @ [429]
           \<and> (WARN < level L \<longrightarrow> emitted s2 = emitted s)
           \<and> (level L \<le> WARN \<longrightarrow>
                (\<exists>e. emitted s2 = emitted s @ [e]
                   \<and> Level e = ''WARN'' \<and> Message e = ''Rate limit exceeded''))))
   \<and> (\<not> reset_due E st s \<and> count_of st (RemoteAddr r) = 49 \<longrightarrow> c = 50)
   \<and> (\<not> reset_due E st s \<and> count_of st (RemoteAddr r) = 100 \<longrightarrow> c = 101)"
proof -
  let ?c = "sint (count_of (fst (rl_count E st r s)) (RemoteAddr r))"
  have p0: "fst (RateLimitMiddleware E lg next st w r s) = fst (rl_count E st r s)"
    by (rule RateLimit_state)
  have p1: "?c \<le> 50 \<longrightarrow>
        snd (RateLimitMiddleware E lg next st w r s) = next w r (snd (rl_count E st r s))"
    using RateLimit_quiet [of E st r s lg "next" w] by blast
  have p2: "50 < ?c \<and> ?c \<le> 100 \<longrightarrow>
        (\<exists>s2. snd (RateLimitMiddleware E lg next st w r s) = next w r s2
           \<and> (INFO < level L \<longrightarrow> emitted s2 = emitted s)
           \<and> (level L \<le> INFO \<longrightarrow>
                (\<exists>e. emitted s2 = emitted s @ [e]
                   \<and> Level e = ''INFO'' \<and> Message e = ''High request rate detected'')))"
  proof
    assume a: "50 < ?c \<and> ?c \<le> 100"
    from RateLimit_high [OF assms, of E st r "next" w] a
    obtain s2 where "snd (RateLimitMiddleware E lg next st w r s) = next w r s2"
      "INFO < level L \<longrightarrow> emitted s2 = emitted s \<and> writes s2 = writes s"
      "level L \<le> INFO \<longrightarrow>
           (\<exists>e out. emitted s2 = emitted s @ [e]
              \<and> writes s2 = writes s @ [(output' L, out @ [CHR 0x0A])]
              \<and> Level e = ''INFO'' \<and> Message e = ''High request rate detected'')"
      by blast
    then show "\<exists>s2. snd (RateLimitMiddleware E lg next st w r s) = next w r s2
           \<and> (INFO < level L \<longrightarrow> emitted s2 = emitted s)
           \<and> (level L \<le> INFO \<longrightarrow>
                (\<exists>e. emitted s2 = emitted s @ [e]
                   \<and> Level e = ''INFO'' \<and> Message e = ''High request rate detected''))"
      by (intro exI [where x = s2]) blast
  qed
  have p3: "100 < ?c \<longrightarrow>
        (\<exists>s2. (\<forall>next'. snd (RateLimitMiddleware E lg next' st w r s)
                    = Return (http_Error E w ''Rate limit exceeded'' 429) s2)
           \<and> codes (http_Error E w ''Rate limit exceeded'' 429) = codes w @ [429]
           \<and> (WARN < level L \<longrightarrow> emitted s2 = emitted s)
           \<and> (level L \<le> WARN \<longrightarrow>
                (\<exists>e. emitted s2 = emitted s @ [e]
                   \<and> Level e = ''WARN'' \<and> Message e = ''Rate limit exceeded'')))"
  proof
    assume a: "100 < ?c"
    from RateLimit_deny [OF assms a, of w]
    obtain s2 where "\<forall>next. snd (RateLimitMiddleware E lg next st w r s)
                   = Return (http_Error E w ''Rate limit exceeded'' 429) s2"
      "WARN < level L \<longrightarrow> emitted s2 = emitted s \<and> writes s2 = writes s"
      "level L \<le> WARN \<longrightarrow>
           (\<exists>e out. emitted s2 = emitted s @ [e]
              \<and> writes s2 = writes s @ [(output' L, out @ [CHR 0x0A])]
              \<and> Level e = ''WARN'' \<and> Message e = ''Rate limit exceeded'')"
      by blast
    then show "\<exists>s2. (\<forall>next'. snd (RateLimitMiddleware E lg next' st w r s)
                    = Return (http_Error E w ''Rate limit exceeded'' 429) s2)
           \<and> codes (http_Error E w ''Rate limit exceeded'' 429) = codes w @ [429]
           \<and> (WARN < level L \<longrightarrow> emitted s2 = emitted s)
           \<and> (level L \<le> WARN \<longrightarrow>
                (\<exists>e. emitted s2 = emitted s @ [e]
                   \<and> Level e = ''WARN'' \<and> Message e = ''Rate limit exceeded''))"
      using http_Error_codes [of E w "''Rate limit exceeded''" 429]
      by (intro exI [where x = s2]) blast
  qed
  have p4: "\<not> reset_due E st s \<and> count_of st (RemoteAddr r) = 49 \<longrightarrow> ?c = 50"
    using count_after_49 [of E st s r] by blast
  have p5: "\<not> reset_due E st s \<and> count_of st (RemoteAddr r) = 100 \<longrightarrow> ?c = 101"
    using count_after_100 [of E st s r] by blast
  show ?thesis
    unfolding Let_def by (intro conjI, rule p0, rule p1, rule p2, rule p3, rule p4, rule p5)
qed

theorem rate_limit_thresholds_witness:
  "deref world_info (Some 0) = Some logger_info
   \<and> sint (count_of (fst (rl_count env0 st50 req0 world_info)) (RemoteAddr req0)) = 51
   \<and> level logger_info \<le> INFO
   \<and> (\<exists>s2 e. snd (RateLimitMiddleware env0 (Some 0) inner_ok st50 sink0 req0 world_info)
                  = inner_ok sink0 req0 s2
          \<and> emitted s2 = [e] \<and> Level e = ''INFO'' \<and> Message e = ''High request rate detected'')
   \<and> sint (count_of (fst (rl_count env0 st100 req0 world_info)) (RemoteAddr req0)) = 101
   \<and> level logger_info \<le> WARN
   \<and> (\<exists>s2 e. snd (RateLimitMiddleware env0 (Some 0) inner_ok st100 sink0 req0 world_info)
                  = Return (http_Error env0 sink0 ''Rate limit exceeded'' 429) s2
          \<and> codes (http_Error env0 sink0 ''Rate limit exceeded'' 429) = [429]
          \<and> emitted s2 = [e] \<and> Level e = ''WARN'' \<and> Message e = ''Rate limit exceeded'')"
proof -
  have nr: "\<not> reset_due env0 st50 world_info" "\<not> reset_due env0 st100 world_info"
    by (simp_all add: reset_due_def env0_def st50_def st100_def world_info_def world0_def
        Minute_def Second_def)
  have c51: "sint (count_of (fst (rl_count env0 st50 req0 world_info)) (RemoteAddr req0)) = 51"
    using nr(1) by (simp add: rl_count_count) (simp add: count_of_def st50_def req0_def)
  have c101: "sint (count_of (fst (rl_count env0 st100 req0 world_info)) (RemoteAddr req0)) = 101"
    using nr(2) by (simp add: rl_count_count) (simp add: count_of_def st100_def req0_def)
  have l1: "level logger_info \<le> INFO" and l2: "level logger_info \<le> WARN"
    by (simp_all add: logger_info_def INFO_def WARN_def)
  have em: "emitted world_info = []" and cs: "codes sink0 = []"
    by (simp_all add: world_info_def world0_def sink0_def)
  note t1 = rate_limit_thresholds [OF deref_world_info, of env0 st50 req0 inner_ok sink0]
  note t2 = rate_limit_thresholds [OF deref_world_info, of env0 st100 req0 inner_ok sink0]
  have h: "\<exists>s2 e. snd (RateLimitMiddleware env0 (Some 0) inner_ok st50 sink0 req0 world_info)
                  = inner_ok sink0 req0 s2
          \<and> emitted s2 = [e] \<and> Level e = ''INFO'' \<and> Message e = ''High request rate detected''"
    using t1 l1 unfolding Let_def c51 em by simp
  have d: "\<exists>s2 e. snd (RateLimitMiddleware env0 (Some 0) inner_ok st100 sink0 req0 world_info)
                  = Return (http_Error env0 sink0 ''Rate limit exceeded'' 429) s2
          \<and> codes (http_Error env0 sink0 ''Rate limit exceeded'' 429) = [429]
          \<and> emitted s2 = [e] \<and> Level e = ''WARN'' \<and> Message e = ''Rate limit exceeded''"
    using t2 l2 unfolding Let_def c101 em cs by simp blast
  show ?thesis
    by (intro conjI, rule deref_world_info, rule c51, rule l1, rule h, rule c101, rule l2, rule d)
qed

text \<open>
  The claim without the condition on the logger's threshold fails: with the threshold
  at \<^verbatim>\<open>WARN\<close>, the request that brings a client's counter to 51 reaches the inner
  handler, and no record is emitted.
\<close>

theorem rate_limit_thresholds_counterexample:
  "sint (count_of (fst (RateLimitMiddleware env0 (Some 0) inner_ok st50 sink0 req0 world0))
      (RemoteAddr req0)) = 51
   \<and> result (snd (RateLimitMiddleware env0 (Some 0) inner_ok st50 sink0 req0 world0)) = Some sink0
   \<and> emitted (final (snd (RateLimitMiddleware env0 (Some 0) inner_ok st50 sink0 req0 world0))) = []"
proof -
  have c1: "50 < sint (count_of (fst (rl_count env0 st50 req0 world0)) (RemoteAddr req0))"
    and c2: "sint (count_of (fst (rl_count env0 st50 req0 world0)) (RemoteAddr req0)) \<le> 100"
    by (simp_all add: count_51)
  from RateLimit_high [OF deref_world0 c1 c2, of inner_ok sink0]
  obtain s2 where
    r: "snd (RateLimitMiddleware env0 (Some 0) inner_ok st50 sink0 req0 world0) = inner_ok sink0 req0 s2"
    and q: "INFO < level logger0 \<longrightarrow> emitted s2 = emitted world0 \<and> writes s2 = writes world0"
    by blast
  have "INFO < level logger0"
    by (simp add: logger0_def INFO_def WARN_def)
  with q have e: "emitted s2 = []"
    by (simp add: world0_def)
  have a: "sint (count_of (fst (RateLimitMiddleware env0 (Some 0) inner_ok st50 sink0 req0 world0))
      (RemoteAddr req0)) = 51"
    by (simp only: RateLimit_state count_51)
  show ?thesis
    by (intro conjI, rule a) (simp_all add: r inner_ok_def e)
qed

subsection \<open>The window of the rate limiter\<close>

text \<open>
  Claim C4. A request that arrives when \<^verbatim>\<open>now - lastReset\<close> exceeds a minute replaces the
  whole counter map, so that every client's counter is dropped, sets \<^verbatim>\<open>lastReset\<close> to the
  clock reading taken at that moment, and is then counted as the first of its client;
  it reaches the inner handler whatever the client's counter was before. A request
  that arrives earlier leaves \<^verbatim>\<open>lastReset\<close> and the other clients' counters alone and
  adds one to its client's. Hence, from a state without counters and after any
  requests, each client's counter is the number of that client's requests since the
  most recent reset, the resetting request included: as 64-bit numbers always, and as
  integers below \<open>2^63\<close>.
\<close>

theorem window_reset:
  "(reset_due E st s \<longrightarrow>
       fst (RateLimitMiddleware E lg nxt st w r s)
         = \<lparr>requestCounts = [RemoteAddr r \<mapsto> 1], lastReset = time_Now E (Suc (tick s))\<rparr>
     \<and> snd (RateLimitMiddleware E lg nxt st w r s) = nxt w r (s\<lparr>tick := Suc (Suc (tick s))\<rparr>))
   \<and> (\<not> reset_due E st s \<longrightarrow>
       lastReset (fst (RateLimitMiddleware E lg nxt st w r s)) = lastReset st
     \<and> (\<forall>k. count_of (fst (RateLimitMiddleware E lg nxt st w r s)) k
              = (if k = RemoteAddr r then count_of st k + 1 else count_of st k)))
   \<and> (requestCounts st = Map.empty \<longrightarrow>
       (\<forall>k. count_of (last_state st (serve E lg nxt st s reqs)) k
              = of_nat (count_list (observed (serve E lg nxt st s reqs) []) k)
          \<and> (count_list (observed (serve E lg nxt st s reqs) []) k < 2 ^ 63 \<longrightarrow>
               sint (count_of (last_state st (serve E lg nxt st s reqs)) k)
                 = int (count_list (observed (serve E lg nxt st s reqs) []) k))))"
proof -
  have a: "reset_due E st s \<longrightarrow>
       fst (RateLimitMiddleware E lg nxt st w r s)
         = \<lparr>requestCounts = [RemoteAddr r \<mapsto> 1], lastReset = time_Now E (Suc (tick s))\<rparr>
     \<and> snd (RateLimitMiddleware E lg nxt st w r s) = nxt w r (s\<lparr>tick := Suc (Suc (tick s))\<rparr>)"
    using RateLimit_after_reset by blast
  have b: "\<not> reset_due E st s \<longrightarrow>
       lastReset (fst (RateLimitMiddleware E lg nxt st w r s)) = lastReset st
     \<and> (\<forall>k. count_of (fst (RateLimitMiddleware E lg nxt st w r s)) k
              = (if k = RemoteAddr r then count_of st k + 1 else count_of st k))"
    using RateLimit_no_reset by blast
  have c: "requestCounts st = Map.empty \<longrightarrow>
       (\<forall>k. count_of (last_state st (serve E lg nxt st s reqs)) k
              = of_nat (count_list (observed (serve E lg nxt st s reqs) []) k)
          \<and> (count_list (observed (serve E lg nxt st s reqs) []) k < 2 ^ 63 \<longrightarrow>
               sint (count_of (last_state st (serve E lg nxt st s reqs)) k)
                 = int (count_list (observed (serve E lg nxt st s reqs) []) k)))"
  proof (intro impI allI)
    fix k
    assume e: "requestCounts st = Map.empty"
    then have "\<forall>k. count_of st k = of_nat (count_list [] k)"
      by (simp add: count_of_def)
    from serve_invariant [OF this, of E lg nxt s reqs]
    have eq: "count_of (last_state st (serve E lg nxt st s reqs)) k
              = of_nat (count_list (observed (serve E lg nxt st s reqs) []) k)"
      by blast
    show "count_of (last_state st (serve E lg nxt st s reqs)) k
              = of_nat (count_list (observed (serve E lg nxt st s reqs) []) k)
          \<and> (count_list (observed (serve E lg nxt st s reqs) []) k < 2 ^ 63 \<longrightarrow>
               sint (count_of (last_state st (serve E lg nxt st s reqs)) k)
                 = int (count_list (observed (serve E lg nxt st s reqs) []) k))"
      unfolding eq using sint_of_nat_64 by blast
  qed
  show ?thesis
    by (intro conjI, rule a, rule b, rule c)
qed

theorem window_reset_witness:
  "reset_due env_late st100 world0
   \<and> fst (RateLimitMiddleware env_late (Some 0) inner_ok st100 sink0 req0 world0)
        = \<lparr>requestCounts = [''10.0.0.1:4711'' \<mapsto> 1], lastReset = 61000000001\<rparr>
   \<and> result (snd (RateLimitMiddleware env_late (Some 0) inner_ok st100 sink0 req0 world0)) = Some sink0
   \<and> \<not> reset_due env0 st50 world0
   \<and> count_of (fst (RateLimitMiddleware env0 (Some 0) inner_ok st50 sink0 req0 world0))
        ''10.0.0.1:4711'' = 51
   \<and> requestCounts st_new = Map.empty
   \<and> observed (serve env_frozen (Some 0) inner_ok st_new world0 [(sink0, req0), (sink0, req0)]) []
        = [''10.0.0.1:4711'', ''10.0.0.1:4711'']
   \<and> sint (count_of (last_state st_new
        (serve env_frozen (Some 0) inner_ok st_new world0 [(sink0, req0), (sink0, req0)]))
        ''10.0.0.1:4711'') = 2"
proof -
  let ?ip = "''10.0.0.1:4711''"
  have ip: "RemoteAddr req0 = ?ip" by (simp add: req0_def)
  have due: "reset_due env_late st100 world0"
    by (simp add: reset_due_def env_late_def st100_def world0_def Minute_def Second_def)
  have tn: "time_Now env_late (Suc (tick world0)) = 61000000001"
    by (simp add: env_late_def world0_def Second_def)
  note t1 = window_reset [of env_late st100 world0 "Some 0" inner_ok sink0 req0]
  have a1: "fst (RateLimitMiddleware env_late (Some 0) inner_ok st100 sink0 req0 world0)
        = \<lparr>requestCounts = [?ip \<mapsto> 1], lastReset = 61000000001\<rparr>"
    using t1 due by (simp add: ip tn)
  have a2: "result (snd (RateLimitMiddleware env_late (Some 0) inner_ok st100 sink0 req0 world0)) = Some sink0"
    using t1 due by (simp add: inner_ok_def)
  note t2 = window_reset [of env0 st50 world0 "Some 0" inner_ok sink0 req0]
  have b1: "count_of (fst (RateLimitMiddleware env0 (Some 0) inner_ok st50 sink0 req0 world0)) ?ip = 51"
    using t2 no_reset_env0(1) by (simp add: ip) (simp add: count_of_def st50_def)
  have e: "requestCounts st_new = Map.empty" by (simp add: st_new_def)
  have nd: "\<And>st s. lastReset st = 0 \<Longrightarrow> \<not> reset_due env_frozen st s"
    by (simp add: reset_due_def env_frozen_def Minute_def Second_def)
  let ?X = "RateLimitMiddleware env_frozen (Some 0) inner_ok st_new sink0 req0 world0"
  have l0: "lastReset st_new = 0" by (simp add: st_new_def)
  have l1: "lastReset (fst ?X) = 0"
    using RateLimit_no_reset [OF nd [OF l0], of "Some 0" inner_ok sink0 req0 world0] l0 by simp
  let ?Y = "RateLimitMiddleware env_frozen (Some 0) inner_ok (fst ?X) sink0 req0 (final (snd ?X))"
  have sv: "serve env_frozen (Some 0) inner_ok st_new world0 [(sink0, req0), (sink0, req0)]
              = [(False, ?ip, fst ?X), (False, ?ip, fst ?Y)]"
    using nd [OF l0] nd [OF l1] by (simp add: case_prod_beta ip)
  have ob: "observed (serve env_frozen (Some 0) inner_ok st_new world0 [(sink0, req0), (sink0, req0)]) []
        = [?ip, ?ip]"
    unfolding sv by simp
  note t3 = window_reset [of env_frozen st_new world0 "Some 0" inner_ok sink0 req0
      "[(sink0, req0), (sink0, req0)]"]
  have c: "sint (count_of (last_state st_new
        (serve env_frozen (Some 0) inner_ok st_new world0 [(sink0, req0), (sink0, req0)])) ?ip) = 2"
    using t3 e unfolding ob by simp
  show ?thesis
    by (intro conjI, rule due, rule a1, rule a2, rule no_reset_env0(1), rule b1, rule e, rule ob,
        rule c)
qed

subsection \<open>The logging stage\<close>

lemma and_then_assoc:
  "and_then (and_then m f) g = and_then m (\<lambda>x s. and_then (f x s) g)"
  by (cases m) simp_all

lemma LogLevel_String_simps:
  "LogLevel_String INFO = ''INFO''" "LogLevel_String WARN = ''WARN''"
  "LogLevel_String ERROR = ''ERROR''"
  by (simp_all add: LogLevel_String_def DEBUG_def INFO_def WARN_def ERROR_def)

lemma derived_log_es:
  assumes "deref s lg = Some L" and "distinct (map fst flds)"
    and "map_of flds ''request_id'' = Some (Str rid)"
  shows "\<exists>s' es. and_then (WithFields s lg flds) (\<lambda>l s. logWithContext E s l ctx lv msg None)
                 = Return () s'
     \<and> deref s' lg = Some L
     \<and> emitted s' = emitted s @ es
     \<and> map (\<lambda>e. (Level e, Message e)) es
          = (if level L \<le> lv then [(LogLevel_String lv, msg)] else [])
     \<and> (\<forall>e \<in> set es. RequestID e = getFromContext ctx requestIDKey
           \<and> (\<exists>m. Fields e = Some m \<and> map_of m ''request_id'' = Some (Str rid)))"
proof -
  from derived_log [OF assms(1), of flds E ctx lv msg]
  obtain s' where
    r: "and_then (WithFields s lg flds) (\<lambda>l s. logWithContext E s l ctx lv msg None) = Return () s'"
    and d: "deref s' lg = Some L"
    and lo: "lv < level L \<longrightarrow> emitted s' = emitted s \<and> writes s' = writes s \<and> tick s' = tick s"
    and hi: "\<not> lv < level L \<longrightarrow>
          (\<exists>e out. emitted s' = emitted s @ [e]
             \<and> writes s' = writes s @ [(output' L, out @ [CHR 0x0A])]
             \<and> Level e = LogLevel_String lv \<and> Message e = msg
             \<and> TraceID e = getFromContext ctx traceIDKey
             \<and> UserID e = getFromContext ctx userIDKey
             \<and> RequestID e = getFromContext ctx requestIDKey
             \<and> Service e = service L \<and> Component e = component L
             \<and> Fields e =
                 (let m' = range_assign
                             (range_assign flds (range_assign (map_contents s (fields' L)) [])) []
                  in if length m' = 0 then None else Some m'))"
    by blast
  show ?thesis
  proof (cases "lv < level L")
    case True
    with lo have "emitted s' = emitted s @ []" by simp
    with r d True show ?thesis
      by (intro exI [where x = s'] exI [where x = "[]"]) simp
  next
    case False
    with hi obtain e where e: "emitted s' = emitted s @ [e]"
      "Level e = LogLevel_String lv" "Message e = msg"
      "RequestID e = getFromContext ctx requestIDKey"
      "Fields e = (let m' = range_assign
                             (range_assign flds (range_assign (map_contents s (fields' L)) [])) []
                  in if length m' = 0 then None else Some m')"
      by blast
    from derived_fields_lookup [OF assms(2,3), of "map_contents s (fields' L)"] e(5)
    have f: "\<exists>m. Fields e = Some m \<and> map_of m ''request_id'' = Some (Str rid)"
      by simp
    from False have le: "level L \<le> lv" by simp
    show ?thesis
      using r d e(1,2,3,4) f le
      by (intro exI [where x = s'] exI [where x = "[e]"]) simp
  qed
qed

lemma getFromContext_WithRequestID:
  "getFromContext (WithRequestID c rid) requestIDKey = rid"
  by (simp add: getFromContext_def WithRequestID_def)

lemma deref_tick: "deref (s\<lparr>tick := t\<rparr>) p = deref s p"
  by (simp add: deref_def split: option.splits)

lemma log_then:
  assumes "and_then (WithFields s lg flds) (\<lambda>l s. logWithContext E s l ctx lv msg None)
             = Return () s'"
  shows "and_then (WithFields s lg flds)
           (\<lambda>l s. and_then (logWithContext E s l ctx lv msg None) K) = K () s'"
proof -
  have "and_then (WithFields s lg flds)
           (\<lambda>l s. and_then (logWithContext E s l ctx lv msg None) K)
        = and_then (and_then (WithFields s lg flds)
             (\<lambda>l s. logWithContext E s l ctx lv msg None)) K"
    by (simp add: and_then_assoc)
  then show ?thesis using assms by simp
qed

lemma Handler_begin_result:
  assumes "deref s lg = Some L"
    and "rid = (if Header_Get E (Header r) ''X-Request-ID'' = '''' then UUID_String (uuid_New E (Suc (tick s)))
                else Header_Get E (Header r) ''X-Request-ID'')"
  shows "\<exists>s4 es0. Handler_begin E lg w r s =
            Return (r\<lparr>Context := WithRequestID (Context r) rid\<rparr>,
                    newResponseWriter (w\<lparr>hdr := Header_Set E (hdr w) ''X-Request-ID'' rid\<rparr>),
                    rid, WithRequestID (Context r) rid, time_Now E (tick s)) s4
     \<and> deref s4 lg = Some L
     \<and> emitted s4 = emitted s @ es0
     \<and> map (\<lambda>e. (Level e, Message e)) es0
          = (if level L \<le> INFO then [(''INFO'', ''HTTP request started'')] else [])
     \<and> (\<forall>e \<in> set es0. RequestID e = rid
           \<and> (\<exists>m. Fields e = Some m \<and> map_of m ''request_id'' = Some (Str rid)))"
proof -
  let ?ctx = "WithRequestID (Context r) rid"
  let ?r = "r\<lparr>Context := ?ctx\<rparr>"
  let ?s2 = "if Header_Get E (Header r) ''X-Request-ID'' = ''''
             then s\<lparr>tick := Suc (Suc (tick s))\<rparr> else s\<lparr>tick := Suc (tick s)\<rparr>"
  let ?F = "[(''http_method'', Str (Method ?r)),
            (''http_path'', Str (URL_Path ?r)),
            (''http_query'', Str (URL_RawQuery ?r)),
            (''http_user_agent'', Str (UserAgent E ?r)),
            (''http_remote_addr'', Str (RemoteAddr ?r)),
            (''http_host'', Str (Host ?r)),
            (''request_id'', Str rid),
            (''content_length'', Num (ContentLength ?r))]"
  let ?X = "(?r, newResponseWriter (w\<lparr>hdr := Header_Set E (hdr w) ''X-Request-ID'' rid\<rparr>),
             rid, ?ctx, time_Now E (tick s))"
  have d2: "deref ?s2 lg = Some L"
    using assms(1) by (simp add: deref_tick)
  have em2: "emitted ?s2 = emitted s" by simp
  have unf: "Handler_begin E lg w r s =
      and_then (WithFields ?s2 lg ?F)
        (\<lambda>l s. and_then (logWithContext E s l ?ctx INFO ''HTTP request started'' None)
           (\<lambda>u s. Return ?X s))"
    unfolding assms(2)
    by (simp add: Handler_begin_def now_def uuid_String_def Logger_InfoContext_def Let_def)
  have dist: "distinct (map fst ?F)" by simp
  have look: "map_of ?F ''request_id'' = Some (Str rid)" by simp
  from derived_log_es [OF d2 dist look, of E ?ctx INFO "''HTTP request started''"]
  obtain s4 es0 where
    r: "and_then (WithFields ?s2 lg ?F)
          (\<lambda>l s. logWithContext E s l ?ctx INFO ''HTTP request started'' None) = Return () s4"
    and d4: "deref s4 lg = Some L"
    and e4: "emitted s4 = emitted ?s2 @ es0"
    and m4: "map (\<lambda>e. (Level e, Message e)) es0
          = (if level L \<le> INFO then [(LogLevel_String INFO, ''HTTP request started'')] else [])"
    and c4: "\<forall>e \<in> set es0. RequestID e = getFromContext ?ctx requestIDKey
           \<and> (\<exists>m. Fields e = Some m \<and> map_of m ''request_id'' = Some (Str rid))"
    by blast
  have res: "Handler_begin E lg w r s = Return ?X s4"
    unfolding unf by (rule log_then [OF r])
  have e4': "emitted s4 = emitted s @ es0"
    using e4 em2 by simp
  have m4': "map (\<lambda>e. (Level e, Message e)) es0
          = (if level L \<le> INFO then [(''INFO'', ''HTTP request started'')] else [])"
    using m4 by (simp add: LogLevel_String_simps)
  have c4': "\<forall>e \<in> set es0. RequestID e = rid
           \<and> (\<exists>m. Fields e = Some m \<and> map_of m ''request_id'' = Some (Str rid))"
    using c4 by (simp add: getFromContext_WithRequestID)
  show ?thesis
    by (intro exI [where x = s4] exI [where x = es0] conjI, rule res, rule d4, rule e4',
        rule m4', rule c4')
qed

lemma carries_request_id_iff:
  "carries_request_id rid e =
     (RequestID e = rid \<and> (\<exists>m. Fields e = Some m \<and> map_of m ''request_id'' = Some (Str rid)))"
  by (simp add: carries_request_id_def split: option.splits)

lemma derived_log_rid:
  assumes "deref s lg = Some L" and "distinct (map fst flds)"
    and "map_of flds ''request_id'' = Some (Str rid)"
    and "getFromContext ctx requestIDKey = rid"
  shows "\<exists>s' es. and_then (WithFields s lg flds) (\<lambda>l s. logWithContext E s l ctx lv msg None)
                 = Return () s'
     \<and> deref s' lg = Some L
     \<and> emitted s' = emitted s @ es
     \<and> map (\<lambda>e. (Level e, Message e)) es
          = (if level L \<le> lv then [(LogLevel_String lv, msg)] else [])
     \<and> (\<forall>e \<in> set es. carries_request_id rid e)"
  using derived_log_es [OF assms(1,2,3), of E ctx lv msg] assms(4)
  unfolding carries_request_id_iff by simp

lemma slow_step:
  assumes "deref s lg = Some L" and "getFromContext ctx requestIDKey = rid"
  shows "\<exists>s' es.
       (if d > 5 * Second then
          and_then (WithFields s lg
            [(''http_method'', Str (Method r)),
             (''http_path'', Str (URL_Path r)),
             (''duration_ms'', Num (Milliseconds d)),
             (''request_id'', Str rid)])
          (\<lambda>l s. Logger_WarnContext E s l ctx ''Slow HTTP request detected'')
        else Return () s) = Return () s'
     \<and> deref s' lg = Some L
     \<and> emitted s' = emitted s @ es
     \<and> map (\<lambda>e. (Level e, Message e)) es
          = (if 5 * Second < d \<and> level L \<le> WARN
             then [(''WARN'', ''Slow HTTP request detected'')] else [])
     \<and> (\<forall>e \<in> set es. carries_request_id rid e)"
proof (cases "d > 5 * Second")
  case True
  let ?F = "[(''http_method'', Str (Method r)),
             (''http_path'', Str (URL_Path r)),
             (''duration_ms'', Num (Milliseconds d)),
             (''request_id'', Str rid)]"
  have dist: "distinct (map fst ?F)" by simp
  have look: "map_of ?F ''request_id'' = Some (Str rid)" by simp
  from derived_log_rid [OF assms(1) dist look assms(2), of E WARN "''Slow HTTP request detected''"]
  obtain s' es where
    r: "and_then (WithFields s lg ?F)
          (\<lambda>l s. logWithContext E s l ctx WARN ''Slow HTTP request detected'' None) = Return () s'"
    and d': "deref s' lg = Some L" and e: "emitted s' = emitted s @ es"
    and m: "map (\<lambda>e. (Level e, Message e)) es
          = (if level L \<le> WARN then [(LogLevel_String WARN, ''Slow HTTP request detected'')] else [])"
    and c: "\<forall>e \<in> set es. carries_request_id rid e"
    by blast
  have run: "(if d > 5 * Second then
          and_then (WithFields s lg ?F)
          (\<lambda>l s. Logger_WarnContext E s l ctx ''Slow HTTP request detected'')
        else Return () s) = Return () s'"
    using True r by (simp add: Logger_WarnContext_def)
  have m': "map (\<lambda>e. (Level e, Message e)) es
          = (if 5 * Second < d \<and> level L \<le> WARN
             then [(''WARN'', ''Slow HTTP request detected'')] else [])"
    using m True by (simp add: LogLevel_String_simps)
  show ?thesis
    by (intro exI [where x = s'] exI [where x = es] conjI, rule run, rule d', rule e, rule m',
        rule c)
next
  case False
  then show ?thesis
    using assms(1) by (intro exI [where x = s] exI [where x = "[]"]) simp
qed

lemma status_step:
  assumes "deref s lg = Some L" and "getFromContext ctx requestIDKey = rid"
  shows "\<exists>s' es.
       ((if statusCode wrapped \<ge> 400 then
          (let lvl = (if statusCode wrapped \<ge> 500 then ''error'' else ''warn'')
           in and_then (WithFields s lg
                [(''http_method'', Str (Method r)),
                 (''http_path'', Str (URL_Path r)),
                 (''http_status_code'', Num (statusCode wrapped)),
                 (''request_id'', Str rid)])
              (\<lambda>logEntry s.
                 if lvl = ''error''
                 then Logger_ErrorContext E s logEntry ctx ''HTTP request failed with server error''
                 else Logger_WarnContext E s logEntry ctx ''HTTP request failed with client error''))
        else Return () s) = Return () s')
     \<and> deref s' lg = Some L
     \<and> emitted s' = emitted s @ es
     \<and> map (\<lambda>e. (Level e, Message e)) es
          = (if 500 \<le> statusCode wrapped then
               (if level L \<le> ERROR
                then [(''ERROR'', ''HTTP request failed with server error'')] else [])
             else if 400 \<le> statusCode wrapped then
               (if level L \<le> WARN
                then [(''WARN'', ''HTTP request failed with client error'')] else [])
             else [])
     \<and> (\<forall>e \<in> set es. carries_request_id rid e)"
    (is "\<exists>s' es. (?run = Return () s') \<and> _ \<and> _ \<and> _ = ?exp \<and> _")
proof -
  let ?F = "[(''http_method'', Str (Method r)),
             (''http_path'', Str (URL_Path r)),
             (''http_status_code'', Num (statusCode wrapped)),
             (''request_id'', Str rid)]"
  have dist: "distinct (map fst ?F)" by simp
  have look: "map_of ?F ''request_id'' = Some (Str rid)" by simp
  note dl = derived_log_rid [OF assms(1) dist look assms(2)]
  consider (server) "500 \<le> statusCode wrapped"
    | (client) "400 \<le> statusCode wrapped" "statusCode wrapped < 500"
    | (fine) "statusCode wrapped < 400"
    by linarith
  then show ?thesis
  proof cases
    case server
    from dl [of E ERROR "''HTTP request failed with server error''"]
    obtain s' es where
      r: "and_then (WithFields s lg ?F)
            (\<lambda>l s. logWithContext E s l ctx ERROR ''HTTP request failed with server error'' None)
          = Return () s'"
      and d': "deref s' lg = Some L" and e: "emitted s' = emitted s @ es"
      and m: "map (\<lambda>e. (Level e, Message e)) es
            = (if level L \<le> ERROR
               then [(LogLevel_String ERROR, ''HTTP request failed with server error'')] else [])"
      and c: "\<forall>e \<in> set es. carries_request_id rid e"
      by blast
    have run: "?run = Return () s'"
      using server r by (simp add: Logger_ErrorContext_def)
    have m': "map (\<lambda>e. (Level e, Message e)) es = ?exp"
      using m server by (simp add: LogLevel_String_simps)
    show ?thesis
      by (intro exI [where x = s'] exI [where x = es] conjI, rule run, rule d', rule e, rule m',
          rule c)
  next
    case client
    from dl [of E WARN "''HTTP request failed with client error''"]
    obtain s' es where
      r: "and_then (WithFields s lg ?F)
            (\<lambda>l s. logWithContext E s l ctx WARN ''HTTP request failed with client error'' None)
          = Return () s'"
      and d': "deref s' lg = Some L" and e: "emitted s' = emitted s @ es"
      and m: "map (\<lambda>e. (Level e, Message e)) es
            = (if level L \<le> WARN
               then [(LogLevel_String WARN, ''HTTP request failed with client error'')] else [])"
      and c: "\<forall>e \<in> set es. carries_request_id rid e"
      by blast
    have run: "?run = Return () s'"
      using client r by (simp add: Logger_WarnContext_def)
    have m': "map (\<lambda>e. (Level e, Message e)) es = ?exp"
      using m client by (simp add: LogLevel_String_simps)
    show ?thesis
      by (intro exI [where x = s'] exI [where x = es] conjI, rule run, rule d', rule e, rule m',
          rule c)
  next
    case fine
    have run: "?run = Return () s"
      using fine by simp
    have m': "map (\<lambda>e. (Level e, Message e)) [] = ?exp"
      using fine by simp
    show ?thesis
      by (intro exI [where x = s] exI [where x = "[]"] conjI, rule run, rule assms(1), simp,
          rule m', simp)
  qed
qed

lemma Handler_finish_result:
  assumes "deref s lg = Some L" and "getFromContext ctx requestIDKey = rid"
  shows "\<exists>s' es. Handler_finish E lg r rid ctx start wrapped s = Return (ResponseWriter wrapped) s'
     \<and> deref s' lg = Some L
     \<and> emitted s' = emitted s @ es
     \<and> map (\<lambda>e. (Level e, Message e)) es
          = (if level L \<le> INFO then [(''INFO'', ''HTTP request completed'')] else [])
            @ (if 5 * Second < sat64 (time_Now E (tick s) - start) \<and> level L \<le> WARN
               then [(''WARN'', ''Slow HTTP request detected'')] else [])
            @ (if 500 \<le> statusCode wrapped then
                 (if level L \<le> ERROR
                  then [(''ERROR'', ''HTTP request failed with server error'')] else [])
               else if 400 \<le> statusCode wrapped then
                 (if level L \<le> WARN
                  then [(''WARN'', ''HTTP request failed with client error'')] else [])
               else [])
     \<and> (\<forall>e \<in> set es. carries_request_id rid e)"
proof -
  let ?d = "sat64 (time_Now E (tick s) - start)"
  let ?s6 = "s\<lparr>tick := Suc (tick s)\<rparr>"
  let ?F1 = "[(''http_method'', Str (Method r)),
            (''http_path'', Str (URL_Path r)),
            (''http_status_code'', Num (statusCode wrapped)),
            (''http_remote_addr'', Str (RemoteAddr r)),
            (''request_id'', Str rid),
            (''duration_ms'', Num (Milliseconds ?d)),
            (''response_size'', Num (sint (written wrapped)))]"
  let ?SLOW = "\<lambda>s. if ?d > 5 * Second then
          and_then (WithFields s lg
            [(''http_method'', Str (Method r)),
             (''http_path'', Str (URL_Path r)),
             (''duration_ms'', Num (Milliseconds ?d)),
             (''request_id'', Str rid)])
          (\<lambda>l s. Logger_WarnContext E s l ctx ''Slow HTTP request detected'')
        else Return () s"
  let ?STATUS = "\<lambda>s. if statusCode wrapped \<ge> 400 then
          (let lvl = (if statusCode wrapped \<ge> 500 then ''error'' else ''warn'')
           in and_then (WithFields s lg
                [(''http_method'', Str (Method r)),
                 (''http_path'', Str (URL_Path r)),
                 (''http_status_code'', Num (statusCode wrapped)),
                 (''request_id'', Str rid)])
              (\<lambda>logEntry s.
                 if lvl = ''error''
                 then Logger_ErrorContext E s logEntry ctx ''HTTP request failed with server error''
                 else Logger_WarnContext E s logEntry ctx ''HTTP request failed with client error''))
        else Return () s"
  let ?K3 = "\<lambda>(u::unit) s. Return (ResponseWriter wrapped) s"
  let ?K2 = "\<lambda>(u::unit) s. and_then (?STATUS s) ?K3"
  let ?K1 = "\<lambda>(u::unit) s. and_then (?SLOW s) ?K2"
  have unf: "Handler_finish E lg r rid ctx start wrapped s =
      and_then (WithFields ?s6 lg ?F1)
        (\<lambda>l s. and_then (logWithContext E s l ctx INFO ''HTTP request completed'' None) ?K1)"
    by (simp add: Handler_finish_def time_Since_def now_def Logger_InfoContext_def)
  have d6: "deref ?s6 lg = Some L"
    using assms(1) by (simp add: deref_tick)
  have dist: "distinct (map fst ?F1)" by simp
  have look: "map_of ?F1 ''request_id'' = Some (Str rid)" by simp
  from derived_log_rid [OF d6 dist look assms(2), of E INFO "''HTTP request completed''"]
  obtain s7 es1 where
    r1: "and_then (WithFields ?s6 lg ?F1)
          (\<lambda>l s. logWithContext E s l ctx INFO ''HTTP request completed'' None) = Return () s7"
    and d7: "deref s7 lg = Some L" and e7: "emitted s7 = emitted ?s6 @ es1"
    and m1: "map (\<lambda>e. (Level e, Message e)) es1
          = (if level L \<le> INFO then [(LogLevel_String INFO, ''HTTP request completed'')] else [])"
    and c1: "\<forall>e \<in> set es1. carries_request_id rid e"
    by blast
  from slow_step [OF d7 assms(2), of ?d r E]
  obtain s8 es2 where
    r2: "?SLOW s7 = Return () s8"
    and d8: "deref s8 lg = Some L" and e8: "emitted s8 = emitted s7 @ es2"
    and m2: "map (\<lambda>e. (Level e, Message e)) es2
          = (if 5 * Second < ?d \<and> level L \<le> WARN
             then [(''WARN'', ''Slow HTTP request detected'')] else [])"
    and c2: "\<forall>e \<in> set es2. carries_request_id rid e"
    by blast
  from status_step [OF d8 assms(2), of wrapped r E]
  obtain s9 es3 where
    r3: "?STATUS s8 = Return () s9"
    and d9: "deref s9 lg = Some L" and e9: "emitted s9 = emitted s8 @ es3"
    and m3: "map (\<lambda>e. (Level e, Message e)) es3
          = (if 500 \<le> statusCode wrapped then
               (if level L \<le> ERROR
                then [(''ERROR'', ''HTTP request failed with server error'')] else [])
             else if 400 \<le> statusCode wrapped then
               (if level L \<le> WARN
                then [(''WARN'', ''HTTP request failed with client error'')] else [])
             else [])"
    and c3: "\<forall>e \<in> set es3. carries_request_id rid e"
    by blast
  have q1: "Handler_finish E lg r rid ctx start wrapped s = and_then (?SLOW s7) ?K2"
    unfolding unf by (rule log_then [OF r1])
  have q2: "and_then (?SLOW s7) ?K2 = and_then (?STATUS s8) ?K3"
    unfolding r2 by simp
  have q3: "and_then (?STATUS s8) ?K3 = Return (ResponseWriter wrapped) s9"
    unfolding r3 by simp
  have res: "Handler_finish E lg r rid ctx start wrapped s = Return (ResponseWriter wrapped) s9"
    using q1 q2 q3 by (rule trans [OF trans])
  have em: "emitted s9 = emitted s @ (es1 @ es2 @ es3)"
    using e7 e8 e9 by simp
  have mp: "map (\<lambda>e. (Level e, Message e)) (es1 @ es2 @ es3)
          = (if level L \<le> INFO then [(''INFO'', ''HTTP request completed'')] else [])
            @ (if 5 * Second < ?d \<and> level L \<le> WARN
               then [(''WARN'', ''Slow HTTP request detected'')] else [])
            @ (if 500 \<le> statusCode wrapped then
                 (if level L \<le> ERROR
                  then [(''ERROR'', ''HTTP request failed with server error'')] else [])
               else if 400 \<le> statusCode wrapped then
                 (if level L \<le> WARN
                  then [(''WARN'', ''HTTP request failed with client error'')] else [])
               else [])"
    unfolding map_append m1 m2 m3 by (simp only: LogLevel_String_simps)
  have ca: "\<forall>e \<in> set (es1 @ es2 @ es3). carries_request_id rid e"
    using c1 c2 c3 by auto
  show ?thesis
    by (intro exI [where x = s9] exI [where x = "es1 @ es2 @ es3"] conjI, rule res, rule d9,
        rule em, rule mp, rule ca)
qed

lemma Handler_run:
  assumes "Handler_begin E lg w r s = Return (r', wrapped0, rid, ctx, start) s4"
    and "nxt wrapped0 r' s4 = Return wrapped s5"
  shows "Handler E lg nxt w r s = Handler_finish E lg r' rid ctx start wrapped s5"
  using assms by (simp add: Handler_def)

lemma Header_Get_Set: "Header_Get E (Header_Set E h k v) k = v"
  by (simp add: Header_Get_def Header_Set_def)

lemma frozen_clock: "time_Now env_frozen n = 0"
  by (simp add: env_frozen_def)

lemma not_slow_frozen: "\<not> 5 * Second < sat64 (time_Now env_frozen n - time_Now env_frozen m)"
  by (simp add: frozen_clock sat64_def Second_def)

lemma Handler_quiet:
  assumes "deref s lg = Some L" and "INFO < level L"
    and "\<And>rw r s. nxt rw r s = Return (f rw) s"
    and "\<And>rw. statusCode (f rw) = (if c = 200 then statusCode rw else c)"
  shows "\<exists>s' es. Handler env_frozen lg nxt w r s = Return (ResponseWriter (f
              (newResponseWriter (w\<lparr>hdr := Header_Set env_frozen (hdr w) ''X-Request-ID''
                 (if Header_Get env_frozen (Header r) ''X-Request-ID'' = ''''
                  then UUID_String (uuid_New env_frozen (Suc (tick s)))
                  else Header_Get env_frozen (Header r) ''X-Request-ID'')\<rparr>)))) s'
      \<and> emitted s' = emitted s @ es
      \<and> map (\<lambda>e. (Level e, Message e)) es
          = (if 500 \<le> c then
               (if level L \<le> ERROR
                then [(''ERROR'', ''HTTP request failed with server error'')] else [])
             else if 400 \<le> c then
               (if level L \<le> WARN
                then [(''WARN'', ''HTTP request failed with client error'')] else [])
             else [])"
proof -
  define rid where "rid = (if Header_Get env_frozen (Header r) ''X-Request-ID'' = ''''
      then UUID_String (uuid_New env_frozen (Suc (tick s))) else Header_Get env_frozen (Header r) ''X-Request-ID'')"
  let ?ctx = "WithRequestID (Context r) rid"
  let ?r = "r\<lparr>Context := ?ctx\<rparr>"
  let ?w0 = "newResponseWriter (w\<lparr>hdr := Header_Set env_frozen (hdr w) ''X-Request-ID'' rid\<rparr>)"
  let ?start = "time_Now env_frozen (tick s)"
  from Handler_begin_result [OF assms(1) rid_def, of w]
  obtain s4 es0 where hb: "Handler_begin env_frozen lg w r s = Return (?r, ?w0, rid, ?ctx, ?start) s4"
    and d4: "deref s4 lg = Some L"
    and e4: "emitted s4 = emitted s @ es0"
    and m4: "map (\<lambda>e. (Level e, Message e)) es0
          = (if level L \<le> INFO then [(''INFO'', ''HTTP request started'')] else [])"
    by blast
  have es0: "es0 = []" using m4 assms(2) by simp
  have nx: "nxt ?w0 ?r s4 = Return (f ?w0) s4" by (rule assms(3))
  have run: "Handler env_frozen lg nxt w r s
               = Handler_finish env_frozen lg ?r rid ?ctx ?start (f ?w0) s4"
    by (rule Handler_run [where nxt = nxt, OF hb nx])
  have g: "getFromContext ?ctx requestIDKey = rid"
    by (rule getFromContext_WithRequestID)
  have sc: "statusCode (f ?w0) = (if c = 200 then 200 else c)"
    by (simp add: assms(4) newResponseWriter_def)
  from Handler_finish_result [OF d4 g, of env_frozen ?r ?start "f ?w0"]
  obtain s' es where r: "Handler_finish env_frozen lg ?r rid ?ctx ?start (f ?w0) s4
          = Return (ResponseWriter (f ?w0)) s'"
    and e: "emitted s' = emitted s4 @ es"
    and m: "map (\<lambda>e. (Level e, Message e)) es
          = (if level L \<le> INFO then [(''INFO'', ''HTTP request completed'')] else [])
            @ (if 5 * Second < sat64 (time_Now env_frozen (tick s4) - ?start) \<and> level L \<le> WARN
               then [(''WARN'', ''Slow HTTP request detected'')] else [])
            @ (if 500 \<le> statusCode (f ?w0) then
                 (if level L \<le> ERROR
                  then [(''ERROR'', ''HTTP request failed with server error'')] else [])
               else if 400 \<le> statusCode (f ?w0) then
                 (if level L \<le> WARN
                  then [(''WARN'', ''HTTP request failed with client error'')] else [])
               else [])"
    by blast
  have m': "map (\<lambda>e. (Level e, Message e)) es
          = (if 500 \<le> c then
               (if level L \<le> ERROR
                then [(''ERROR'', ''HTTP request failed with server error'')] else [])
             else if 400 \<le> c then
               (if level L \<le> WARN
                then [(''WARN'', ''HTTP request failed with client error'')] else [])
             else [])"
    using m assms(2) not_slow_frozen [of "tick s4" "tick s"] unfolding sc by simp
  have e': "emitted s' = emitted s @ es"
    using e e4 es0 by simp
  show ?thesis
    unfolding run rid_def [symmetric]
    by (intro exI [where x = s'] exI [where x = es] conjI, rule r, rule e', rule m')
qed

lemma UUID_String_length: "length (UUID_String u) = 36"
  by (simp add: UUID_String_def hex_Encode_def)

lemma UUID_String_zero: "UUID_String (\<lambda>i. 0) = ''00000000-0000-0000-0000-000000000000''"
  by (simp add: UUID_String_def hex_Encode_def hextable_def)

lemma count_completed:
  assumes "map (\<lambda>e. (Level e, Message e)) es
          = (if a then [(''INFO'', ''HTTP request completed'')] else [])
            @ (if b then [(''WARN'', ''Slow HTTP request detected'')] else [])
            @ (if c then
                 (if d then [(''ERROR'', ''HTTP request failed with server error'')] else [])
               else if c' then
                 (if d' then [(''WARN'', ''HTTP request failed with client error'')] else [])
               else [])"
  shows "length (filter (\<lambda>e. Message e = ''HTTP request completed'') es) = (if a then 1 else 0)"
proof -
  have "length (filter (\<lambda>e. Message e = ''HTTP request completed'') es)
      = length (filter (\<lambda>p. snd p = ''HTTP request completed'')
          (map (\<lambda>e. (Level e, Message e)) es))"
    by (simp add: filter_map comp_def)
  also have "\<dots> = (if a then 1 else 0)"
    unfolding assms by simp
  finally show ?thesis .
qed

text \<open>
  Claim C6, as the code has it. Let \<open>L\<close> be the logger of the stage. The identifier
  \<open>rid\<close> of a request is the value of its \<^verbatim>\<open>X-Request-ID\<close> header when that value is not
  empty, and otherwise the string of a newly generated UUID, which has 36 characters;
  so \<open>rid\<close> is never empty. The response header \<^verbatim>\<open>X-Request-ID\<close> is set to \<open>rid\<close>, the
  context handed to the inner handler answers \<open>rid\<close> to \<^verbatim>\<open>GetRequestID\<close>, and every
  record the stage emits carries \<open>rid\<close>, both as its \<^verbatim>\<open>request_id\<close> and under the key
  \<^verbatim>\<open>request_id\<close> of its fields. The record "HTTP request started" is emitted before
  the inner handler, as the only record, when the threshold of \<open>L\<close> is at most
  \<^verbatim>\<open>INFO\<close>, and no record is emitted there when the threshold is higher. When the inner
  handler returns and leaves the logger as it was, the record "HTTP request completed"
  is emitted once, as the first record after it, when the threshold is at most \<^verbatim>\<open>INFO\<close>,
  and not at all when the threshold is higher.
\<close>

theorem request_id_propagation:
  assumes "deref s lg = Some L"
  shows "\<exists>r' wrapped0 rid ctx start s4 es0.
      Handler_begin E lg w r s = Return (r', wrapped0, rid, ctx, start) s4
    \<and> (Header_Get E (Header r) ''X-Request-ID'' \<noteq> ''''
          \<longrightarrow> rid = Header_Get E (Header r) ''X-Request-ID'')
    \<and> (Header_Get E (Header r) ''X-Request-ID'' = ''''
          \<longrightarrow> rid = UUID_String (uuid_New E (Suc (tick s))) \<and> length rid = 36)
    \<and> rid \<noteq> ''''
    \<and> Header_Get E (hdr (ResponseWriter wrapped0)) ''X-Request-ID'' = rid
    \<and> GetRequestID (Context r') = rid \<and> ctx = Context r'
    \<and> deref s4 lg = Some L
    \<and> emitted s4 = emitted s @ es0
    \<and> map (\<lambda>e. (Level e, Message e)) es0
         = (if level L \<le> INFO then [(''INFO'', ''HTTP request started'')] else [])
    \<and> (\<forall>e \<in> set es0. carries_request_id rid e)
    \<and> (\<forall>wrapped s5. nxt wrapped0 r' s4 = Return wrapped s5 \<and> deref s5 lg = Some L \<longrightarrow>
         (\<exists>s' es. Handler E lg nxt w r s = Return (ResponseWriter wrapped) s'
            \<and> emitted s' = emitted s5 @ es
            \<and> (level L \<le> INFO \<longrightarrow>
                  es \<noteq> [] \<and> Level (hd es) = ''INFO'' \<and> Message (hd es) = ''HTTP request completed'')
            \<and> length (filter (\<lambda>e. Message e = ''HTTP request completed'') es)
                 = (if level L \<le> INFO then 1 else 0)
            \<and> (\<forall>e \<in> set es. carries_request_id rid e)))"
proof -
  define rid where "rid = (if Header_Get E (Header r) ''X-Request-ID'' = ''''
      then UUID_String (uuid_New E (Suc (tick s))) else Header_Get E (Header r) ''X-Request-ID'')"
  let ?ctx = "WithRequestID (Context r) rid"
  let ?r = "r\<lparr>Context := ?ctx\<rparr>"
  let ?w0 = "newResponseWriter (w\<lparr>hdr := Header_Set E (hdr w) ''X-Request-ID'' rid\<rparr>)"
  let ?start = "time_Now E (tick s)"
  from Handler_begin_result [OF assms rid_def, of w]
  obtain s4 es0 where hb: "Handler_begin E lg w r s = Return (?r, ?w0, rid, ?ctx, ?start) s4"
    and d4: "deref s4 lg = Some L"
    and e4: "emitted s4 = emitted s @ es0"
    and m4: "map (\<lambda>e. (Level e, Message e)) es0
          = (if level L \<le> INFO then [(''INFO'', ''HTTP request started'')] else [])"
    and c4: "\<forall>e \<in> set es0. RequestID e = rid
           \<and> (\<exists>m. Fields e = Some m \<and> map_of m ''request_id'' = Some (Str rid))"
    by blast
  have g: "getFromContext ?ctx requestIDKey = rid"
    by (rule getFromContext_WithRequestID)
  have p1: "Header_Get E (Header r) ''X-Request-ID'' \<noteq> ''''
          \<longrightarrow> rid = Header_Get E (Header r) ''X-Request-ID''"
    by (simp add: rid_def)
  have p2: "Header_Get E (Header r) ''X-Request-ID'' = ''''
          \<longrightarrow> rid = UUID_String (uuid_New E (Suc (tick s))) \<and> length rid = 36"
    by (simp add: rid_def UUID_String_length)
  have p3: "rid \<noteq> ''''"
  proof (cases "Header_Get E (Header r) ''X-Request-ID'' = ''''")
    case True
    from p2 [THEN mp, OF True] have "length rid = 36" by (rule conjunct2)
    then show ?thesis by auto
  next
    case False
    with p1 show ?thesis by simp
  qed
  have p4: "Header_Get E (hdr (ResponseWriter ?w0)) ''X-Request-ID'' = rid"
    by (simp add: newResponseWriter_def Header_Get_Set)
  have p5: "GetRequestID (Context ?r) = rid" and p6: "?ctx = Context ?r"
    by (simp_all add: GetRequestID_def g)
  have p8: "\<forall>e \<in> set es0. carries_request_id rid e"
    using c4 unfolding carries_request_id_iff .
  have fin: "\<forall>wrapped s5. nxt ?w0 ?r s4 = Return wrapped s5 \<and> deref s5 lg = Some L \<longrightarrow>
         (\<exists>s' es. Handler E lg nxt w r s = Return (ResponseWriter wrapped) s'
            \<and> emitted s' = emitted s5 @ es
            \<and> (level L \<le> INFO \<longrightarrow>
                  es \<noteq> [] \<and> Level (hd es) = ''INFO'' \<and> Message (hd es) = ''HTTP request completed'')
            \<and> length (filter (\<lambda>e. Message e = ''HTTP request completed'') es)
                 = (if level L \<le> INFO then 1 else 0)
            \<and> (\<forall>e \<in> set es. carries_request_id rid e))"
  proof (intro allI impI)
    fix wrapped s5
    assume a: "nxt ?w0 ?r s4 = Return wrapped s5 \<and> deref s5 lg = Some L"
    then have nx: "nxt ?w0 ?r s4 = Return wrapped s5" and d5: "deref s5 lg = Some L"
      by simp_all
    have run: "Handler E lg nxt w r s = Handler_finish E lg ?r rid ?ctx ?start wrapped s5"
      by (rule Handler_run [where nxt = nxt, OF hb nx])
    from Handler_finish_result [OF d5 g, of E ?r ?start wrapped]
    obtain s' es where r: "Handler_finish E lg ?r rid ?ctx ?start wrapped s5
          = Return (ResponseWriter wrapped) s'"
      and e: "emitted s' = emitted s5 @ es"
      and m: "map (\<lambda>e. (Level e, Message e)) es
          = (if level L \<le> INFO then [(''INFO'', ''HTTP request completed'')] else [])
            @ (if 5 * Second < sat64 (time_Now E (tick s5) - ?start) \<and> level L \<le> WARN
               then [(''WARN'', ''Slow HTTP request detected'')] else [])
            @ (if 500 \<le> statusCode wrapped then
                 (if level L \<le> ERROR
                  then [(''ERROR'', ''HTTP request failed with server error'')] else [])
               else if 400 \<le> statusCode wrapped then
                 (if level L \<le> WARN
                  then [(''WARN'', ''HTTP request failed with client error'')] else [])
               else [])"
      and c: "\<forall>e \<in> set es. carries_request_id rid e"
      by blast
    have h: "level L \<le> INFO \<longrightarrow>
           es \<noteq> [] \<and> Level (hd es) = ''INFO'' \<and> Message (hd es) = ''HTTP request completed''"
    proof
      assume "level L \<le> INFO"
      with m obtain rest where
        "map (\<lambda>e. (Level e, Message e)) es = (''INFO'', ''HTTP request completed'') # rest"
        by simp
      then show "es \<noteq> [] \<and> Level (hd es) = ''INFO'' \<and> Message (hd es) = ''HTTP request completed''"
        by (cases es) auto
    qed
    have k: "length (filter (\<lambda>e. Message e = ''HTTP request completed'') es)
                 = (if level L \<le> INFO then 1 else 0)"
      by (rule count_completed [OF m])
    show "\<exists>s' es. Handler E lg nxt w r s = Return (ResponseWriter wrapped) s'
            \<and> emitted s' = emitted s5 @ es
            \<and> (level L \<le> INFO \<longrightarrow>
                  es \<noteq> [] \<and> Level (hd es) = ''INFO'' \<and> Message (hd es) = ''HTTP request completed'')
            \<and> length (filter (\<lambda>e. Message e = ''HTTP request completed'') es)
                 = (if level L \<le> INFO then 1 else 0)
            \<and> (\<forall>e \<in> set es. carries_request_id rid e)"
      unfolding run
      by (intro exI [where x = s'] exI [where x = es] conjI, rule r, rule e, rule h, rule k,
          rule c)
  qed
  show ?thesis
    by (intro exI conjI, rule hb, rule p1, rule p2, rule p3, rule p4, rule p5, rule p6, rule d4,
        rule e4, rule m4, rule p8, rule fin)
qed

theorem request_id_propagation_witness:
  "deref world_info (Some 0) = Some logger_info
   \<and> Header_Get env_frozen (Header req0) ''X-Request-ID'' = ''existing-id''
   \<and> level logger_info \<le> INFO
   \<and> (\<exists>r' wrapped0 ctx start s4 e0.
         Handler_begin env_frozen (Some 0) sink0 req0 world_info
           = Return (r', wrapped0, ''existing-id'', ctx, start) s4
       \<and> Header_Get env_frozen (hdr (ResponseWriter wrapped0)) ''X-Request-ID'' = ''existing-id''
       \<and> GetRequestID (Context r') = ''existing-id''
       \<and> emitted s4 = [e0] \<and> Message e0 = ''HTTP request started''
       \<and> carries_request_id ''existing-id'' e0
       \<and> next_ok wrapped0 r' s4 = Return wrapped0 s4
       \<and> (\<exists>s' es. Handler env_frozen (Some 0) next_ok sink0 req0 world_info
                      = Return (ResponseWriter wrapped0) s'
              \<and> emitted s' = emitted s4 @ es
              \<and> Message (hd es) = ''HTTP request completed''
              \<and> carries_request_id ''existing-id'' (hd es)
              \<and> length (filter (\<lambda>e. Message e = ''HTTP request completed'') es) = 1))
   \<and> Header_Get env_frozen (Header req1) ''X-Request-ID'' = ''''
   \<and> UUID_String (uuid_New env_frozen (Suc (tick world_info)))
       = ''00000000-0000-0000-0000-000000000000''
   \<and> (\<exists>r' wrapped0 ctx start s4.
         Handler_begin env_frozen (Some 0) sink0 req1 world_info
           = Return (r', wrapped0, ''00000000-0000-0000-0000-000000000000'', ctx, start) s4
       \<and> Header_Get env_frozen (hdr (ResponseWriter wrapped0)) ''X-Request-ID''
           = ''00000000-0000-0000-0000-000000000000''
       \<and> GetRequestID (Context r') = ''00000000-0000-0000-0000-000000000000'')"
proof -
  have lv: "level logger_info \<le> INFO"
    by (simp add: logger_info_def)
  have h0: "Header_Get env_frozen (Header req0) ''X-Request-ID'' = ''existing-id''"
    by (simp add: Header_Get_def env_frozen_def env0_def req0_def)
  have h1: "Header_Get env_frozen (Header req1) ''X-Request-ID'' = ''''"
    by (simp add: Header_Get_def env_frozen_def env0_def req1_def)
  have u0: "uuid_New env_frozen (Suc (tick world_info)) = (\<lambda>i. 0)"
    by (simp add: env_frozen_def env0_def)
  have u: "UUID_String (uuid_New env_frozen (Suc (tick world_info)))
       = ''00000000-0000-0000-0000-000000000000''"
    unfolding u0 by (rule UUID_String_zero)
  have em: "emitted world_info = []"
    by (simp add: world_info_def world0_def)
  from request_id_propagation [OF deref_world_info, where E = env_frozen and w = sink0
      and r = req0 and nxt = next_ok]
  obtain r' wrapped0 rid ctx start s4 es0 where
    hb: "Handler_begin env_frozen (Some 0) sink0 req0 world_info
           = Return (r', wrapped0, rid, ctx, start) s4"
    and p1: "Header_Get env_frozen (Header req0) ''X-Request-ID'' \<noteq> ''''
          \<longrightarrow> rid = Header_Get env_frozen (Header req0) ''X-Request-ID''"
    and p4: "Header_Get env_frozen (hdr (ResponseWriter wrapped0)) ''X-Request-ID'' = rid"
    and p5: "GetRequestID (Context r') = rid"
    and d4: "deref s4 (Some 0) = Some logger_info"
    and e4: "emitted s4 = emitted world_info @ es0"
    and p7: "map (\<lambda>e. (Level e, Message e)) es0
         = (if level logger_info \<le> INFO then [(''INFO'', ''HTTP request started'')] else [])"
    and p8: "\<forall>e \<in> set es0. carries_request_id rid e"
    and fin: "\<forall>wrapped s5. next_ok wrapped0 r' s4 = Return wrapped s5
            \<and> deref s5 (Some 0) = Some logger_info \<longrightarrow>
         (\<exists>s' es. Handler env_frozen (Some 0) next_ok sink0 req0 world_info
                     = Return (ResponseWriter wrapped) s'
            \<and> emitted s' = emitted s5 @ es
            \<and> (level logger_info \<le> INFO \<longrightarrow>
                  es \<noteq> [] \<and> Level (hd es) = ''INFO'' \<and> Message (hd es) = ''HTTP request completed'')
            \<and> length (filter (\<lambda>e. Message e = ''HTTP request completed'') es)
                 = (if level logger_info \<le> INFO then 1 else 0)
            \<and> (\<forall>e \<in> set es. carries_request_id rid e))"
    by (elim exE conjE) (rule that; assumption)
  have rid: "rid = ''existing-id''"
    using p1 h0 by simp
  from p7 lv obtain e0 where es0: "es0 = [e0]" and m0: "Message e0 = ''HTTP request started''"
    by auto
  have c0: "carries_request_id ''existing-id'' e0"
    using p8 es0 rid by simp
  have nx: "next_ok wrapped0 r' s4 = Return wrapped0 s4"
    by (simp add: next_ok_def)
  obtain s' es where
    r: "Handler env_frozen (Some 0) next_ok sink0 req0 world_info
          = Return (ResponseWriter wrapped0) s'"
    and e: "emitted s' = emitted s4 @ es"
    and ne: "es \<noteq> []" and mc: "Message (hd es) = ''HTTP request completed''"
    and k: "length (filter (\<lambda>e. Message e = ''HTTP request completed'') es) = 1"
    and ce: "\<forall>e \<in> set es. carries_request_id rid e"
    using fin [THEN spec, THEN spec, THEN mp, OF conjI [OF nx d4]] lv
    by (elim exE conjE) (rule that; simp)
  have ch: "carries_request_id ''existing-id'' (hd es)"
    using ce ne rid by simp
  have inner: "\<exists>s' es. Handler env_frozen (Some 0) next_ok sink0 req0 world_info
                      = Return (ResponseWriter wrapped0) s'
              \<and> emitted s' = emitted s4 @ es
              \<and> Message (hd es) = ''HTTP request completed''
              \<and> carries_request_id ''existing-id'' (hd es)
              \<and> length (filter (\<lambda>e. Message e = ''HTTP request completed'') es) = 1"
    by (rule exI [where x = s'], rule exI [where x = es], intro conjI, rule r, rule e, rule mc,
        rule ch, rule k)
  have a: "\<exists>r' wrapped0 ctx start s4 e0.
         Handler_begin env_frozen (Some 0) sink0 req0 world_info
           = Return (r', wrapped0, ''existing-id'', ctx, start) s4
       \<and> Header_Get env_frozen (hdr (ResponseWriter wrapped0)) ''X-Request-ID'' = ''existing-id''
       \<and> GetRequestID (Context r') = ''existing-id''
       \<and> emitted s4 = [e0] \<and> Message e0 = ''HTTP request started''
       \<and> carries_request_id ''existing-id'' e0
       \<and> next_ok wrapped0 r' s4 = Return wrapped0 s4
       \<and> (\<exists>s' es. Handler env_frozen (Some 0) next_ok sink0 req0 world_info
                      = Return (ResponseWriter wrapped0) s'
              \<and> emitted s' = emitted s4 @ es
              \<and> Message (hd es) = ''HTTP request completed''
              \<and> carries_request_id ''existing-id'' (hd es)
              \<and> length (filter (\<lambda>e. Message e = ''HTTP request completed'') es) = 1)"
    apply (rule exI [where x = r'], rule exI [where x = wrapped0], rule exI [where x = ctx],
        rule exI [where x = start], rule exI [where x = s4], rule exI [where x = e0])
    using hb p4 p5 e4 em es0 m0 c0 nx inner unfolding rid by simp
  from request_id_propagation [OF deref_world_info, where E = env_frozen and w = sink0
      and r = req1 and nxt = next_ok]
  obtain r1 w1 rid1 ctx1 start1 t4 where
    hb1: "Handler_begin env_frozen (Some 0) sink0 req1 world_info
           = Return (r1, w1, rid1, ctx1, start1) t4"
    and q2: "Header_Get env_frozen (Header req1) ''X-Request-ID'' = ''''
          \<longrightarrow> rid1 = UUID_String (uuid_New env_frozen (Suc (tick world_info)))
              \<and> length rid1 = 36"
    and q4: "Header_Get env_frozen (hdr (ResponseWriter w1)) ''X-Request-ID'' = rid1"
    and q5: "GetRequestID (Context r1) = rid1"
    by (elim exE conjE) (rule that; assumption)
  have rid1: "rid1 = ''00000000-0000-0000-0000-000000000000''"
    using q2 h1 u by simp
  have b: "\<exists>r' wrapped0 ctx start s4.
         Handler_begin env_frozen (Some 0) sink0 req1 world_info
           = Return (r', wrapped0, ''00000000-0000-0000-0000-000000000000'', ctx, start) s4
       \<and> Header_Get env_frozen (hdr (ResponseWriter wrapped0)) ''X-Request-ID''
           = ''00000000-0000-0000-0000-000000000000''
       \<and> GetRequestID (Context r') = ''00000000-0000-0000-0000-000000000000''"
    apply (rule exI [where x = r1], rule exI [where x = w1], rule exI [where x = ctx1],
        rule exI [where x = start1], rule exI [where x = t4])
    using hb1 q4 q5 unfolding rid1 by simp
  show ?thesis
    by (intro conjI, rule deref_world_info, rule h0, rule lv, rule a, rule h1, rule u, rule b)
qed

text \<open>
  The claim without the condition on the logger's threshold fails: with the threshold
  at \<^verbatim>\<open>WARN\<close>, a request that carries the identifier \<^verbatim>\<open>existing-id\<close> and is answered with
  status 200 returns with that identifier in the response header, and neither a
  "request started" nor a "request completed" record has been emitted.
\<close>

theorem request_id_propagation_counterexample:
  "deref world0 (Some 0) = Some logger0 \<and> level logger0 = WARN
   \<and> Header_Get env_frozen (Header req0) ''X-Request-ID'' = ''existing-id''
   \<and> emitted world0 = []
   \<and> (\<exists>u. result (Handler env_frozen (Some 0) next_ok sink0 req0 world0) = Some u
         \<and> Header_Get env_frozen (hdr u) ''X-Request-ID'' = ''existing-id'')
   \<and> emitted (final (Handler env_frozen (Some 0) next_ok sink0 req0 world0)) = []"
proof -
  have lv: "INFO < level logger0" "level logger0 = WARN"
    by (simp_all add: logger0_def INFO_def WARN_def)
  have em: "emitted world0 = []" by (simp add: world0_def)
  have h0: "Header_Get env_frozen (Header req0) ''X-Request-ID'' = ''existing-id''"
    by (simp add: Header_Get_def env_frozen_def env0_def req0_def)
  have ok: "\<And>rw r s. next_ok rw r s = Return ((\<lambda>rw. rw) rw) s"
    by (simp add: next_ok_def)
  have ok4: "\<And>rw. statusCode ((\<lambda>rw. rw) rw) = (if (200::int) = 200 then statusCode rw else 200)"
    by simp
  let ?u = "sink0\<lparr>hdr := Header_Set env_frozen (hdr sink0) ''X-Request-ID'' ''existing-id''\<rparr>"
  from Handler_quiet [where c = 200 and w = sink0 and r = req0 and nxt = next_ok
      and f = "\<lambda>rw. rw", OF deref_world0 lv(1) ok ok4]
  obtain s1 es1 where a: "Handler env_frozen (Some 0) next_ok sink0 req0 world0 = Return ?u s1"
    "emitted s1 = emitted world0 @ es1" "map (\<lambda>e. (Level e, Message e)) es1 = []"
    unfolding h0 by (auto simp add: newResponseWriter_def)
  have g: "Header_Get env_frozen (hdr ?u) ''X-Request-ID'' = ''existing-id''"
    by (simp add: Header_Get_Set)
  have x: "\<exists>u. result (Handler env_frozen (Some 0) next_ok sink0 req0 world0) = Some u
         \<and> Header_Get env_frozen (hdr u) ''X-Request-ID'' = ''existing-id''"
    unfolding a(1) using g by simp
  have y: "emitted (final (Handler env_frozen (Some 0) next_ok sink0 req0 world0)) = []"
    unfolding a(1) using a(2,3) em by simp
  show ?thesis
    by (intro conjI, rule deref_world0, rule lv(2), rule h0, rule em, rule x, rule y)
qed

text \<open>
  Claim C7, as the code has it. Let \<open>L\<close> be the logger of the stage, and let the inner
  handler return, leaving the logger as it was, with final status \<open>S\<close>. The records
  emitted after it are, in this order: one \<^verbatim>\<open>INFO\<close> record "HTTP request completed" when
  the threshold of \<open>L\<close> is at most \<^verbatim>\<open>INFO\<close>; one \<^verbatim>\<open>WARN\<close> record "Slow HTTP request
  detected" when the request took more than five seconds and the threshold is at most
  \<^verbatim>\<open>WARN\<close>; and then, if \<open>S\<close> is at least 500, one \<^verbatim>\<open>ERROR\<close> record "HTTP request failed
  with server error" when the threshold is at most \<^verbatim>\<open>ERROR\<close>, or, if \<open>S\<close> is between 400
  and 499, one \<^verbatim>\<open>WARN\<close> record "HTTP request failed with client error" when the
  threshold is at most \<^verbatim>\<open>WARN\<close>, and neither of the two if \<open>S\<close> is below 400. The status
  of the wrapper handed to the inner handler is 200.
\<close>

theorem completion_records:
  assumes "deref s lg = Some L"
  shows "\<exists>r' wrapped0 rid ctx start s4.
      Handler_begin E lg w r s = Return (r', wrapped0, rid, ctx, start) s4
    \<and> start = time_Now E (tick s) \<and> statusCode wrapped0 = 200 \<and> deref s4 lg = Some L
    \<and> (\<forall>wrapped s5. nxt wrapped0 r' s4 = Return wrapped s5 \<and> deref s5 lg = Some L \<longrightarrow>
         (\<exists>s' es. Handler E lg nxt w r s = Return (ResponseWriter wrapped) s'
            \<and> emitted s' = emitted s5 @ es
            \<and> map (\<lambda>e. (Level e, Message e)) es
                = (if level L \<le> INFO then [(''INFO'', ''HTTP request completed'')] else [])
                  @ (if 5 * Second < sat64 (time_Now E (tick s5) - start) \<and> level L \<le> WARN
                     then [(''WARN'', ''Slow HTTP request detected'')] else [])
                  @ (if 500 \<le> statusCode wrapped then
                       (if level L \<le> ERROR
                        then [(''ERROR'', ''HTTP request failed with server error'')] else [])
                     else if 400 \<le> statusCode wrapped then
                       (if level L \<le> WARN
                        then [(''WARN'', ''HTTP request failed with client error'')] else [])
                     else [])))"
proof -
  define rid where "rid = (if Header_Get E (Header r) ''X-Request-ID'' = ''''
      then UUID_String (uuid_New E (Suc (tick s))) else Header_Get E (Header r) ''X-Request-ID'')"
  let ?ctx = "WithRequestID (Context r) rid"
  let ?r = "r\<lparr>Context := ?ctx\<rparr>"
  let ?w0 = "newResponseWriter (w\<lparr>hdr := Header_Set E (hdr w) ''X-Request-ID'' rid\<rparr>)"
  let ?start = "time_Now E (tick s)"
  from Handler_begin_result [OF assms rid_def, of w]
  obtain s4 where hb: "Handler_begin E lg w r s = Return (?r, ?w0, rid, ?ctx, ?start) s4"
    and d4: "deref s4 lg = Some L"
    by blast
  have st0: "statusCode ?w0 = 200"
    by (simp add: newResponseWriter_def)
  have g: "getFromContext ?ctx requestIDKey = rid"
    by (rule getFromContext_WithRequestID)
  have fin: "\<forall>wrapped s5. nxt ?w0 ?r s4 = Return wrapped s5 \<and> deref s5 lg = Some L \<longrightarrow>
         (\<exists>s' es. Handler E lg nxt w r s = Return (ResponseWriter wrapped) s'
            \<and> emitted s' = emitted s5 @ es
            \<and> map (\<lambda>e. (Level e, Message e)) es
                = (if level L \<le> INFO then [(''INFO'', ''HTTP request completed'')] else [])
                  @ (if 5 * Second < sat64 (time_Now E (tick s5) - ?start) \<and> level L \<le> WARN
                     then [(''WARN'', ''Slow HTTP request detected'')] else [])
                  @ (if 500 \<le> statusCode wrapped then
                       (if level L \<le> ERROR
                        then [(''ERROR'', ''HTTP request failed with server error'')] else [])
                     else if 400 \<le> statusCode wrapped then
                       (if level L \<le> WARN
                        then [(''WARN'', ''HTTP request failed with client error'')] else [])
                     else []))"
  proof (intro allI impI)
    fix wrapped s5
    assume a: "nxt ?w0 ?r s4 = Return wrapped s5 \<and> deref s5 lg = Some L"
    then have nx: "nxt ?w0 ?r s4 = Return wrapped s5" and d5: "deref s5 lg = Some L"
      by simp_all
    have run: "Handler E lg nxt w r s = Handler_finish E lg ?r rid ?ctx ?start wrapped s5"
      by (rule Handler_run [where nxt = nxt, OF hb nx])
    from Handler_finish_result [OF d5 g, of E ?r ?start wrapped]
    show "\<exists>s' es. Handler E lg nxt w r s = Return (ResponseWriter wrapped) s'
            \<and> emitted s' = emitted s5 @ es
            \<and> map (\<lambda>e. (Level e, Message e)) es
                = (if level L \<le> INFO then [(''INFO'', ''HTTP request completed'')] else [])
                  @ (if 5 * Second < sat64 (time_Now E (tick s5) - ?start) \<and> level L \<le> WARN
                     then [(''WARN'', ''Slow HTTP request detected'')] else [])
                  @ (if 500 \<le> statusCode wrapped then
                       (if level L \<le> ERROR
                        then [(''ERROR'', ''HTTP request failed with server error'')] else [])
                     else if 400 \<le> statusCode wrapped then
                       (if level L \<le> WARN
                        then [(''WARN'', ''HTTP request failed with client error'')] else [])
                     else [])"
      unfolding run by blast
  qed
  show ?thesis
    by (intro exI conjI, rule hb, rule refl, rule st0, rule d4, rule fin)
qed

theorem completion_records_witness:
  "deref world_info (Some 0) = Some logger_info
   \<and> (\<exists>u s' (s5 :: world) es.
         Handler env_frozen (Some 0) next_404 sink0 req0 world_info = Return u s'
         \<and> emitted s' = emitted s5 @ es
         \<and> map Level es = [''INFO'', ''WARN'']
         \<and> map Message es = [''HTTP request completed'', ''HTTP request failed with client error''])"
proof -
  have lv: "level logger_info \<le> INFO" "level logger_info \<le> WARN"
    by (simp_all add: logger_info_def INFO_def WARN_def)
  from completion_records [OF deref_world_info, where E = env_frozen and w = sink0 and r = req0
      and nxt = next_404]
  obtain r' wrapped0 rid ctx start s4 where
    st: "start = time_Now env_frozen (tick world_info)"
    and d4: "deref s4 (Some 0) = Some logger_info"
    and fin: "\<forall>wrapped s5. next_404 wrapped0 r' s4 = Return wrapped s5
            \<and> deref s5 (Some 0) = Some logger_info \<longrightarrow>
         (\<exists>s' es. Handler env_frozen (Some 0) next_404 sink0 req0 world_info
                     = Return (ResponseWriter wrapped) s'
            \<and> emitted s' = emitted s5 @ es
            \<and> map (\<lambda>e. (Level e, Message e)) es
                = (if level logger_info \<le> INFO then [(''INFO'', ''HTTP request completed'')] else [])
                  @ (if 5 * Second < sat64 (time_Now env_frozen (tick s5) - start)
                        \<and> level logger_info \<le> WARN
                     then [(''WARN'', ''Slow HTTP request detected'')] else [])
                  @ (if 500 \<le> statusCode wrapped then
                       (if level logger_info \<le> ERROR
                        then [(''ERROR'', ''HTTP request failed with server error'')] else [])
                     else if 400 \<le> statusCode wrapped then
                       (if level logger_info \<le> WARN
                        then [(''WARN'', ''HTTP request failed with client error'')] else [])
                     else []))"
    by blast
  have nx: "next_404 wrapped0 r' s4 = Return (WriteHeader wrapped0 404) s4"
    by (simp add: next_404_def)
  have ns: "\<not> 5 * Second < sat64 (time_Now env_frozen (tick s4) - start)"
    unfolding st by (rule not_slow_frozen)
  from fin nx d4 obtain s' es where
    r: "Handler env_frozen (Some 0) next_404 sink0 req0 world_info
          = Return (ResponseWriter (WriteHeader wrapped0 404)) s'"
    and e: "emitted s' = emitted s4 @ es"
    and m: "map (\<lambda>e. (Level e, Message e)) es
                = (if level logger_info \<le> INFO then [(''INFO'', ''HTTP request completed'')] else [])
                  @ (if 5 * Second < sat64 (time_Now env_frozen (tick s4) - start)
                        \<and> level logger_info \<le> WARN
                     then [(''WARN'', ''Slow HTTP request detected'')] else [])
                  @ (if 500 \<le> statusCode (WriteHeader wrapped0 404) then
                       (if level logger_info \<le> ERROR
                        then [(''ERROR'', ''HTTP request failed with server error'')] else [])
                     else if 400 \<le> statusCode (WriteHeader wrapped0 404) then
                       (if level logger_info \<le> WARN
                        then [(''WARN'', ''HTTP request failed with client error'')] else [])
                     else [])"
    by blast
  have m': "map (\<lambda>e. (Level e, Message e)) es
      = [(''INFO'', ''HTTP request completed''), (''WARN'', ''HTTP request failed with client error'')]"
    using m lv ns by (simp add: WriteHeader_simps)
  then have "map fst (map (\<lambda>e. (Level e, Message e)) es) = [''INFO'', ''WARN'']"
    "map snd (map (\<lambda>e. (Level e, Message e)) es)
       = [''HTTP request completed'', ''HTTP request failed with client error'']"
    by simp_all
  then have m2: "map Level es = [''INFO'', ''WARN'']"
    "map Message es = [''HTTP request completed'', ''HTTP request failed with client error'']"
    by (simp_all add: comp_def)
  have h: "\<exists>u s' (s5 :: world) es.
         Handler env_frozen (Some 0) next_404 sink0 req0 world_info = Return u s'
         \<and> emitted s' = emitted s5 @ es
         \<and> map Level es = [''INFO'', ''WARN'']
         \<and> map Message es = [''HTTP request completed'', ''HTTP request failed with client error'']"
    by (rule exI [where x = "ResponseWriter (WriteHeader wrapped0 404)"], rule exI [where x = s'],
        rule exI [where x = s4], rule exI [where x = es], intro conjI, rule r, rule e,
        rule m2(1), rule m2(2))
  show ?thesis
    by (rule conjI [OF deref_world_info h])
qed

text \<open>
  The claim without the condition on the logger's threshold fails: with the threshold
  at \<^verbatim>\<open>WARN\<close>, a request answered with status 200 returns and no record is emitted, and
  a request answered with status 404 returns with the \<^verbatim>\<open>WARN\<close> record "HTTP request
  failed with client error" as its only record, without any completion record.
\<close>

theorem completion_records_counterexample:
  "returned (Handler env_frozen (Some 0) next_ok sink0 req0 world0)
   \<and> emitted (final (Handler env_frozen (Some 0) next_ok sink0 req0 world0)) = []
   \<and> returned (Handler env_frozen (Some 0) next_404 sink0 req0 world0)
   \<and> map Level (emitted (final (Handler env_frozen (Some 0) next_404 sink0 req0 world0)))
        = [''WARN'']
   \<and> map Message (emitted (final (Handler env_frozen (Some 0) next_404 sink0 req0 world0)))
        = [''HTTP request failed with client error'']"
proof -
  have lv: "INFO < level logger0" "level logger0 \<le> WARN"
    by (simp_all add: logger0_def INFO_def WARN_def)
  have em: "emitted world0 = []" by (simp add: world0_def)
  have ok: "\<And>rw r s. next_ok rw r s = Return ((\<lambda>rw. rw) rw) s"
    by (simp add: next_ok_def)
  have nf: "\<And>rw r s. next_404 rw r s = Return ((\<lambda>rw. WriteHeader rw 404) rw) s"
    by (simp add: next_404_def)
  have ok4: "\<And>rw. statusCode ((\<lambda>rw. rw) rw) = (if (200::int) = 200 then statusCode rw else 200)"
    by simp
  have nf4: "\<And>rw. statusCode ((\<lambda>rw. WriteHeader rw 404) rw)
                 = (if (404::int) = 200 then statusCode rw else 404)"
    by (simp add: WriteHeader_simps)
  from Handler_quiet [where c = 200 and w = sink0 and r = req0 and nxt = next_ok
      and f = "\<lambda>rw. rw", OF deref_world0 lv(1) ok ok4]
  obtain s1 es1 u1 where a: "Handler env_frozen (Some 0) next_ok sink0 req0 world0 = Return u1 s1"
    "emitted s1 = emitted world0 @ es1" "map (\<lambda>e. (Level e, Message e)) es1 = []"
    by auto
  from Handler_quiet [where c = 404 and w = sink0 and r = req0 and nxt = next_404
      and f = "\<lambda>rw. WriteHeader rw 404", OF deref_world0 lv(1) nf nf4]
  obtain s2 es2 u2 where b: "Handler env_frozen (Some 0) next_404 sink0 req0 world0 = Return u2 s2"
    "emitted s2 = emitted world0 @ es2"
    "map (\<lambda>e. (Level e, Message e)) es2 = [(''WARN'', ''HTTP request failed with client error'')]"
    using lv(2) by auto
  from b(3) have "map fst (map (\<lambda>e. (Level e, Message e)) es2) = [''WARN'']"
    "map snd (map (\<lambda>e. (Level e, Message e)) es2) = [''HTTP request failed with client error'']"
    by simp_all
  then have b3: "map Level es2 = [''WARN'']"
    "map Message es2 = [''HTTP request failed with client error'']"
    by (simp_all add: comp_def)
  show ?thesis
    using a b(1,2) b3 em by simp
qed


end
